theory Spec2Isabelle
  imports Main "HOL-Library.Char_ord" "HOL-Library.Sublist"
begin

section \<open>The string primitives of the host language\<close>

text \<open>
  A source string is modelled by the list of the bytes of its UTF-8 encoding, so the ASCII
  characters the program inspects are single \<^typ>\<open>char\<close>s. The functions of this section
  are the built-in string methods the program calls, written out as the language defines
  them: \<open>indexOf\<close> returns the first position of a pattern (\<open>-1\<close> becomes \<open>None\<close>),
  \<open>substring\<close> clamps and swaps its bounds, \<open>split\<close> keeps empty pieces, \<open>trim\<close>
  removes white space and line terminators at both ends.
\<close>

fun indexOfFrom :: "string \<Rightarrow> string \<Rightarrow> nat \<Rightarrow> nat option" where
  "indexOfFrom pat [] i = (if pat = [] then Some i else None)"
| "indexOfFrom pat (c # s) i =
     (if take (length pat) (c # s) = pat then Some i else indexOfFrom pat s (Suc i))"

definition indexOf :: "string \<Rightarrow> string \<Rightarrow> nat option" where
  "indexOf s pat = indexOfFrom pat s 0"

definition substring :: "string \<Rightarrow> nat \<Rightarrow> nat \<Rightarrow> string" where
  "substring s a b =
     (let lo = min (min a b) (length s); hi = min (max a b) (length s)
      in take (hi - lo) (drop lo s))"

definition substringFrom :: "string \<Rightarrow> nat \<Rightarrow> string" where
  "substringFrom s a = drop a s"

definition startsWith :: "string \<Rightarrow> string \<Rightarrow> bool" where
  "startsWith s pat = (take (length pat) s = pat)"

definition endsWith :: "string \<Rightarrow> string \<Rightarrow> bool" where
  "endsWith s pat = (length pat \<le> length s \<and> drop (length s - length pat) s = pat)"

definition includesStr :: "string \<Rightarrow> string \<Rightarrow> bool" where
  "includesStr s pat = (indexOf s pat \<noteq> None)"

fun splitOn :: "char \<Rightarrow> string \<Rightarrow> string list" where
  "splitOn sep [] = [[]]"
| "splitOn sep (c # s) =
     (if c = sep then [] # splitOn sep s
      else (case splitOn sep s of [] \<Rightarrow> [[c]] | p # ps \<Rightarrow> (c # p) # ps))"

fun joinWith :: "string \<Rightarrow> string list \<Rightarrow> string" where
  "joinWith sep [] = []"
| "joinWith sep [x] = x"
| "joinWith sep (x # y # ys) = x @ sep @ joinWith sep (y # ys)"

text \<open>
  The white space that \<open>trim\<close> removes: the ASCII characters TAB, LF, VT, FF, CR and SP, and
  the UTF-8 encodings of U+00A0, U+1680, U+2000 to U+200A, U+2028, U+2029, U+202F, U+205F,
  U+3000 and U+FEFF.
\<close>

definition whiteSpace :: "string list" where
  "whiteSpace =
     [[CHR 0x09], [CHR 0x0A], [CHR 0x0B], [CHR 0x0C], [CHR 0x0D], [CHR 0x20],
      [CHR 0xC2, CHR 0xA0],
      [CHR 0xE1, CHR 0x9A, CHR 0x80],
      [CHR 0xE2, CHR 0x80, CHR 0x80], [CHR 0xE2, CHR 0x80, CHR 0x81],
      [CHR 0xE2, CHR 0x80, CHR 0x82], [CHR 0xE2, CHR 0x80, CHR 0x83],
      [CHR 0xE2, CHR 0x80, CHR 0x84], [CHR 0xE2, CHR 0x80, CHR 0x85],
      [CHR 0xE2, CHR 0x80, CHR 0x86], [CHR 0xE2, CHR 0x80, CHR 0x87],
      [CHR 0xE2, CHR 0x80, CHR 0x88], [CHR 0xE2, CHR 0x80, CHR 0x89],
      [CHR 0xE2, CHR 0x80, CHR 0x8A],
      [CHR 0xE2, CHR 0x80, CHR 0xA8], [CHR 0xE2, CHR 0x80, CHR 0xA9],
      [CHR 0xE2, CHR 0x80, CHR 0xAF],
      [CHR 0xE2, CHR 0x81, CHR 0x9F],
      [CHR 0xE3, CHR 0x80, CHR 0x80],
      [CHR 0xEF, CHR 0xBB, CHR 0xBF]]"

definition leading :: "string list \<Rightarrow> string \<Rightarrow> string option" where
  "leading ws s = find (\<lambda>w. take (length w) s = w) ws"

function stripLeading :: "string list \<Rightarrow> string \<Rightarrow> string" where
  "stripLeading ws s =
     (case leading ws s of
        None \<Rightarrow> s
      | Some w \<Rightarrow> if w = [] then s else stripLeading ws (drop (length w) s))"
  by pat_completeness auto
termination
proof (relation "measure (\<lambda>(ws, s). length s)")
  show "wf (measure (\<lambda>(ws, s). length s))" by simp
next
  fix ws :: "string list" and s w :: string
  assume l: "leading ws s = Some w" and w: "w \<noteq> []"
  from l have "take (length w) s = w"
    by (auto simp: leading_def find_Some_iff)
  with w have "s \<noteq> []" by auto
  with w show "((ws, drop (length w) s), (ws, s)) \<in> measure (\<lambda>(ws, s). length s)"
    by (cases w) auto
qed

declare stripLeading.simps [simp del]

definition trimStart :: "string \<Rightarrow> string" where
  "trimStart s = stripLeading whiteSpace s"

definition trimEnd :: "string \<Rightarrow> string" where
  "trimEnd s = rev (stripLeading (map rev whiteSpace) (rev s))"

definition trim :: "string \<Rightarrow> string" where
  "trim s = trimEnd (trimStart s)"

text \<open>Decimal rendering of a number, as \<open>toString\<close> and template literals produce it.\<close>

definition digitChar :: "nat \<Rightarrow> char" where
  "digitChar d = char_of (of_char (CHR ''0'') + d)"

function showNat :: "nat \<Rightarrow> string" where
  "showNat n = (if n < 10 then [digitChar n] else showNat (n div 10) @ [digitChar (n mod 10)])"
  by pat_completeness auto
termination
  by (relation "measure id") auto

declare showNat.simps [simp del]

section \<open>readme.ts: the document splicer\<close>

definition START_MARKER :: string where
  "START_MARKER = ''<!-- releaserun-badges-start -->''"

definition END_MARKER :: string where
  "END_MARKER = ''<!-- releaserun-badges-end -->''"

record UpdateResult =
  updated :: bool
  content :: string
  markersFound :: bool

definition updateReadmeContent :: "string \<Rightarrow> string \<Rightarrow> UpdateResult" where
  "updateReadmeContent readme badges =
     (case indexOf readme START_MARKER of
        None \<Rightarrow> \<lparr>updated = False, content = readme, markersFound = False\<rparr>
      | Some startIdx \<Rightarrow>
          (case indexOf readme END_MARKER of
             None \<Rightarrow> \<lparr>updated = False, content = readme, markersFound = False\<rparr>
           | Some endIdx \<Rightarrow>
               if endIdx < startIdx
               then \<lparr>updated = False, content = readme, markersFound = False\<rparr>
               else
                 (let before = substring readme 0 (startIdx + length START_MARKER);
                      after = substringFrom readme endIdx;
                      newContent = before @ [CHR 0x0A] @ badges @ [CHR 0x0A] @ after;
                      changed = (newContent \<noteq> readme)
                  in \<lparr>updated = changed, content = newContent, markersFound = True\<rparr>)))"

definition hasMarkers :: "string \<Rightarrow> bool" where
  "hasMarkers readme = (includesStr readme START_MARKER \<and> includesStr readme END_MARKER)"

section \<open>badges.ts: validation and rendering\<close>

record Product =
  product :: string
  version :: "string option"

datatype BadgeType = health | eol | freshness | cve | cloud

datatype LinkTo = badge_page | releaserun | none

definition isDigit :: "char \<Rightarrow> bool" where
  "isDigit c = (CHR ''0'' \<le> c \<and> c \<le> CHR ''9'')"

definition isLower :: "char \<Rightarrow> bool" where
  "isLower c = (CHR ''a'' \<le> c \<and> c \<le> CHR ''z'')"

definition isUpper :: "char \<Rightarrow> bool" where
  "isUpper c = (CHR ''A'' \<le> c \<and> c \<le> CHR ''Z'')"

definition isPunct :: "char \<Rightarrow> bool" where
  "isPunct c = (c = CHR ''.'' \<or> c = CHR ''_'' \<or> c = CHR ''-'')"

text \<open>\<open>PRODUCT_PATTERN = /^[a-z0-9][a-z0-9._-]*$/\<close>, as a matcher on the whole string.\<close>

fun PRODUCT_PATTERN :: "string \<Rightarrow> bool" where
  "PRODUCT_PATTERN [] = False"
| "PRODUCT_PATTERN (c # cs) =
     ((isLower c \<or> isDigit c) \<and> list_all (\<lambda>d. isLower d \<or> isDigit d \<or> isPunct d) cs)"

text \<open>\<open>VERSION_PATTERN = /^[a-zA-Z0-9][a-zA-Z0-9._-]*$/\<close>.\<close>

fun VERSION_PATTERN :: "string \<Rightarrow> bool" where
  "VERSION_PATTERN [] = False"
| "VERSION_PATTERN (c # cs) =
     ((isLower c \<or> isUpper c \<or> isDigit c)
      \<and> list_all (\<lambda>d. isLower d \<or> isUpper d \<or> isDigit d \<or> isPunct d) cs)"

definition MAX_PRODUCTS :: nat where
  "MAX_PRODUCTS = 50"

definition validateProduct :: "string \<Rightarrow> bool" where
  "validateProduct name = PRODUCT_PATTERN name"

definition validateVersion :: "string \<Rightarrow> bool" where
  "validateVersion v = (v = ''latest'' \<or> VERSION_PATTERN v)"

definition badgeTypeOfString :: "string \<Rightarrow> BadgeType option" where
  "badgeTypeOfString t =
     (if t = ''health'' then Some health
      else if t = ''eol'' then Some eol
      else if t = ''freshness'' then Some freshness
      else if t = ''cve'' then Some cve
      else if t = ''cloud'' then Some cloud
      else None)"

fun badgeTypeString :: "BadgeType \<Rightarrow> string" where
  "badgeTypeString health = ''health''"
| "badgeTypeString eol = ''eol''"
| "badgeTypeString freshness = ''freshness''"
| "badgeTypeString cve = ''cve''"
| "badgeTypeString cloud = ''cloud''"

definition validateBadgeType :: "string \<Rightarrow> bool" where
  "validateBadgeType t = (badgeTypeOfString t \<noteq> None)"

record ParseResult =
  products :: "Product list"
  warnings :: "string list"

definition truncationWarning :: string where
  "truncationWarning =
     ''Maximum of '' @ showNat MAX_PRODUCTS @ '' products allowed. Only the first ''
       @ showNat MAX_PRODUCTS @ '' will be processed.''"

text \<open>
  One turn of the loop of \<open>parseProducts\<close>: the line is cut at its first colon, the name and
  then the version are validated, and either a warning or a product is appended.
  An empty version is falsy, so it is neither validated nor stored.
\<close>

definition parseLine :: "string \<Rightarrow> ParseResult \<Rightarrow> ParseResult" where
  "parseLine line acc =
     (let (name, ver) =
            (case indexOf line '':'' of
               None \<Rightarrow> (line, None)
             | Some colonIdx \<Rightarrow>
                 (substring line 0 colonIdx, Some (substringFrom line (colonIdx + 1))))
      in if \<not> validateProduct name
         then acc\<lparr>warnings := warnings acc
                    @ [''Skipping invalid product name: \"'' @ name @ ''\"'']\<rparr>
         else
           (case ver of
              Some v \<Rightarrow>
                if v \<noteq> [] \<and> \<not> validateVersion v
                then acc\<lparr>warnings := warnings acc
                           @ [''Skipping invalid version \"'' @ v @ ''\" for product \"''
                                @ name @ ''\"'']\<rparr>
                else acc\<lparr>products := products acc
                           @ [\<lparr>product = name, version = (if v = [] then None else Some v)\<rparr>]\<rparr>
            | None \<Rightarrow>
                acc\<lparr>products := products acc @ [\<lparr>product = name, version = None\<rparr>]\<rparr>))"

definition nonBlankLines :: "string \<Rightarrow> string list" where
  "nonBlankLines input = filter (\<lambda>l. length l > 0) (map trim (splitOn (CHR 0x0A) input))"

definition parseProducts :: "string \<Rightarrow> ParseResult" where
  "parseProducts input =
     (let lines = nonBlankLines input;
          start = \<lparr>products = [],
                   warnings = (if length lines > MAX_PRODUCTS then [truncationWarning] else [])\<rparr>;
          linesToProcess = take MAX_PRODUCTS lines
      in foldl (\<lambda>acc line. parseLine line acc) start linesToProcess)"

text \<open>
  The white space of the language by code point, as ECMAScript lists it (WhiteSpace and
  LineTerminator), and the UTF-8 encoding of a code point of the basic plane; the list
  \<open>whiteSpace\<close> above is compared with these.
\<close>

definition whiteSpaceCodePoints :: "nat list" where
  "whiteSpaceCodePoints =
     [0x09, 0x0A, 0x0B, 0x0C, 0x0D, 0x20, 0xA0, 0x1680,
      0x2000, 0x2001, 0x2002, 0x2003, 0x2004, 0x2005, 0x2006, 0x2007, 0x2008, 0x2009, 0x200A,
      0x2028, 0x2029, 0x202F, 0x205F, 0x3000, 0xFEFF]"

definition utf8 :: "nat \<Rightarrow> string" where
  "utf8 n =
     (if n < 0x80 then [char_of n]
      else if n < 0x800 then [char_of (0xC0 + n div 64), char_of (0x80 + n mod 64)]
      else [char_of (0xE0 + n div 4096), char_of (0x80 + (n div 64) mod 64),
            char_of (0x80 + n mod 64)])"

text \<open>
  A line validated on its own, which is one turn of the loop from empty lists, and the
  characters of the two patterns.
\<close>

definition validateLine :: "string \<Rightarrow> ParseResult" where
  "validateLine line = parseLine line \<lparr>products = [], warnings = []\<rparr>"

definition wordChar :: "char \<Rightarrow> bool" where
  "wordChar c = (isLower c \<or> isUpper c \<or> isDigit c \<or> isPunct c)"

text \<open>
  \<open>toLowerCase\<close>, on the ASCII letters. A character outside ASCII is left as it is; no
  badge type contains one, before or after lowering, so \<open>parseBadgeTypes\<close> treats such
  an entry as the source does: it is dropped.
\<close>

definition toLowerChar :: "char \<Rightarrow> char" where
  "toLowerChar c = (if isUpper c then char_of (of_char c + (32::nat)) else c)"

definition toLowerCase :: "string \<Rightarrow> string" where
  "toLowerCase s = map toLowerChar s"

definition parseBadgeTypes :: "string \<Rightarrow> BadgeType list" where
  "parseBadgeTypes input =
     (let types = filter (\<lambda>t. length t > 0)
                    (map (\<lambda>t. toLowerCase (trim t)) (splitOn (CHR '','') input));
          valid = List.map_filter badgeTypeOfString types
      in if length valid > 0 then valid else [health])"

text \<open>
  \<open>encodeURIComponent\<close>: the unreserved characters stay, every other byte of the UTF-8
  encoding becomes a percent sign and two upper-case hexadecimal digits.
\<close>

definition hexDigit :: "nat \<Rightarrow> char" where
  "hexDigit d = (if d < 10 then char_of (of_char (CHR ''0'') + d)
                 else char_of (of_char (CHR ''A'') + (d - 10)))"

definition uriUnreserved :: "char \<Rightarrow> bool" where
  "uriUnreserved c =
     (isLower c \<or> isUpper c \<or> isDigit c \<or> c \<in> set ''-_.!~*'' \<or> c = CHR 0x27
      \<or> c = CHR ''('' \<or> c = CHR '')'')"

definition encodeURIComponent :: "string \<Rightarrow> string" where
  "encodeURIComponent s =
     concat (map (\<lambda>c. if uriUnreserved c then [c]
                       else [CHR ''%'', hexDigit (of_char c div 16), hexDigit (of_char c mod 16)]) s)"

text \<open>
  An optional string argument is an \<^typ>\<open>string option\<close>; \<open>undefined\<close> and the empty
  string are both falsy, which is what \<open>truthy\<close> tests.
\<close>

fun truthy :: "string option \<Rightarrow> bool" where
  "truthy None = False"
| "truthy (Some s) = (s \<noteq> [])"

definition getBadgeUrl ::
  "BadgeType \<Rightarrow> string \<Rightarrow> string option \<Rightarrow> string option \<Rightarrow> string option \<Rightarrow> string" where
  "getBadgeUrl type pname ver style baseUrl =
     (let base = (if truthy baseUrl then the baseUrl else ''https://img.releaserun.com/badge'');
          path = (if truthy ver
                  then badgeTypeString type @ ''/'' @ pname @ ''/'' @ the ver @ ''.svg''
                  else badgeTypeString type @ ''/'' @ pname @ ''.svg'');
          url = base @ ''/'' @ path
      in if truthy style \<and> style \<noteq> Some ''flat''
         then url @ ''?style='' @ encodeURIComponent (the style)
         else url)"

fun getLinkUrl :: "LinkTo \<Rightarrow> string \<Rightarrow> string \<Rightarrow> string" where
  "getLinkUrl badge_page pname badgeUrl = ''https://releaserun.com/badges/'' @ pname @ ''/''"
| "getLinkUrl releaserun pname badgeUrl = ''https://releaserun.com''"
| "getLinkUrl none pname badgeUrl = badgeUrl"

definition versionSuffix :: "string option \<Rightarrow> string" where
  "versionSuffix ver = (if truthy ver then '' '' @ the ver else [])"

fun getBadgeLabel :: "BadgeType \<Rightarrow> string \<Rightarrow> string option \<Rightarrow> string" where
  "getBadgeLabel health pname ver = pname @ versionSuffix ver @ '' health''"
| "getBadgeLabel eol pname ver = pname @ versionSuffix ver @ '' EOL''"
| "getBadgeLabel freshness pname ver = pname @ versionSuffix ver @ '' freshness''"
| "getBadgeLabel cve pname ver = pname @ versionSuffix ver @ '' CVEs''"
| "getBadgeLabel cloud pname ver = pname @ versionSuffix ver @ '' cloud''"

definition generateBadgeMarkdown ::
  "Product \<Rightarrow> BadgeType \<Rightarrow> string \<Rightarrow> LinkTo \<Rightarrow> string option \<Rightarrow> string" where
  "generateBadgeMarkdown p type style linkTo baseUrl =
     (let badgeUrl = getBadgeUrl type (product p) (version p) (Some style) baseUrl;
          linkUrl = getLinkUrl linkTo (product p) badgeUrl;
          label = getBadgeLabel type (product p) (version p)
      in ''[!['' @ label @ '']('' @ badgeUrl @ '')]('' @ linkUrl @ '')'')"

definition generateAllBadges ::
  "Product list \<Rightarrow> BadgeType list \<Rightarrow> string \<Rightarrow> LinkTo \<Rightarrow> string option \<Rightarrow> string" where
  "generateAllBadges ps badgeTypes style linkTo baseUrl =
     joinWith [CHR 0x0A]
       (map (\<lambda>p. joinWith '' ''
                    (map (\<lambda>type. generateBadgeMarkdown p type style linkTo baseUrl) badgeTypes))
            ps)"

text \<open>
  The image URL and the badge unit as the specification words them, for comparison with
  \<open>getBadgeUrl\<close> and \<open>generateBadgeMarkdown\<close>:
  \<open>{baseUrl}/{category}/{product}[/{version}].svg\<close>, with \<open>?style={style}\<close> appended
  when the style is not \<open>flat\<close>, and \<open>[![label](imageUrl)](linkUrl)\<close>.
\<close>

definition spec_baseUrl :: "string option \<Rightarrow> string" where
  "spec_baseUrl baseUrl =
     (case baseUrl of
        None \<Rightarrow> ''https://img.releaserun.com/badge''
      | Some b \<Rightarrow> if b = [] then ''https://img.releaserun.com/badge'' else b)"

definition spec_imageUrl :: "string option \<Rightarrow> BadgeType \<Rightarrow> Product \<Rightarrow> string \<Rightarrow> string" where
  "spec_imageUrl baseUrl type p style =
     spec_baseUrl baseUrl @ ''/'' @ badgeTypeString type @ ''/'' @ product p
       @ (case version p of None \<Rightarrow> [] | Some v \<Rightarrow> ''/'' @ v) @ ''.svg''
       @ (if style = ''flat'' then [] else ''?style='' @ style)"

definition spec_badgeUnit ::
  "string option \<Rightarrow> LinkTo \<Rightarrow> string \<Rightarrow> Product \<Rightarrow> BadgeType \<Rightarrow> string" where
  "spec_badgeUnit baseUrl linkTo style p type =
     ''[!['' @ getBadgeLabel type (product p) (version p) @ '']('' @ spec_imageUrl baseUrl type p style
       @ '')]('' @ getLinkUrl linkTo (product p) (spec_imageUrl baseUrl type p style) @ '')''"

definition validProduct :: "Product \<Rightarrow> bool" where
  "validProduct p =
     (validateProduct (product p)
      \<and> (case version p of None \<Rightarrow> True | Some v \<Rightarrow> validateVersion v))"

section \<open>index.ts: the badge-service URL check\<close>

text \<open>
  \<open>new URL(url)\<close> belongs to the platform. The check below takes the parser as a
  parameter: it returns \<open>None\<close> where the constructor throws, and otherwise the two
  components the program reads.
\<close>

record ParsedURL =
  protocol :: string
  hostname :: string

text \<open>
  \<open>/^\d{1,3}(\.\d{1,3}){3}$/\<close>: a run of one to three digits, then three times a dot and
  such a run, and nothing more. After a run of digits the pattern needs a dot or the end, so
  a run is matched only as a whole.
\<close>

definition matchOctet :: "string \<Rightarrow> string option" where
  "matchOctet s =
     (let ds = takeWhile isDigit s
      in if 1 \<le> length ds \<and> length ds \<le> 3 then Some (dropWhile isDigit s) else None)"

definition matchDotOctet :: "string \<Rightarrow> string option" where
  "matchDotOctet s = (case s of [] \<Rightarrow> None | c # r \<Rightarrow> if c = CHR ''.'' then matchOctet r else None)"

definition matchIPv4 :: "string \<Rightarrow> bool" where
  "matchIPv4 s =
     (case matchOctet s of None \<Rightarrow> False
      | Some r1 \<Rightarrow>
     (case matchDotOctet r1 of None \<Rightarrow> False
      | Some r2 \<Rightarrow>
     (case matchDotOctet r2 of None \<Rightarrow> False
      | Some r3 \<Rightarrow>
     (case matchDotOctet r3 of None \<Rightarrow> False
      | Some r4 \<Rightarrow> r4 = []))))"

definition isValidBadgeServiceUrl :: "(string \<Rightarrow> ParsedURL option) \<Rightarrow> string \<Rightarrow> bool" where
  "isValidBadgeServiceUrl parse url =
     (case parse url of
        None \<Rightarrow> False
      | Some parsed \<Rightarrow>
          if protocol parsed \<noteq> ''https:'' then False
          else if matchIPv4 (hostname parsed) \<or> startsWith (hostname parsed) ''[''
                  \<or> hostname parsed = ''::1'' then False
          else if hostname parsed = ''localhost'' \<or> hostname parsed = ''127.0.0.1'' then False
          else if hostname parsed \<noteq> ''releaserun.com''
                  \<and> \<not> endsWith (hostname parsed) ''.releaserun.com'' then False
          else True)"

text \<open>
  A bare IPv4 literal in the sense of the check, stated without the matcher: four groups of
  one to three digits, separated by dots.
\<close>

definition octet :: "string \<Rightarrow> bool" where
  "octet a = (1 \<le> length a \<and> length a \<le> 3 \<and> list_all isDigit a)"

definition ipv4Literal :: "string \<Rightarrow> bool" where
  "ipv4Literal h =
     (case splitOn (CHR ''.'') h of
        [a, b, c, d] \<Rightarrow> octet a \<and> octet b \<and> octet c \<and> octet d
      | _ \<Rightarrow> False)"

text \<open>
  The URLs of the test-suite with the components the platform's parser gives them, for the
  places where a concrete parser is needed.
\<close>

definition testParseURL :: "string \<Rightarrow> ParsedURL option" where
  "testParseURL = map_of
     [(''https://img.releaserun.com'', \<lparr>protocol = ''https:'', hostname = ''img.releaserun.com''\<rparr>),
      (''https://releaserun.com'', \<lparr>protocol = ''https:'', hostname = ''releaserun.com''\<rparr>),
      (''https://sub.releaserun.com'', \<lparr>protocol = ''https:'', hostname = ''sub.releaserun.com''\<rparr>),
      (''http://img.releaserun.com'', \<lparr>protocol = ''http:'', hostname = ''img.releaserun.com''\<rparr>),
      (''https://evil.com'', \<lparr>protocol = ''https:'', hostname = ''evil.com''\<rparr>),
      (''https://192.168.1.1'', \<lparr>protocol = ''https:'', hostname = ''192.168.1.1''\<rparr>),
      (''https://localhost'', \<lparr>protocol = ''https:'', hostname = ''localhost''\<rparr>),
      (''https://releaserun.com.evil.com'',
         \<lparr>protocol = ''https:'', hostname = ''releaserun.com.evil.com''\<rparr>)]"

section \<open>index.ts: the effects of a run\<close>

text \<open>
  A thrown value is either an \<open>Error\<close> object with its message or some other value with
  its \<open>String(...)\<close> rendering; \<open>errorMessage\<close> is the expression
  \<open>err instanceof Error ? err.message : String(err)\<close>.
\<close>

datatype thrown = Error string | NonError string

fun errorMessage :: "thrown \<Rightarrow> string" where
  "errorMessage (Error m) = m"
| "errorMessage (NonError s) = s"

text \<open>
  The calls to the hosting API, with their arguments in the order
  owner, repo, and then as named.
\<close>

datatype api_call =
    ReposGet string string
  | GitGetRef string string (ref_of: string)
  | GitCreateRef string string (ref_of: string) (sha_of: string)
  | GitUpdateRef string string (ref_of: string) (sha_of: string) (force_of: bool)
  | GitDeleteRef string string (ref_of: string)
  | ReposGetContent string string string string
  | ReposCreateOrUpdateFileContents string string string string string "string option" string
  | PullsList string string string string
  | PullsUpdate string string nat string string
  | PullsCreate string string string string string string

text \<open>
  Everything a run does to the outside, in the order it happens: the reporting calls of the
  actions toolkit, the two file-system calls and the API calls.
\<close>

datatype event =
    SetFailed string
  | Warning string
  | Info string
  | Debug string
  | SetOutput string string
  | SetSecret string
  | ReadFile string
  | WriteFile string string
  | Api api_call

fun apiCallOf :: "event \<Rightarrow> api_call option" where
  "apiCallOf (Api c) = Some c"
| "apiCallOf _ = None"

definition apiCalls :: "event list \<Rightarrow> api_call list" where
  "apiCalls log = List.map_filter apiCallOf log"

datatype FileData = Listing | Entry string string

record PullInfo =
  number :: nat
  html_url :: string

text \<open>
  The hosting platform. Each operation answers from the list of all API calls made so far in
  the run, the current one last: any behaviour of the remote during one run is such a
  function. A rejected promise is \<open>Inl\<close>.
\<close>

record Remote =
  repos_get :: "api_call list \<Rightarrow> thrown + string"
  git_getRef :: "api_call list \<Rightarrow> thrown + string"
  git_createRef :: "api_call list \<Rightarrow> thrown + unit"
  git_updateRef :: "api_call list \<Rightarrow> thrown + unit"
  git_deleteRef :: "api_call list \<Rightarrow> thrown + unit"
  repos_getContent :: "api_call list \<Rightarrow> thrown + FileData"
  repos_createOrUpdateFileContents :: "api_call list \<Rightarrow> thrown + unit"
  pulls_list :: "api_call list \<Rightarrow> thrown + PullInfo list"
  pulls_update :: "api_call list \<Rightarrow> thrown + unit"
  pulls_create :: "api_call list \<Rightarrow> thrown + PullInfo"

text \<open>
  The process environment of a run: the action inputs as the workflow supplies them (the
  empty string when unset), the two environment variables, the working directory,
  \<open>path.resolve\<close> and the URL parser of the platform, the file system, the repository
  context and the remote.
\<close>

record Env =
  rawInput :: "string \<Rightarrow> string"
  GITHUB_WORKSPACE :: "string option"
  GITHUB_TOKEN :: "string option"
  cwd :: string
  pathResolve :: "string \<Rightarrow> string"
  parseURL :: "string \<Rightarrow> ParsedURL option"
  readFileSync :: "string \<Rightarrow> thrown + string"
  writeFileSync :: "string \<Rightarrow> string \<Rightarrow> thrown + unit"
  context_owner :: string
  context_repo :: string
  payload_default_branch :: "string option"
  remote :: Remote

text \<open>\<open>core.getInput(name)\<close> returns the supplied value with its white space trimmed.\<close>

definition getInput :: "Env \<Rightarrow> string \<Rightarrow> string" where
  "getInput env name = trim (rawInput env name)"

text \<open>
  A step of the run takes the log of events so far and returns the extended log with one of
  three outcomes: it goes on with a value, it leaves \<open>run\<close> through a \<open>return\<close>, or
  it throws.
\<close>

datatype 'a flow = Next 'a | Return | Throw thrown

type_synonym 'a step = "event list \<Rightarrow> 'a flow \<times> event list"

definition andThen :: "'a step \<Rightarrow> ('a \<Rightarrow> 'b step) \<Rightarrow> 'b step" where
  "andThen m f log =
     (case m log of
        (Next a, log') \<Rightarrow> f a log'
      | (Return, log') \<Rightarrow> (Return, log')
      | (Throw t, log') \<Rightarrow> (Throw t, log'))"

definition tryCatch :: "'a step \<Rightarrow> (thrown \<Rightarrow> 'a step) \<Rightarrow> 'a step" where
  "tryCatch m h log = (case m log of (Throw t, log') \<Rightarrow> h t log' | r \<Rightarrow> r)"

definition pure :: "'a \<Rightarrow> 'a step" where
  "pure a log = (Next a, log)"

definition leave :: "'a step" where
  "leave log = (Return, log)"

definition emit :: "event \<Rightarrow> unit step" where
  "emit e log = (Next (), log @ [e])"

fun emitAll :: "event list \<Rightarrow> unit step" where
  "emitAll es log = (Next (), log @ es)"

definition failWith :: "string \<Rightarrow> 'a step" where
  "failWith msg log = (Return, log @ [SetFailed msg])"

definition call :: "(api_call list \<Rightarrow> thrown + 'a) \<Rightarrow> api_call \<Rightarrow> 'a step" where
  "call operation c log =
     (let log' = log @ [Api c]
      in case operation (apiCalls log') of
           Inl t \<Rightarrow> (Throw t, log')
         | Inr v \<Rightarrow> (Next v, log'))"

definition orElse :: "string \<Rightarrow> string \<Rightarrow> string" where
  "orElse s d = (if s = [] then d else s)"

abbreviation NL :: string where
  "NL \<equiv> [CHR 0x0A]"

text \<open>
  \<open>Buffer.from(s).toString('base64')\<close>: the bytes of the UTF-8 encoding, three at a time,
  as four characters of the base-64 alphabet, padded with \<open>=\<close>.
\<close>

definition b64 :: "nat \<Rightarrow> char" where
  "b64 n = ''ABCDEFGHIJKLMNOPQRSTUVWXYZabcdefghijklmnopqrstuvwxyz0123456789+/'' ! n"

fun base64 :: "nat list \<Rightarrow> string" where
  "base64 [] = []"
| "base64 [a] = [b64 (a div 4), b64 ((a mod 4) * 16), CHR ''='', CHR ''='']"
| "base64 [a, b] =
     [b64 (a div 4), b64 ((a mod 4) * 16 + b div 16), b64 ((b mod 16) * 4), CHR ''='']"
| "base64 (a # b # c # r) =
     [b64 (a div 4), b64 ((a mod 4) * 16 + b div 16), b64 ((b mod 16) * 4 + c div 64),
      b64 (c mod 64)] @ base64 r"

definition toBase64 :: "string \<Rightarrow> string" where
  "toBase64 s = base64 (map of_char s)"

section \<open>index.ts: run\<close>

text \<open>
  \<open>run\<close> is one long function; it is cut here into the steps its comments name, each
  step a definition, chained by \<open>andThen\<close> in \<open>run_body\<close>. The values a later step reads
  are carried in the records \<open>Inputs\<close>, \<open>Rendered\<close> and \<open>Ctx\<close>.
\<close>

record Inputs =
  productsInput :: string
  badgeTypesInput :: string
  readmePath :: string
  linkTo :: LinkTo
  prTitle :: string
  prBranch :: string
  style :: string
  badgeBaseUrl :: "string option"
  fullPath :: string

record Rendered =
  parsedProducts :: "Product list"
  badgeTypes :: "BadgeType list"
  badgesMarkdown :: string

record Ctx =
  inputs :: Inputs
  rendered :: Rendered
  newContent :: string
  defaultBranch :: string
  tipSha :: string

text \<open>
  \<open>core.getInput(name, { required: true })\<close> throws when the supplied value is empty; the
  test is made before the value is trimmed, so a value of white space only does not throw
  and is returned as the empty string.
\<close>

definition getRequiredInput :: "Env \<Rightarrow> string \<Rightarrow> string step" where
  "getRequiredInput env name log =
     (if rawInput env name = []
      then (Throw (Error (''Input required and not supplied: '' @ name)), log)
      else (Next (getInput env name), log))"

text \<open>
  The branch-name test of lines 52 and 53: \<open>/\.\./\<close>, a leading or trailing slash, the
  suffix \<open>.lock\<close>, and \<open>/[\x00-\x1f\x7f ~^:?*\[\\]/\<close>.
\<close>

definition invalidBranchChar :: "char \<Rightarrow> bool" where
  "invalidBranchChar c =
     (c \<le> CHR 0x1F \<or> c = CHR 0x7F \<or> c \<in> set '' ~^:?*['' \<or> c = CHR 0x5C)"

definition invalidBranch :: "string \<Rightarrow> bool" where
  "invalidBranch b =
     (includesStr b ''..'' \<or> startsWith b ''/'' \<or> endsWith b ''/''
      \<or> endsWith b ''.lock'' \<or> list_ex invalidBranchChar b)"

definition validStyles :: "string list" where
  "validStyles = [''flat'', ''flat-square'', ''plastic'', ''for-the-badge'']"

definition linkToOfString :: "string \<Rightarrow> LinkTo option" where
  "linkToOfString s =
     (if s = ''badge-page'' then Some badge_page
      else if s = ''releaserun'' then Some releaserun
      else if s = ''none'' then Some none
      else None)"

text \<open>\<open>s.replace(/\/$/, '')\<close>: one trailing slash is removed.\<close>

definition stripTrailingSlash :: "string \<Rightarrow> string" where
  "stripTrailingSlash s = (if s \<noteq> [] \<and> last s = CHR ''/'' then butlast s else s)"

definition workspacePath :: "Env \<Rightarrow> string" where
  "workspacePath env = (if truthy (GITHUB_WORKSPACE env) then the (GITHUB_WORKSPACE env) else cwd env)"

text \<open>Lines 43 to 94: the inputs are read and validated.\<close>

definition run_inputs :: "Env \<Rightarrow> Inputs step" where
  "run_inputs env =
     andThen (getRequiredInput env ''products'') (\<lambda>productsIn.
       let badgeTypesIn = orElse (getInput env ''badge-types'') ''health'';
           readmeP = orElse (getInput env ''readme-path'') ''README.md'';
           linkToIn = orElse (getInput env ''link-to'') ''badge-page'';
           title = orElse (getInput env ''pr-title'') ''chore: update version health badges'';
           branch = orElse (getInput env ''pr-branch'') ''releaserun/badges-update''
       in if invalidBranch branch
          then failWith (''Invalid pr-branch: \"'' @ branch
                           @ ''\". Branch name contains invalid characters.'')
          else
            let styleIn = orElse (getInput env ''style'') ''flat''
            in if styleIn \<notin> set validStyles
               then failWith (''Invalid style: \"'' @ styleIn @ ''\". Must be one of: ''
                                @ joinWith '', '' validStyles)
               else
                 (case linkToOfString linkToIn of
                    None \<Rightarrow>
                      failWith (''Invalid link-to value: \"'' @ linkToIn
                                  @ ''\". Must be badge-page, releaserun, or none.'')
                  | Some lt \<Rightarrow>
                      let badgeServiceBaseUrl = getInput env ''badge-service-url''
                      in if badgeServiceBaseUrl \<noteq> []
                            \<and> \<not> isValidBadgeServiceUrl (parseURL env) badgeServiceBaseUrl
                         then failWith (''Invalid badge-service-url: \"'' @ badgeServiceBaseUrl
                                  @ ''\". ''
                                  @ ''URL must use HTTPS and match *.releaserun.com (no IP addresses or localhost).'')
                         else
                           let baseUrl = (if badgeServiceBaseUrl \<noteq> []
                                          then Some (stripTrailingSlash badgeServiceBaseUrl @ ''/badge'')
                                          else None);
                               full = pathResolve env readmeP
                           in if \<not> startsWith full (pathResolve env (workspacePath env))
                              then failWith ''Invalid readme-path: must be within repository workspace''
                              else pure \<lparr>productsInput = productsIn, badgeTypesInput = badgeTypesIn,
                                         readmePath = readmeP, linkTo = lt, prTitle = title,
                                         prBranch = branch, style = styleIn,
                                         badgeBaseUrl = baseUrl, fullPath = full\<rparr>))"

text \<open>Lines 96 to 119: products and badge types are parsed, the markup is rendered and reported.\<close>

definition run_render :: "Env \<Rightarrow> Inputs \<Rightarrow> Rendered step" where
  "run_render env i =
     (let parsed = parseProducts (productsInput i)
      in andThen (emitAll (map Warning (warnings parsed))) (\<lambda>_.
         if length (products parsed) = 0
         then andThen (emit (Warning ''No valid products found in input. Nothing to do.''))
                (\<lambda>_. leave)
         else
           let ps = products parsed;
               types = parseBadgeTypes (badgeTypesInput i);
               markdown = generateAllBadges ps types (style i) (linkTo i) (badgeBaseUrl i)
           in andThen (emitAll
                [Info (''Parsed '' @ showNat (length ps) @ '' product(s)''),
                 Info (''Badge types: '' @ joinWith '', '' (map badgeTypeString types)),
                 Info (''Generated badges for '' @ showNat (length ps) @ '' product(s) x ''
                         @ showNat (length types) @ '' type(s)''),
                 Debug (''Generated badge markdown:'' @ NL @ markdown),
                 SetOutput ''badges-markdown'' markdown,
                 SetOutput ''badges-count'' (showNat (length ps * length types)),
                 SetOutput ''pr-branch'' (prBranch i)])
              (\<lambda>_. pure \<lparr>parsedProducts = ps, badgeTypes = types, badgesMarkdown = markdown\<rparr>)))"

text \<open>
  Lines 121 to 156: the document is read, spliced and written back. The run ends here when
  the markers are missing or when the splice changes nothing.
\<close>

definition run_document :: "Env \<Rightarrow> Inputs \<Rightarrow> Rendered \<Rightarrow> string step" where
  "run_document env i r =
     andThen (emit (ReadFile (fullPath i))) (\<lambda>_.
       case readFileSync env (fullPath i) of
         Inl err \<Rightarrow>
           failWith (''Failed to read README at '' @ fullPath i @ '': '' @ errorMessage err)
       | Inr readmeContent \<Rightarrow>
           let result = updateReadmeContent readmeContent (badgesMarkdown r)
           in if \<not> markersFound result
              then andThen (emit (Warning (''No badge markers found in '' @ readmePath i @ ''. ''
                     @ ''Add <!-- releaserun-badges-start --> and <!-- releaserun-badges-end --> to your README.'')))
                     (\<lambda>_. leave)
              else if \<not> updated result
              then andThen (emit (Info ''No changes detected. Badges are up to date.''))
                     (\<lambda>_. leave)
              else
                andThen (emit (WriteFile (fullPath i) (content result))) (\<lambda>_.
                  case writeFileSync env (fullPath i) (content result) of
                    Inl err \<Rightarrow>
                      failWith (''Failed to write README at '' @ fullPath i @ '': ''
                                  @ errorMessage err)
                  | Inr _ \<Rightarrow>
                      andThen (emit (Info ''README updated with new badges.''))
                        (\<lambda>_. pure (content result))))"

text \<open>Lines 158 to 167: the token.\<close>

definition run_token :: "Env \<Rightarrow> string step" where
  "run_token env =
     (let token = (if getInput env ''github-token'' \<noteq> [] then Some (getInput env ''github-token'')
                   else GITHUB_TOKEN env)
      in if \<not> truthy token
         then failWith ''No GitHub token provided. Set github-token input or GITHUB_TOKEN env var.''
         else andThen (emit (SetSecret (the token))) (\<lambda>_. pure (the token)))"

text \<open>Lines 169 to 178: the default branch, with its fallback.\<close>

definition run_defaultBranch :: "Env \<Rightarrow> string step" where
  "run_defaultBranch env =
     tryCatch
       (call (repos_get (remote env)) (ReposGet (context_owner env) (context_repo env)))
       (\<lambda>err.
          andThen (emit (Warning (''Failed to query repository default branch: ''
                     @ errorMessage err @ ''. Falling back to context or '' @ [CHR 0x27]
                     @ ''main'' @ [CHR 0x27] @ ''.'')))
            (\<lambda>_. pure (if truthy (payload_default_branch env)
                         then the (payload_default_branch env) else ''main'')))"

text \<open>Lines 180 to 185: the tip of the default branch. A failure is not caught here.\<close>

definition run_getRef :: "Env \<Rightarrow> string \<Rightarrow> string step" where
  "run_getRef env branch =
     call (git_getRef (remote env))
       (GitGetRef (context_owner env) (context_repo env) (''heads/'' @ branch))"

definition run_setup :: "Env \<Rightarrow> Ctx step" where
  "run_setup env =
     andThen (run_inputs env) (\<lambda>i.
     andThen (run_render env i) (\<lambda>r.
     andThen (run_document env i r) (\<lambda>c.
     andThen (run_token env) (\<lambda>_.
     andThen (run_defaultBranch env) (\<lambda>d.
     andThen (run_getRef env d) (\<lambda>sha.
       pure \<lparr>inputs = i, rendered = r, newContent = c, defaultBranch = d, tipSha = sha\<rparr>))))))"

text \<open>
  Lines 187 to 235: the working branch is created or updated. The three API calls of this
  step, as the source writes them:
\<close>

definition createRefCall :: "Env \<Rightarrow> Ctx \<Rightarrow> api_call" where
  "createRefCall env ctx =
     GitCreateRef (context_owner env) (context_repo env)
       (''refs/heads/'' @ prBranch (inputs ctx)) (tipSha ctx)"

definition updateRefCall :: "Env \<Rightarrow> Ctx \<Rightarrow> api_call" where
  "updateRefCall env ctx =
     GitUpdateRef (context_owner env) (context_repo env)
       (''heads/'' @ prBranch (inputs ctx)) (tipSha ctx) False"

definition deleteRefCall :: "Env \<Rightarrow> Ctx \<Rightarrow> api_call" where
  "deleteRefCall env ctx =
     GitDeleteRef (context_owner env) (context_repo env) (''heads/'' @ prBranch (inputs ctx))"

definition recreateFailure :: "Ctx \<Rightarrow> thrown \<Rightarrow> string" where
  "recreateFailure ctx recreateErr =
     ''Branch '' @ prBranch (inputs ctx) @ '' has diverged and could not be recreated: ''
       @ errorMessage recreateErr @ ''. ''
       @ ''Please manually delete the branch and re-run the action.''"

definition divergedWarnings :: "Ctx \<Rightarrow> thrown \<Rightarrow> event list" where
  "divergedWarnings ctx err =
     [Warning (''Branch '' @ prBranch (inputs ctx) @ '' has diverged from ''
                 @ defaultBranch ctx @ '': '' @ errorMessage err),
      Warning ''Deleting and recreating branch to avoid destroying manual commits.'']"

definition run_branch :: "Env \<Rightarrow> Ctx \<Rightarrow> unit step" where
  "run_branch env ctx =
     tryCatch
       (andThen (call (git_createRef (remote env)) (createRefCall env ctx)) (\<lambda>_.
          emit (Info (''Created branch '' @ prBranch (inputs ctx)))))
       (\<lambda>_.
          tryCatch
            (andThen (call (git_updateRef (remote env)) (updateRefCall env ctx)) (\<lambda>_.
               emit (Info (''Updated branch '' @ prBranch (inputs ctx)))))
            (\<lambda>err.
               andThen (emitAll (divergedWarnings ctx err))
               (\<lambda>_.
                  tryCatch
                    (andThen (call (git_deleteRef (remote env)) (deleteRefCall env ctx)) (\<lambda>_.
                     andThen (call (git_createRef (remote env)) (createRefCall env ctx)) (\<lambda>_.
                       emit (Info (''Recreated branch '' @ prBranch (inputs ctx) @ '' from ''
                                     @ defaultBranch ctx)))))
                    (\<lambda>recreateErr. failWith (recreateFailure ctx recreateErr)))))"

text \<open>
  Lines 237 to 251, and again lines 268 to 281: the revision marker of the file on the
  working branch, \<open>undefined\<close> when the call fails or the answer is not a file.
\<close>

definition getContentCall :: "Env \<Rightarrow> Ctx \<Rightarrow> api_call" where
  "getContentCall env ctx =
     ReposGetContent (context_owner env) (context_repo env)
       (readmePath (inputs ctx)) (prBranch (inputs ctx))"

fun shaOfFileData :: "FileData \<Rightarrow> string option" where
  "shaOfFileData Listing = None"
| "shaOfFileData (Entry type sha) = (if type = ''file'' then Some sha else None)"

definition run_fileSha :: "Env \<Rightarrow> Ctx \<Rightarrow> string option step" where
  "run_fileSha env ctx =
     tryCatch
       (andThen (call (repos_getContent (remote env)) (getContentCall env ctx)) (\<lambda>fileData.
          pure (shaOfFileData fileData)))
       (\<lambda>_. pure None)"

text \<open>Lines 253 to 293: the commit, with its single retry.\<close>

definition commitCall :: "Env \<Rightarrow> Ctx \<Rightarrow> string option \<Rightarrow> api_call" where
  "commitCall env ctx sha =
     ReposCreateOrUpdateFileContents (context_owner env) (context_repo env)
       (readmePath (inputs ctx)) (prTitle (inputs ctx)) (toBase64 (newContent ctx)) sha
       (prBranch (inputs ctx))"

definition run_commit :: "Env \<Rightarrow> Ctx \<Rightarrow> string option \<Rightarrow> unit step" where
  "run_commit env ctx fileSha =
     andThen
       (tryCatch
          (call (repos_createOrUpdateFileContents (remote env)) (commitCall env ctx fileSha))
          (\<lambda>firstErr.
             andThen (emit (Warning (''File content update failed, retrying once: ''
                        @ errorMessage firstErr))) (\<lambda>_.
             andThen (run_fileSha env ctx) (\<lambda>retrySha.
               call (repos_createOrUpdateFileContents (remote env))
                 (commitCall env ctx retrySha)))))
       (\<lambda>_. emit (Info ''Committed badge updates.''))"

text \<open>Lines 295 to 348: the pull request is updated when one is open, created otherwise.\<close>

definition productList :: "Product list \<Rightarrow> string" where
  "productList ps =
     joinWith NL
       (map (\<lambda>p. ''- '' @ product p @ (if truthy (version p) then '':'' @ the (version p) else []))
            ps)"

definition prBody :: "Ctx \<Rightarrow> string" where
  "prBody ctx =
     ''## Version Health Badges Update'' @ NL @ NL
     @ ''This PR updates version health badges in `'' @ readmePath (inputs ctx) @ ''`.'' @ NL @ NL
     @ ''### Products tracked'' @ NL
     @ productList (parsedProducts (rendered ctx)) @ NL @ NL
     @ ''### Badge types'' @ NL
     @ joinWith '', '' (map badgeTypeString (badgeTypes (rendered ctx))) @ NL @ NL
     @ ''---'' @ NL
     @ ''Powered by [ReleaseRun](https://releaserun.com) | [Badge Documentation](https://releaserun.com/badges/)''"

definition run_pr :: "Env \<Rightarrow> Ctx \<Rightarrow> unit step" where
  "run_pr env ctx =
     tryCatch
       (andThen (call (pulls_list (remote env))
                   (PullsList (context_owner env) (context_repo env)
                      (context_owner env @ '':'' @ prBranch (inputs ctx)) ''open''))
          (\<lambda>existingPRs.
             case existingPRs of
               pr # _ \<Rightarrow>
                 andThen (call (pulls_update (remote env))
                            (PullsUpdate (context_owner env) (context_repo env) (number pr)
                               (prTitle (inputs ctx)) (prBody ctx))) (\<lambda>_.
                   emitAll [Info (''Updated existing PR #'' @ showNat (number pr)),
                            SetOutput ''pr-number'' (showNat (number pr)),
                            SetOutput ''pr-url'' (html_url pr)])
             | [] \<Rightarrow>
                 andThen (call (pulls_create (remote env))
                            (PullsCreate (context_owner env) (context_repo env)
                               (prTitle (inputs ctx)) (prBody ctx) (prBranch (inputs ctx))
                               (defaultBranch ctx))) (\<lambda>pr.
                   emitAll [Info (''Created PR #'' @ showNat (number pr) @ '': '' @ html_url pr),
                            SetOutput ''pr-number'' (showNat (number pr)),
                            SetOutput ''pr-url'' (html_url pr)])))
       (\<lambda>err. failWith (''Failed to create/update PR: '' @ errorMessage err
                  @ ''. Badge changes were committed to '' @ prBranch (inputs ctx)
                  @ '' but PR could not be created.''))"

definition run_body :: "Env \<Rightarrow> unit step" where
  "run_body env =
     andThen (run_setup env) (\<lambda>ctx.
     andThen (run_branch env ctx) (\<lambda>_.
     andThen (run_fileSha env ctx) (\<lambda>fileSha.
     andThen (run_commit env ctx fileSha) (\<lambda>_.
       run_pr env ctx))))"

text \<open>
  Lines 349 to 355: whatever is thrown out of the body is reported by \<open>setFailed\<close>, with
  its message when it is an \<open>Error\<close>.
\<close>

fun unexpected :: "thrown \<Rightarrow> string" where
  "unexpected (Error m) = m"
| "unexpected (NonError _) = ''An unexpected error occurred''"

definition run :: "Env \<Rightarrow> event list" where
  "run env =
     (case run_body env [] of
        (Throw error, log) \<Rightarrow> log @ [SetFailed (unexpected error)]
      | (_, log) \<Rightarrow> log)"

section \<open>A concrete environment\<close>

text \<open>
  \<open>path.resolve\<close> with one argument on a POSIX system: a relative path is taken from the
  working directory, empty and \<open>.\<close> segments are dropped, \<open>..\<close> removes the segment before
  it, and the result has no trailing slash.
\<close>

fun normalizeSegments :: "string list \<Rightarrow> string list \<Rightarrow> string list" where
  "normalizeSegments acc [] = rev acc"
| "normalizeSegments acc (seg # segs) =
     (if seg = [] \<or> seg = ''.'' then normalizeSegments acc segs
      else if seg = ''..'' then normalizeSegments (tl acc) segs
      else normalizeSegments (seg # acc) segs)"

definition posixResolve :: "string \<Rightarrow> string \<Rightarrow> string" where
  "posixResolve dir p =
     (let full = (if startsWith p ''/'' then p else dir @ ''/'' @ p)
      in ''/'' @ joinWith ''/'' (normalizeSegments [] (splitOn (CHR ''/'') full)))"

text \<open>
  A path lies inside a directory when it is the directory or continues it after a slash; both
  are absolute and normalized, and the directory is not the root.
\<close>

definition insideDirectory :: "string \<Rightarrow> string \<Rightarrow> bool" where
  "insideDirectory dir p = (p = dir \<or> startsWith p (dir @ ''/''))"

text \<open>
  The environment of the repository's test-suite: the workspace is \<open>/workspace\<close>, the
  repository is \<open>test-owner/test-repo\<close>, the file system returns a given document and
  accepts every write, and the inputs are a given table. \<open>testRemote\<close> is the remote of
  the test-suite in which every call succeeds.
\<close>

definition testRemote :: Remote where
  "testRemote =
     \<lparr>repos_get = (\<lambda>_. Inr ''main''),
      git_getRef = (\<lambda>_. Inr ''abc123''),
      git_createRef = (\<lambda>_. Inr ()),
      git_updateRef = (\<lambda>_. Inr ()),
      git_deleteRef = (\<lambda>_. Inr ()),
      repos_getContent = (\<lambda>_. Inr (Entry ''file'' ''file-sha-123'')),
      repos_createOrUpdateFileContents = (\<lambda>_. Inr ()),
      pulls_list = (\<lambda>_. Inr []),
      pulls_update = (\<lambda>_. Inr ()),
      pulls_create = (\<lambda>_. Inr \<lparr>number = 42, html_url = ''https://github.com/test/pr/42''\<rparr>)\<rparr>"

definition testEnv :: "(string \<times> string) list \<Rightarrow> string \<Rightarrow> Remote \<Rightarrow> Env" where
  "testEnv table doc r =
     \<lparr>rawInput = (\<lambda>name. case map_of table name of None \<Rightarrow> [] | Some v \<Rightarrow> v),
      GITHUB_WORKSPACE = Some ''/workspace'',
      GITHUB_TOKEN = None,
      cwd = ''/workspace'',
      pathResolve = posixResolve ''/workspace'',
      parseURL = testParseURL,
      readFileSync = (\<lambda>_. Inr doc),
      writeFileSync = (\<lambda>_ _. Inr ()),
      context_owner = ''test-owner'',
      context_repo = ''test-repo'',
      payload_default_branch = Some ''main'',
      remote = r\<rparr>"

definition testInputs :: "(string \<times> string) list" where
  "testInputs =
     [(''products'', ''python:3.12''),
      (''readme-path'', ''/workspace/README.md''),
      (''github-token'', ''fake-token'')]"

definition README_WITH_MARKERS :: string where
  "README_WITH_MARKERS =
     ''# Project'' @ NL @ ''<!-- releaserun-badges-start -->'' @ NL @ ''old badges'' @ NL
       @ ''<!-- releaserun-badges-end -->'' @ NL @ ''Footer''"

definition README_UP_TO_DATE :: string where
  "README_UP_TO_DATE =
     ''# Project'' @ NL @ ''<!-- releaserun-badges-start -->'' @ NL
       @ ''[![python 3.12 health](https://img.releaserun.com/badge/health/python/3.12.svg)](https://releaserun.com/badges/python/)''
       @ NL @ ''<!-- releaserun-badges-end -->''"

section \<open>Reading a log\<close>

text \<open>
  Two kinds of API call: a commit of file content, and the creation or update of a pull
  request.
\<close>

fun commitOf :: "api_call \<Rightarrow> bool" where
  "commitOf (ReposCreateOrUpdateFileContents _ _ _ _ _ _ _) = True"
| "commitOf _ = False"

fun pullRequestWrite :: "api_call \<Rightarrow> bool" where
  "pullRequestWrite (PullsUpdate _ _ _ _ _) = True"
| "pullRequestWrite (PullsCreate _ _ _ _ _ _) = True"
| "pullRequestWrite _ = False"

text \<open>
  A step only appends to the log; \<open>adds P m\<close> says moreover that every event the step
  \<open>m\<close> appends satisfies \<open>P\<close>.
\<close>

definition adds :: "(event \<Rightarrow> bool) \<Rightarrow> 'a step \<Rightarrow> bool" where
  "adds P m = (\<forall>log. \<exists>es. snd (m log) = log @ es \<and> list_all P es)"

fun isNext :: "'a flow \<Rightarrow> bool" where
  "isNext (Next _) = True"
| "isNext _ = False"

text \<open>
  The remote of the test \<open>deletes and recreates branch when diverged\<close>: the first
  \<open>createRef\<close>, which is the third API call of the run, is rejected, and so is every
  \<open>updateRef\<close>. In \<open>protectedRemote\<close>, from the test
  \<open>fails gracefully when branch recreation fails\<close>, every \<open>createRef\<close>, \<open>updateRef\<close>
  and \<open>deleteRef\<close> is rejected. In \<open>failingCommitRemote\<close> every commit of file content
  is rejected.
\<close>

definition divergedRemote :: Remote where
  "divergedRemote =
     testRemote
       \<lparr>git_createRef :=
          (\<lambda>h. if length h = 3 then Inl (Error ''Reference already exists'') else Inr ()),
        git_updateRef := (\<lambda>_. Inl (Error ''Update is not a fast forward''))\<rparr>"

definition protectedRemote :: Remote where
  "protectedRemote =
     testRemote
       \<lparr>git_createRef := (\<lambda>_. Inl (Error ''Reference already exists'')),
        git_updateRef := (\<lambda>_. Inl (Error ''Not fast forward'')),
        git_deleteRef := (\<lambda>_. Inl (Error ''Protected branch''))\<rparr>"

definition failingCommitRemote :: Remote where
  "failingCommitRemote =
     testRemote\<lparr>repos_createOrUpdateFileContents := (\<lambda>_. Inl (Error ''Server Error''))\<rparr>"

text \<open>
  In \<open>recreateFailRemote\<close> every \<open>createRef\<close> and every \<open>updateRef\<close> is rejected
  and \<open>deleteRef\<close> succeeds, so the branch is deleted and cannot be created again.
\<close>

definition recreateFailRemote :: Remote where
  "recreateFailRemote =
     testRemote
       \<lparr>git_createRef := (\<lambda>_. Inl (Error ''Reference already exists'')),
        git_updateRef := (\<lambda>_. Inl (Error ''Not fast forward''))\<rparr>"

text \<open>
  The revision marker read from the answer to the \<open>getContent\<close> call that ends the
  history \<open>h\<close>.
\<close>

definition fetchedSha :: "Env \<Rightarrow> api_call list \<Rightarrow> string option" where
  "fetchedSha env h =
     (case repos_getContent (remote env) h of Inl _ \<Rightarrow> None | Inr fileData \<Rightarrow> shaOfFileData fileData)"

section \<open>Properties of the string primitives\<close>

text \<open>\<open>indexOf\<close> returns the first position at which the pattern occurs.\<close>

lemma indexOfFrom_Some:
  "indexOfFrom pat s i = Some k \<Longrightarrow>
     i \<le> k \<and> k - i \<le> length s \<and> take (length pat) (drop (k - i) s) = pat
     \<and> (\<forall>j<k - i. take (length pat) (drop j s) \<noteq> pat)"
proof (induction s arbitrary: i)
  case Nil
  then show ?case by (auto split: if_splits)
next
  case (Cons c s)
  show ?case
  proof (cases "take (length pat) (c # s) = pat")
    case True
    with Cons.prems show ?thesis by simp
  next
    case False
    with Cons.prems have r: "indexOfFrom pat s (Suc i) = Some k" by simp
    from Cons.IH[OF r] have a: "Suc i \<le> k" "k - Suc i \<le> length s"
      "take (length pat) (drop (k - Suc i) s) = pat"
      "\<forall>j<k - Suc i. take (length pat) (drop j s) \<noteq> pat" by auto
    from a(1) have e: "k - i = Suc (k - Suc i)" by arith
    have "\<forall>j<k - i. take (length pat) (drop j (c # s)) \<noteq> pat"
    proof (intro allI impI)
      fix j assume j: "j < k - i"
      show "take (length pat) (drop j (c # s)) \<noteq> pat"
      proof (cases j)
        case 0 with False show ?thesis by simp
      next
        case (Suc j')
        with j e have "j' < k - Suc i" by arith
        with a(4) Suc show ?thesis by simp
      qed
    qed
    with a e show ?thesis by simp
  qed
qed

lemma indexOfFrom_None:
  "indexOfFrom pat s i = None \<Longrightarrow> j \<le> length s \<Longrightarrow> take (length pat) (drop j s) \<noteq> pat"
proof (induction s arbitrary: i j)
  case Nil
  then show ?case by (auto split: if_splits)
next
  case (Cons c s)
  from Cons.prems(1) have f: "take (length pat) (c # s) \<noteq> pat"
    and r: "indexOfFrom pat s (Suc i) = None" by (auto split: if_splits)
  show ?case
  proof (cases j)
    case 0 with f show ?thesis by simp
  next
    case (Suc j')
    with Cons.prems(2) have "j' \<le> length s" by simp
    from Cons.IH[OF r this] Suc show ?thesis by simp
  qed
qed

lemma indexOf_Some:
  "indexOf s pat = Some k \<Longrightarrow>
     k \<le> length s \<and> take (length pat) (drop k s) = pat
     \<and> (\<forall>j<k. take (length pat) (drop j s) \<noteq> pat)"
  unfolding indexOf_def using indexOfFrom_Some[of pat s 0 k] by simp

lemma indexOf_None:
  "indexOf s pat = None \<Longrightarrow> j \<le> length s \<Longrightarrow> take (length pat) (drop j s) \<noteq> pat"
  unfolding indexOf_def by (rule indexOfFrom_None)

lemma occurs_decompose:
  assumes "take (length pat) (drop k s) = pat"
  shows "s = take k s @ pat @ drop (k + length pat) s"
proof -
  have "drop k s = take (length pat) (drop k s) @ drop (length pat) (drop k s)"
    by (simp only: append_take_drop_id)
  also have "drop (length pat) (drop k s) = drop (k + length pat) s"
    by (simp add: add.commute)
  finally have "drop k s = pat @ drop (k + length pat) s"
    using assms by simp
  then have "take k s @ drop k s = take k s @ pat @ drop (k + length pat) s" by simp
  then show ?thesis by simp
qed

lemma START_tail_no_lt: "CHR ''<'' \<notin> set (tl START_MARKER)"
  by (simp add: START_MARKER_def)

lemma START_no_inner_lt:
  assumes "0 < k" "k < length START_MARKER"
  shows "START_MARKER ! k \<noteq> CHR ''<''"
proof -
  from assms have "START_MARKER ! k = tl START_MARKER ! (k - 1)"
    by (cases k) (auto simp: START_MARKER_def)
  moreover from assms have "k - 1 < length (tl START_MARKER)" by simp
  ultimately have "START_MARKER ! k \<in> set (tl START_MARKER)"
    by (metis nth_mem)
  with START_tail_no_lt show ?thesis by auto
qed


lemma len_START: "length START_MARKER = 32" by (simp add: START_MARKER_def)
lemma len_END: "length END_MARKER = 30" by (simp add: END_MARKER_def)
lemma hd_END: "hd END_MARKER = CHR ''<''" by (simp add: END_MARKER_def)
lemma END_not_prefix_START: "take 30 START_MARKER \<noteq> END_MARKER"
  by (simp add: START_MARKER_def END_MARKER_def)


text \<open>The end marker cannot begin inside an occurrence of the start marker.\<close>

lemma markers_apart:
  assumes s: "take (length START_MARKER) (drop s r) = START_MARKER"
      and e: "take (length END_MARKER) (drop e r) = END_MARKER"
      and le: "s \<le> e"
  shows "s + length START_MARKER \<le> e"
proof (rule ccontr)
  assume "\<not> s + length START_MARKER \<le> e"
  then have lt: "e - s < length START_MARKER" using le by arith
  have "length (take (length START_MARKER) (drop s r)) = length START_MARKER"
    using s by simp
  then have "length START_MARKER \<le> length (drop s r)" by simp
  then have elen: "e < length r" using lt le by simp
  have "START_MARKER ! (e - s) = take (length START_MARKER) (drop s r) ! (e - s)"
    using s by simp
  also have "\<dots> = drop s r ! (e - s)" using lt by simp
  also have "\<dots> = r ! e" using le elen by simp
  finally have c1: "START_MARKER ! (e - s) = r ! e" .
  have "drop e r \<noteq> []" using elen by simp
  then have "hd (take (length END_MARKER) (drop e r)) = r ! e"
    using elen by (simp add: len_END hd_drop_conv_nth)
  then have c: "START_MARKER ! (e - s) = CHR ''<''"
    using c1 e hd_END by simp
  show False
  proof (cases "e = s")
    case True
    have "take 30 (take 32 (drop s r)) = take 30 (drop s r)" by simp
    with s e True have "take 30 START_MARKER = END_MARKER"
      by (simp only: len_START len_END)
    with END_not_prefix_START show False by simp
  next
    case False
    with le have "0 < e - s" by simp
    from START_no_inner_lt[OF this lt] c show False by simp
  qed
qed


lemma updateReadmeContent_absent:
  assumes "indexOf readme START_MARKER = None \<or> indexOf readme END_MARKER = None
     \<or> (\<exists>s e. indexOf readme START_MARKER = Some s \<and> indexOf readme END_MARKER = Some e
            \<and> e \<le> s)"
  shows "updateReadmeContent readme badges
           = \<lparr>updated = False, content = readme, markersFound = False\<rparr>"
proof -
  { fix s e
    assume s: "indexOf readme START_MARKER = Some s"
       and e: "indexOf readme END_MARKER = Some e" and le: "e \<le> s"
    have "e < s"
    proof (rule ccontr)
      assume "\<not> e < s"
      with le have "s \<le> e" by simp
      from markers_apart[OF _ _ this, of readme] indexOf_Some[OF s] indexOf_Some[OF e]
      have "s + length START_MARKER \<le> e" by simp
      with le show False by (simp add: len_START)
    qed
    with s e have ?thesis by (simp add: updateReadmeContent_def) }
  with assms show ?thesis
    by (auto simp: updateReadmeContent_def split: option.splits)
qed

lemma updateReadmeContent_present:
  assumes s: "indexOf readme START_MARKER = Some s"
      and e: "indexOf readme END_MARKER = Some e" and lt: "s < e"
  shows "\<exists>pre mid post.
           readme = pre @ START_MARKER @ mid @ END_MARKER @ post
           \<and> length pre = s \<and> length (pre @ START_MARKER @ mid) = e
           \<and> content (updateReadmeContent readme badges)
               = pre @ START_MARKER @ NL @ badges @ NL @ END_MARKER @ post
           \<and> markersFound (updateReadmeContent readme badges)
           \<and> updated (updateReadmeContent readme badges)
               = (content (updateReadmeContent readme badges) \<noteq> readme)"
proof -
  from indexOf_Some[OF s] have sl: "s \<le> length readme"
    and so: "take (length START_MARKER) (drop s readme) = START_MARKER" by auto
  from indexOf_Some[OF e] have el: "e \<le> length readme"
    and eo: "take (length END_MARKER) (drop e readme) = END_MARKER" by auto
  from lt have "s \<le> e" by simp
  from markers_apart[OF so eo this] have ap: "s + length START_MARKER \<le> e" .
  define pre where "pre = take s readme"
  define mid where "mid = take (e - (s + length START_MARKER)) (drop (s + length START_MARKER) readme)"
  define post where "post = drop (e + length END_MARKER) readme"
  have d1: "readme = pre @ START_MARKER @ drop (s + length START_MARKER) readme"
    unfolding pre_def by (rule occurs_decompose[OF so])
  have d2: "readme = take e readme @ END_MARKER @ post"
    unfolding post_def by (rule occurs_decompose[OF eo])
  have lp: "length pre = s" using sl by (simp add: pre_def)
  have te: "take e readme = pre @ START_MARKER @ mid"
  proof -
    have "take e readme = take e (pre @ START_MARKER @ drop (s + length START_MARKER) readme)"
      using d1 by simp
    also have "\<dots> = pre @ START_MARKER @ mid"
      using ap lp by (simp add: mid_def)
    finally show ?thesis .
  qed
  have full: "readme = pre @ START_MARKER @ mid @ END_MARKER @ post"
    using d2 te by simp
  have le: "length (pre @ START_MARKER @ mid) = e"
    using te el by (metis length_take min.absorb2)
  have before: "substring readme 0 (s + length START_MARKER) = pre @ START_MARKER"
  proof -
    have "s + length START_MARKER \<le> length readme" using ap el by simp
    then have "substring readme 0 (s + length START_MARKER) = take (s + length START_MARKER) readme"
      by (simp add: substring_def Let_def)
    also have "\<dots> = take (s + length START_MARKER) (take e readme)"
      using ap by (simp add: min.absorb1)
    also have "\<dots> = pre @ START_MARKER" using lp by (simp add: te)
    finally show ?thesis .
  qed
  have after: "substringFrom readme e = END_MARKER @ post"
  proof -
    have "drop e readme = drop e (take e readme @ END_MARKER @ post)" using d2 by simp
    also have "\<dots> = END_MARKER @ post" using el by simp
    finally show ?thesis by (simp add: substringFrom_def)
  qed
  have c: "content (updateReadmeContent readme badges)
             = pre @ START_MARKER @ NL @ badges @ NL @ END_MARKER @ post"
    using s e lt before after by (simp add: updateReadmeContent_def Let_def)
  have m: "markersFound (updateReadmeContent readme badges)"
    using s e lt by (simp add: updateReadmeContent_def Let_def)
  have u: "updated (updateReadmeContent readme badges)
             = (content (updateReadmeContent readme badges) \<noteq> readme)"
    using s e lt by (simp add: updateReadmeContent_def Let_def)
  from full lp le c m u show ?thesis by blast
qed

section \<open>The document splicer\<close>

text \<open>
  Claim C7. For every document and markup: when a sentinel is absent, or the end sentinel is
  found at or before the start sentinel, \<open>updateReadmeContent\<close> returns the document
  unchanged with \<open>markersFound = false\<close> and \<open>updated = false\<close>. When both are found in
  order, the document is \<open>pre\<close>, start sentinel, \<open>mid\<close>, end sentinel, \<open>post\<close>, and the
  result is \<open>pre\<close>, start sentinel, newline, markup, newline, end sentinel, \<open>post\<close>: what
  precedes the start sentinel and what follows the end sentinel is kept as it is,
  \<open>markersFound = true\<close>, and \<open>updated\<close> holds exactly when the new content differs from
  the document. The positions are those \<open>indexOf\<close> returns, the first occurrences.
\<close>

theorem updateReadmeContent_splice:
  "((indexOf readme START_MARKER = None \<or> indexOf readme END_MARKER = None
       \<or> (\<exists>s e. indexOf readme START_MARKER = Some s \<and> indexOf readme END_MARKER = Some e
              \<and> e \<le> s))
     \<longrightarrow> updateReadmeContent readme badges
           = \<lparr>updated = False, content = readme, markersFound = False\<rparr>)
   \<and> (indexOf readme START_MARKER = Some s \<and> indexOf readme END_MARKER = Some e \<and> s < e
     \<longrightarrow> (\<exists>pre mid post.
           readme = pre @ START_MARKER @ mid @ END_MARKER @ post
           \<and> length pre = s \<and> length (pre @ START_MARKER @ mid) = e
           \<and> content (updateReadmeContent readme badges)
               = pre @ START_MARKER @ NL @ badges @ NL @ END_MARKER @ post
           \<and> markersFound (updateReadmeContent readme badges)
           \<and> updated (updateReadmeContent readme badges)
               = (content (updateReadmeContent readme badges) \<noteq> readme)))"
  using updateReadmeContent_absent[of readme badges]
        updateReadmeContent_present[of readme s e badges]
  by blast

theorem updateReadmeContent_splice_witness:
  "indexOf ''no markers'' START_MARKER = None
   \<and> updateReadmeContent ''no markers'' ''B''
       = \<lparr>updated = False, content = ''no markers'', markersFound = False\<rparr>
   \<and> indexOf ''a<!-- releaserun-badges-start -->old<!-- releaserun-badges-end -->b''
         START_MARKER = Some 1
   \<and> indexOf ''a<!-- releaserun-badges-start -->old<!-- releaserun-badges-end -->b''
         END_MARKER = Some 36
   \<and> markersFound (updateReadmeContent
         ''a<!-- releaserun-badges-start -->old<!-- releaserun-badges-end -->b'' ''B'')
   \<and> updated (updateReadmeContent
         ''a<!-- releaserun-badges-start -->old<!-- releaserun-badges-end -->b'' ''B'')"
proof -
  let ?r = "''a<!-- releaserun-badges-start -->old<!-- releaserun-badges-end -->b''"
  have n: "indexOf ''no markers'' START_MARKER = None"
    by (simp add: indexOf_def START_MARKER_def)
  have s: "indexOf ?r START_MARKER = Some 1"
    by (simp add: indexOf_def START_MARKER_def)
  have e: "indexOf ?r END_MARKER = Some 36"
    by (simp add: indexOf_def END_MARKER_def)
  from updateReadmeContent_splice[of "''no markers''" "''B''"] n
  have a: "updateReadmeContent ''no markers'' ''B''
       = \<lparr>updated = False, content = ''no markers'', markersFound = False\<rparr>" by blast
  have lt: "(1::nat) < 36" by simp
  from updateReadmeContent_splice[of ?r "''B''" 1 36] s e lt
  have "\<exists>pre mid post.
           ?r = pre @ START_MARKER @ mid @ END_MARKER @ post
           \<and> length pre = 1 \<and> length (pre @ START_MARKER @ mid) = 36
           \<and> content (updateReadmeContent ?r ''B'')
               = pre @ START_MARKER @ NL @ ''B'' @ NL @ END_MARKER @ post
           \<and> markersFound (updateReadmeContent ?r ''B'')
           \<and> updated (updateReadmeContent ?r ''B'')
               = (content (updateReadmeContent ?r ''B'') \<noteq> ?r)"
    by blast
  then have m: "markersFound (updateReadmeContent ?r ''B'')"
    and u: "updated (updateReadmeContent ?r ''B'') = (content (updateReadmeContent ?r ''B'') \<noteq> ?r)"
    by blast+
  have "content (updateReadmeContent ?r ''B'') \<noteq> ?r"
    using s e by (simp add: updateReadmeContent_def substring_def substringFrom_def START_MARKER_def)
  with u have "updated (updateReadmeContent ?r ''B'')" by simp
  with n a s e m show ?thesis by simp
qed

section \<open>The validator\<close>

lemma wordChar_range: "wordChar c \<Longrightarrow> 45 \<le> (of_char c :: nat) \<and> (of_char c :: nat) \<le> 122"
  by (auto simp: wordChar_def isLower_def isUpper_def isDigit_def isPunct_def less_eq_char_def)

lemma leading_None:
  assumes "s \<noteq> []" and "\<forall>w\<in>set ws. w \<noteq> [] \<and> hd w \<noteq> hd s"
  shows "leading ws s = None"
proof -
  { fix w assume w: "w \<in> set ws" and t: "take (length w) s = w"
    from assms w have ne: "w \<noteq> []" and h: "hd w \<noteq> hd s" by auto
    from ne assms(1) have "hd (take (length w) s) = hd s" by (cases w; cases s) auto
    with t h have False by simp }
  then show ?thesis by (auto simp: leading_def find_None_iff)
qed

lemma stripLeading_id: "leading ws s = None \<Longrightarrow> stripLeading ws s = s"
  by (simp add: stripLeading.simps)

lemma whiteSpace_heads:
  assumes "33 \<le> (of_char c :: nat)" "(of_char c :: nat) \<le> 126"
  shows "\<forall>w\<in>set whiteSpace. w \<noteq> [] \<and> hd w \<noteq> c"
proof -
  have "c \<notin> {CHR 0x09, CHR 0x0A, CHR 0x0B, CHR 0x0C, CHR 0x0D, CHR 0x20, CHR 0xC2, CHR 0xE1,
              CHR 0xE2, CHR 0xE3, CHR 0xEF}"
    using assms by auto
  then show ?thesis by (auto simp: whiteSpace_def)
qed

lemma whiteSpace_lasts:
  assumes "33 \<le> (of_char c :: nat)" "(of_char c :: nat) \<le> 126"
  shows "\<forall>w\<in>set (map rev whiteSpace). w \<noteq> [] \<and> hd w \<noteq> c"
proof -
  have "c \<notin> {CHR 0x09, CHR 0x0A, CHR 0x0B, CHR 0x0C, CHR 0x0D, CHR 0x20, CHR 0xA0, CHR 0x80,
              CHR 0x81, CHR 0x82, CHR 0x83, CHR 0x84, CHR 0x85, CHR 0x86, CHR 0x87, CHR 0x88,
              CHR 0x89, CHR 0x8A, CHR 0xA8, CHR 0xA9, CHR 0xAF, CHR 0x9F, CHR 0xBF}"
    using assms by auto
  then show ?thesis by (auto simp: whiteSpace_def)
qed

text \<open>A string that begins and ends with a visible ASCII character is its own trim.\<close>

lemma trim_id:
  assumes "s \<noteq> []"
    and "33 \<le> (of_char (hd s) :: nat)" "(of_char (hd s) :: nat) \<le> 126"
    and "33 \<le> (of_char (last s) :: nat)" "(of_char (last s) :: nat) \<le> 126"
  shows "trim s = s"
proof -
  have a: "trimStart s = s"
    unfolding trimStart_def
    by (rule stripLeading_id, rule leading_None[OF assms(1)], rule whiteSpace_heads[OF assms(2,3)])
  have "rev s \<noteq> []" using assms(1) by simp
  moreover have "hd (rev s) = last s" using assms(1) by (simp add: hd_rev)
  ultimately have "leading (map rev whiteSpace) (rev s) = None"
    using whiteSpace_lasts[OF assms(4,5)] by (intro leading_None) auto
  then have "trimEnd s = s" by (simp add: trimEnd_def stripLeading_id)
  with a show ?thesis by (simp add: trim_def)
qed

lemma PRODUCT_PATTERN_chars:
  "PRODUCT_PATTERN n \<Longrightarrow> n \<noteq> [] \<and> (\<forall>c\<in>set n. wordChar c)"
  by (cases n) (auto simp: wordChar_def list_all_iff)

lemma VERSION_PATTERN_chars:
  "VERSION_PATTERN v \<Longrightarrow> v \<noteq> [] \<and> (\<forall>c\<in>set v. wordChar c)"
  by (cases v) (auto simp: wordChar_def list_all_iff)

lemma latest_chars: "\<forall>c\<in>set ''latest''. wordChar c"
  by (simp add: wordChar_def isLower_def less_eq_char_def)

lemma validateProduct_chars:
  "validateProduct n \<Longrightarrow> n \<noteq> [] \<and> (\<forall>c\<in>set n. wordChar c)"
  unfolding validateProduct_def by (rule PRODUCT_PATTERN_chars)

lemma validateVersion_chars:
  "validateVersion v \<Longrightarrow> v \<noteq> [] \<and> (\<forall>c\<in>set v. wordChar c)"
  unfolding validateVersion_def using VERSION_PATTERN_chars[of v] latest_chars by auto

lemma wordChar_not_colon: "wordChar c \<Longrightarrow> c \<noteq> CHR '':''"
  by (auto simp: wordChar_def isLower_def isUpper_def isDigit_def isPunct_def less_eq_char_def)

lemma wordChar_not_newline: "wordChar c \<Longrightarrow> c \<noteq> CHR 0x0A"
  using wordChar_range[of c] by auto

lemma indexOfFrom_char_absent: "c \<notin> set s \<Longrightarrow> indexOfFrom [c] s i = None"
  by (induction s arbitrary: i) auto

lemma indexOfFrom_char_first:
  "c \<notin> set a \<Longrightarrow> indexOfFrom [c] (a @ c # r) i = Some (i + length a)"
  by (induction a arbitrary: i) auto

lemma indexOf_char_absent: "c \<notin> set s \<Longrightarrow> indexOf s [c] = None"
  by (simp add: indexOf_def indexOfFrom_char_absent)

lemma indexOf_char_first: "c \<notin> set a \<Longrightarrow> indexOf (a @ c # r) [c] = Some (length a)"
  by (simp add: indexOf_def indexOfFrom_char_first)

lemma splitOn_absent: "sep \<notin> set s \<Longrightarrow> splitOn sep s = [s]"
  by (induction s) auto

lemma splitOn_first: "sep \<notin> set a \<Longrightarrow> splitOn sep (a @ sep # r) = a # splitOn sep r"
  by (induction a) auto

lemma splitOn_joinWith:
  "ls \<noteq> [] \<Longrightarrow> \<forall>l\<in>set ls. sep \<notin> set l \<Longrightarrow> splitOn sep (joinWith [sep] ls) = ls"
proof (induction ls)
  case Nil then show ?case by simp
next
  case (Cons x xs)
  show ?case
  proof (cases xs)
    case Nil
    with Cons.prems show ?thesis by (simp add: splitOn_absent)
  next
    case (Cons y ys)
    with Cons.prems Cons.IH have "splitOn sep (joinWith [sep] xs) = xs" by simp
    moreover have "sep \<notin> set x" using Cons.prems by simp
    ultimately show ?thesis using Cons by (simp add: splitOn_first)
  qed
qed

text \<open>One turn of the loop on a well-formed line.\<close>

lemma validateLine_name:
  assumes "validateProduct n"
  shows "validateLine n = \<lparr>products = [\<lparr>product = n, version = None\<rparr>], warnings = []\<rparr>"
proof -
  from validateProduct_chars[OF assms] have "CHR '':'' \<notin> set n"
    using wordChar_not_colon by blast
  then have "indexOf n '':'' = None" by (rule indexOf_char_absent)
  with assms show ?thesis by (simp add: validateLine_def parseLine_def)
qed

lemma validateLine_name_colon:
  assumes "validateProduct n"
  shows "validateLine (n @ '':'') = \<lparr>products = [\<lparr>product = n, version = None\<rparr>], warnings = []\<rparr>"
proof -
  from validateProduct_chars[OF assms] have "CHR '':'' \<notin> set n"
    using wordChar_not_colon by blast
  then have "indexOf (n @ '':'') '':'' = Some (length n)"
    using indexOf_char_first[of "CHR '':''" n "[]"] by simp
  with assms show ?thesis
    by (simp add: validateLine_def parseLine_def substring_def substringFrom_def)
qed

lemma validateLine_name_version:
  assumes "validateProduct n" "validateVersion v"
  shows "validateLine (n @ '':'' @ v) = \<lparr>products = [\<lparr>product = n, version = Some v\<rparr>], warnings = []\<rparr>"
proof -
  from validateProduct_chars[OF assms(1)] have "CHR '':'' \<notin> set n"
    using wordChar_not_colon by blast
  then have "indexOf (n @ '':'' @ v) '':'' = Some (length n)"
    using indexOf_char_first[of "CHR '':''" n v] by simp
  moreover from validateVersion_chars[OF assms(2)] have "v \<noteq> []" by simp
  ultimately show ?thesis using assms
    by (simp add: validateLine_def parseLine_def substring_def substringFrom_def)
qed

lemma parseLine_validateLine:
  "parseLine l acc = \<lparr>products = products acc @ products (validateLine l),
                       warnings = warnings acc @ warnings (validateLine l)\<rparr>"
  by (simp add: validateLine_def parseLine_def Let_def split: option.splits prod.splits)

lemma foldl_parseLine:
  "foldl (\<lambda>acc line. parseLine line acc) acc ls
     = \<lparr>products = products acc @ concat (map (\<lambda>l. products (validateLine l)) ls),
        warnings = warnings acc @ concat (map (\<lambda>l. warnings (validateLine l)) ls)\<rparr>"
proof (induction ls arbitrary: acc)
  case Nil then show ?case by simp
next
  case (Cons l ls)
  show ?case by (simp add: Cons.IH) (simp add: parseLine_validateLine)
qed

lemma parseProducts_lines:
  "parseProducts input
     = \<lparr>products = concat (map (\<lambda>l. products (validateLine l)) (take MAX_PRODUCTS (nonBlankLines input))),
        warnings = (if length (nonBlankLines input) > MAX_PRODUCTS then [truncationWarning] else [])
                     @ concat (map (\<lambda>l. warnings (validateLine l)) (take MAX_PRODUCTS (nonBlankLines input)))\<rparr>"
  by (simp add: parseProducts_def Let_def foldl_parseLine)


lemma nonBlankLines_single:
  assumes "s \<noteq> []" "CHR 0x0A \<notin> set s"
    and "33 \<le> (of_char (hd s) :: nat)" "(of_char (hd s) :: nat) \<le> 126"
    and "33 \<le> (of_char (last s) :: nat)" "(of_char (last s) :: nat) \<le> 126"
  shows "nonBlankLines s = [s]"
  using assms by (simp add: nonBlankLines_def splitOn_absent trim_id)

lemma wordChar_visible: "wordChar c \<Longrightarrow> 33 \<le> (of_char c :: nat) \<and> (of_char c :: nat) \<le> 126"
  using wordChar_range[of c] by simp

lemma nonBlankLines_name:
  assumes "validateProduct n"
  shows "nonBlankLines n = [n]"
proof -
  from validateProduct_chars[OF assms] have ne: "n \<noteq> []" and w: "\<forall>c\<in>set n. wordChar c" by auto
  from ne w have "wordChar (hd n)" "wordChar (last n)" by auto
  moreover from w have "CHR 0x0A \<notin> set n" using wordChar_not_newline by blast
  ultimately show ?thesis using ne wordChar_visible by (intro nonBlankLines_single) auto
qed

lemma nonBlankLines_name_colon:
  assumes "validateProduct n"
  shows "nonBlankLines (n @ '':'') = [n @ '':'']"
proof -
  from validateProduct_chars[OF assms] have ne: "n \<noteq> []" and w: "\<forall>c\<in>set n. wordChar c" by auto
  from ne w have "wordChar (hd n)" by auto
  then have h: "33 \<le> (of_char (hd (n @ '':'')) :: nat)" "(of_char (hd (n @ '':'')) :: nat) \<le> 126"
    using ne wordChar_visible by auto
  from w have "CHR 0x0A \<notin> set (n @ '':'')" using wordChar_not_newline by auto
  with h show ?thesis by (intro nonBlankLines_single) auto
qed

lemma validateProduct_python: "validateProduct ''python''"
  by (simp add: validateProduct_def isLower_def isDigit_def isPunct_def less_eq_char_def)

text \<open>
  Claim C10. For every valid product name, the line made of the name and a colon, with an
  empty version, is accepted by \<open>parseProducts\<close> without a warning and gives one product
  with no version: the same result as the line made of the name alone.
\<close>

theorem parseProducts_empty_version:
  assumes "validateProduct name"
  shows "parseProducts (name @ '':'')
           = \<lparr>products = [\<lparr>product = name, version = None\<rparr>], warnings = []\<rparr>
         \<and> parseProducts (name @ '':'') = parseProducts name"
proof -
  have a: "parseProducts (name @ '':'')
           = \<lparr>products = [\<lparr>product = name, version = None\<rparr>], warnings = []\<rparr>"
    by (simp add: parseProducts_lines nonBlankLines_name_colon[OF assms] MAX_PRODUCTS_def
          validateLine_name_colon[OF assms])
  have b: "parseProducts name
           = \<lparr>products = [\<lparr>product = name, version = None\<rparr>], warnings = []\<rparr>"
    by (simp add: parseProducts_lines nonBlankLines_name[OF assms] MAX_PRODUCTS_def
          validateLine_name[OF assms])
  from a b show ?thesis by simp
qed

theorem parseProducts_empty_version_witness:
  "validateProduct ''python''
   \<and> parseProducts ''python:''
       = \<lparr>products = [\<lparr>product = ''python'', version = None\<rparr>], warnings = []\<rparr>
   \<and> parseProducts ''python:'' = parseProducts ''python''"
proof -
  have e: "''python'' @ '':'' = ''python:''" by simp
  from parseProducts_empty_version[OF validateProduct_python]
  have "parseProducts ''python:''
       = \<lparr>products = [\<lparr>product = ''python'', version = None\<rparr>], warnings = []\<rparr>
   \<and> parseProducts ''python:'' = parseProducts ''python''"
    unfolding e .
  with validateProduct_python show ?thesis by (rule conjI)
qed

text \<open>The product cap: what the loop computes in terms of the lines taken one by one.\<close>

lemma truncationWarning_text:
  "truncationWarning = ''Maximum of 50 products allowed. Only the first 50 will be processed.''"
  by code_simp

lemma validateLine_warning_head:
  "w \<in> set (warnings (validateLine l)) \<Longrightarrow> hd w = CHR ''S''"
  by (auto simp: validateLine_def parseLine_def Let_def split: option.splits prod.splits if_splits)

lemma validateLine_no_truncationWarning:
  "truncationWarning \<notin> set (concat (map (\<lambda>l. warnings (validateLine l)) ls))"
proof
  assume "truncationWarning \<in> set (concat (map (\<lambda>l. warnings (validateLine l)) ls))"
  then obtain l where "truncationWarning \<in> set (warnings (validateLine l))" by auto
  from validateLine_warning_head[OF this] show False
    by (simp add: truncationWarning_text)
qed

lemma validateLine_products_le: "length (products (validateLine l)) \<le> 1"
  by (auto simp: validateLine_def parseLine_def Let_def split: option.splits prod.splits if_splits)

lemma length_concat_le:
  "\<forall>x\<in>set xs. length (f x) \<le> 1 \<Longrightarrow> length (concat (map f xs)) \<le> length xs"
  by (induction xs) auto

lemma line_visible:
  assumes "validateProduct n" "validateVersion v"
  shows "nonBlankLines (n @ '':'' @ v) = [n @ '':'' @ v]"
    and "CHR 0x0A \<notin> set (n @ '':'' @ v)"
    and "trim (n @ '':'' @ v) = n @ '':'' @ v"
proof -
  from validateProduct_chars[OF assms(1)] have ne: "n \<noteq> []" and w: "\<forall>c\<in>set n. wordChar c" by auto
  from validateVersion_chars[OF assms(2)] have ve: "v \<noteq> []" and vw: "\<forall>c\<in>set v. wordChar c" by auto
  from ne w have "wordChar (hd n)" by auto
  then have h: "33 \<le> (of_char (hd (n @ '':'' @ v)) :: nat)" "(of_char (hd (n @ '':'' @ v)) :: nat) \<le> 126"
    using ne wordChar_visible by auto
  from ve vw have "wordChar (last v)" by auto
  then have l: "33 \<le> (of_char (last (n @ '':'' @ v)) :: nat)" "(of_char (last (n @ '':'' @ v)) :: nat) \<le> 126"
    using ve wordChar_visible by auto
  from w vw show nl: "CHR 0x0A \<notin> set (n @ '':'' @ v)" using wordChar_not_newline by auto
  with h l show "nonBlankLines (n @ '':'' @ v) = [n @ '':'' @ v]"
    by (intro nonBlankLines_single) auto
  from h l show "trim (n @ '':'' @ v) = n @ '':'' @ v" by (intro trim_id) auto
qed

lemma nonBlankLines_lines:
  assumes "ls \<noteq> []" "\<forall>l\<in>set ls. CHR 0x0A \<notin> set l \<and> trim l = l \<and> l \<noteq> []"
  shows "nonBlankLines (joinWith NL ls) = ls"
proof -
  have "splitOn (CHR 0x0A) (joinWith NL ls) = ls"
    using assms by (intro splitOn_joinWith) auto
  moreover have "map trim ls = ls" using assms(2) by (intro map_idI) blast
  moreover have "filter (\<lambda>l. length l > 0) ls = ls" using assms(2) by (intro filter_True) auto
  ultimately show ?thesis by (simp only: nonBlankLines_def)
qed

lemma nonBlankLines_joined:
  assumes "ps \<noteq> []" "\<forall>(n, v)\<in>set ps. validateProduct n \<and> validateVersion v"
  shows "nonBlankLines (joinWith NL (map (\<lambda>(n, v). n @ '':'' @ v) ps))
           = map (\<lambda>(n, v). n @ '':'' @ v) ps"
proof (rule nonBlankLines_lines)
  show "map (\<lambda>(n, v). n @ '':'' @ v) ps \<noteq> []" using assms(1) by simp
  show "\<forall>l\<in>set (map (\<lambda>(n, v). n @ '':'' @ v) ps). CHR 0x0A \<notin> set l \<and> trim l = l \<and> l \<noteq> []"
  proof
    fix l assume "l \<in> set (map (\<lambda>(n, v). n @ '':'' @ v) ps)"
    then obtain n v where nv: "(n, v) \<in> set ps" and l: "l = n @ '':'' @ v" by auto
    with assms(2) have "validateProduct n" "validateVersion v" by auto
    from line_visible(2,3)[OF this] l show "CHR 0x0A \<notin> set l \<and> trim l = l \<and> l \<noteq> []" by simp
  qed
qed

lemma products_of_lines:
  assumes "\<forall>(n, v)\<in>set ps. validateProduct n \<and> validateVersion v"
  shows "concat (map (\<lambda>l. products (validateLine l)) (map (\<lambda>(n, v). n @ '':'' @ v) ps))
           = map (\<lambda>(n, v). \<lparr>product = n, version = Some v\<rparr>) ps"
    and "concat (map (\<lambda>l. warnings (validateLine l)) (map (\<lambda>(n, v). n @ '':'' @ v) ps)) = []"
  using assms by (induction ps) (auto simp: validateLine_name_version[simplified])

lemma parseProducts_many:
  assumes len: "length ps = 51"
    and ok: "\<forall>(n, v)\<in>set ps. validateProduct n \<and> validateVersion v"
  shows "parseProducts (joinWith NL (map (\<lambda>(n, v). n @ '':'' @ v) ps))
           = \<lparr>products = map (\<lambda>(n, v). \<lparr>product = n, version = Some v\<rparr>) (take 50 ps),
              warnings = [truncationWarning]\<rparr>"
proof -
  from len have ne: "ps \<noteq> []" by auto
  have ok': "\<forall>(n, v)\<in>set (take 50 ps). validateProduct n \<and> validateVersion v"
    using ok by (meson in_set_takeD)
  define ls where "ls = map (\<lambda>(n, v). n @ '':'' @ v) ps"
  have nb: "nonBlankLines (joinWith NL ls) = ls"
    unfolding ls_def by (rule nonBlankLines_joined[OF ne ok])
  have ll: "length ls = 51" by (simp add: ls_def len)
  have tk: "take 50 ls = map (\<lambda>(n, v). n @ '':'' @ v) (take 50 ps)"
    by (simp add: ls_def take_map)
  have "parseProducts (joinWith NL ls)
          = \<lparr>products = concat (map (\<lambda>l. products (validateLine l)) (take 50 ls)),
             warnings = [truncationWarning] @ concat (map (\<lambda>l. warnings (validateLine l)) (take 50 ls))\<rparr>"
    by (simp add: parseProducts_lines nb ll MAX_PRODUCTS_def)
  also have "\<dots> = \<lparr>products = map (\<lambda>(n, v). \<lparr>product = n, version = Some v\<rparr>) (take 50 ps),
              warnings = [truncationWarning]\<rparr>"
    by (simp only: tk products_of_lines[OF ok'] append_Nil2)
  finally show ?thesis by (simp only: ls_def)
qed

lemma validateProduct_replicate: "validateProduct (replicate (Suc k) (CHR ''a''))"
  by (simp add: validateProduct_def isLower_def less_eq_char_def list_all_iff)

lemma validateVersion_1: "validateVersion ''1''"
  by (simp add: validateVersion_def isDigit_def less_eq_char_def)

lemma validateVersion_312: "validateVersion ''3.12''"
  by (simp add: validateVersion_def isDigit_def isPunct_def less_eq_char_def)

text \<open>The character classes of the two patterns, letter by letter.\<close>

lemma lower_cases: "97 \<le> (n::nat) \<Longrightarrow> n \<le> 122 \<Longrightarrow> (char_of n :: char) \<in> set ''abcdefghijklmnopqrstuvwxyz''"
proof -
  assume "97 \<le> n" "n \<le> 122"
  then have "n = 97 \<or> n = 98 \<or> n = 99 \<or> n = 100 \<or> n = 101 \<or> n = 102 \<or> n = 103 \<or> n = 104 \<or> n = 105 \<or> n = 106 \<or> n = 107 \<or> n = 108 \<or> n = 109 \<or> n = 110 \<or> n = 111 \<or> n = 112 \<or> n = 113 \<or> n = 114 \<or> n = 115 \<or> n = 116 \<or> n = 117 \<or> n = 118 \<or> n = 119 \<or> n = 120 \<or> n = 121 \<or> n = 122" by arith
  then show ?thesis by (elim disjE) (simp_all add: char_of_eq_iff)
qed

lemma lower_set: "isLower c \<longleftrightarrow> c \<in> set ''abcdefghijklmnopqrstuvwxyz''"
proof
  assume "isLower c"
  then have "97 \<le> (of_char c :: nat)" "(of_char c :: nat) \<le> 122"
    by (simp_all add: isLower_def less_eq_char_def)
  from lower_cases[OF this] show "c \<in> set ''abcdefghijklmnopqrstuvwxyz''" by simp
next
  assume "c \<in> set ''abcdefghijklmnopqrstuvwxyz''"
  then show "isLower c" by (auto simp: isLower_def less_eq_char_def)
qed

lemma upper_cases: "65 \<le> (n::nat) \<Longrightarrow> n \<le> 90 \<Longrightarrow> (char_of n :: char) \<in> set ''ABCDEFGHIJKLMNOPQRSTUVWXYZ''"
proof -
  assume "65 \<le> n" "n \<le> 90"
  then have "n = 65 \<or> n = 66 \<or> n = 67 \<or> n = 68 \<or> n = 69 \<or> n = 70 \<or> n = 71 \<or> n = 72 \<or> n = 73 \<or> n = 74 \<or> n = 75 \<or> n = 76 \<or> n = 77 \<or> n = 78 \<or> n = 79 \<or> n = 80 \<or> n = 81 \<or> n = 82 \<or> n = 83 \<or> n = 84 \<or> n = 85 \<or> n = 86 \<or> n = 87 \<or> n = 88 \<or> n = 89 \<or> n = 90" by arith
  then show ?thesis by (elim disjE) (simp_all add: char_of_eq_iff)
qed

lemma upper_set: "isUpper c \<longleftrightarrow> c \<in> set ''ABCDEFGHIJKLMNOPQRSTUVWXYZ''"
proof
  assume "isUpper c"
  then have "65 \<le> (of_char c :: nat)" "(of_char c :: nat) \<le> 90"
    by (simp_all add: isUpper_def less_eq_char_def)
  from upper_cases[OF this] show "c \<in> set ''ABCDEFGHIJKLMNOPQRSTUVWXYZ''" by simp
next
  assume "c \<in> set ''ABCDEFGHIJKLMNOPQRSTUVWXYZ''"
  then show "isUpper c" by (auto simp: isUpper_def less_eq_char_def)
qed

lemma digit_cases: "48 \<le> (n::nat) \<Longrightarrow> n \<le> 57 \<Longrightarrow> (char_of n :: char) \<in> set ''0123456789''"
proof -
  assume "48 \<le> n" "n \<le> 57"
  then have "n = 48 \<or> n = 49 \<or> n = 50 \<or> n = 51 \<or> n = 52 \<or> n = 53 \<or> n = 54 \<or> n = 55 \<or> n = 56 \<or> n = 57" by arith
  then show ?thesis by (elim disjE) (simp_all add: char_of_eq_iff)
qed

lemma digit_set: "isDigit c \<longleftrightarrow> c \<in> set ''0123456789''"
proof
  assume "isDigit c"
  then have "48 \<le> (of_char c :: nat)" "(of_char c :: nat) \<le> 57"
    by (simp_all add: isDigit_def less_eq_char_def)
  from digit_cases[OF this] show "c \<in> set ''0123456789''" by simp
next
  assume "c \<in> set ''0123456789''"
  then show "isDigit c" by (auto simp: isDigit_def less_eq_char_def)
qed

lemma punct_set: "isPunct c \<longleftrightarrow> c \<in> set ''._-''"
  by (auto simp: isPunct_def)

lemma pattern_shape:
  assumes "A \<subseteq> B"
  shows "(c \<in> A \<and> (\<forall>d\<in>set cs. d \<in> B)) = (c # cs \<noteq> [] \<and> hd (c # cs) \<in> A \<and> set (c # cs) \<subseteq> B)"
  using assms by auto

lemma set_append_mem: "(d \<in> set xs \<or> d \<in> set ys) = (d \<in> set (xs @ ys))"
  by simp

lemma product_sets:
  "set ''abcdefghijklmnopqrstuvwxyz0123456789''
     \<subseteq> set ''abcdefghijklmnopqrstuvwxyz0123456789._-''"
  by simp

lemma version_sets:
  "set ''abcdefghijklmnopqrstuvwxyzABCDEFGHIJKLMNOPQRSTUVWXYZ0123456789''
     \<subseteq> set ''abcdefghijklmnopqrstuvwxyzABCDEFGHIJKLMNOPQRSTUVWXYZ0123456789._-''"
  by simp

lemma productHead_set:
  "(isLower d \<or> isDigit d) = (d \<in> set ''abcdefghijklmnopqrstuvwxyz0123456789'')"
proof -
  have a: "''abcdefghijklmnopqrstuvwxyz'' @ ''0123456789'' = ''abcdefghijklmnopqrstuvwxyz0123456789''"
    by simp
  have "(isLower d \<or> isDigit d) = (d \<in> set (''abcdefghijklmnopqrstuvwxyz'' @ ''0123456789''))"
    unfolding lower_set digit_set by (rule set_append_mem)
  then show ?thesis unfolding a .
qed

lemma productTail_set:
  "(isLower d \<or> isDigit d \<or> isPunct d) = (d \<in> set ''abcdefghijklmnopqrstuvwxyz0123456789._-'')"
proof -
  have b: "''abcdefghijklmnopqrstuvwxyz0123456789'' @ ''._-''
             = ''abcdefghijklmnopqrstuvwxyz0123456789._-''"
    by simp
  have "(isLower d \<or> isDigit d \<or> isPunct d) = ((isLower d \<or> isDigit d) \<or> isPunct d)"
    by blast
  also have "\<dots> = (d \<in> set (''abcdefghijklmnopqrstuvwxyz0123456789'' @ ''._-''))"
    unfolding productHead_set punct_set by (rule set_append_mem)
  finally show ?thesis unfolding b .
qed

lemma versionHead_set:
  "(isLower d \<or> isUpper d \<or> isDigit d)
     = (d \<in> set ''abcdefghijklmnopqrstuvwxyzABCDEFGHIJKLMNOPQRSTUVWXYZ0123456789'')"
proof -
  have a: "''abcdefghijklmnopqrstuvwxyz'' @ ''ABCDEFGHIJKLMNOPQRSTUVWXYZ0123456789''
             = ''abcdefghijklmnopqrstuvwxyzABCDEFGHIJKLMNOPQRSTUVWXYZ0123456789''"
    by simp
  have b: "''ABCDEFGHIJKLMNOPQRSTUVWXYZ'' @ ''0123456789'' = ''ABCDEFGHIJKLMNOPQRSTUVWXYZ0123456789''"
    by simp
  have "(isUpper d \<or> isDigit d) = (d \<in> set (''ABCDEFGHIJKLMNOPQRSTUVWXYZ'' @ ''0123456789''))"
    unfolding upper_set digit_set by (rule set_append_mem)
  then have u: "(isUpper d \<or> isDigit d) = (d \<in> set ''ABCDEFGHIJKLMNOPQRSTUVWXYZ0123456789'')"
    unfolding b .
  have "(isLower d \<or> isUpper d \<or> isDigit d)
          = (d \<in> set (''abcdefghijklmnopqrstuvwxyz'' @ ''ABCDEFGHIJKLMNOPQRSTUVWXYZ0123456789''))"
    unfolding u lower_set by (rule set_append_mem)
  then show ?thesis unfolding a .
qed

lemma versionTail_set:
  "(isLower d \<or> isUpper d \<or> isDigit d \<or> isPunct d)
     = (d \<in> set ''abcdefghijklmnopqrstuvwxyzABCDEFGHIJKLMNOPQRSTUVWXYZ0123456789._-'')"
proof -
  have b: "''abcdefghijklmnopqrstuvwxyzABCDEFGHIJKLMNOPQRSTUVWXYZ0123456789'' @ ''._-''
             = ''abcdefghijklmnopqrstuvwxyzABCDEFGHIJKLMNOPQRSTUVWXYZ0123456789._-''"
    by simp
  have "(isLower d \<or> isUpper d \<or> isDigit d \<or> isPunct d)
          = ((isLower d \<or> isUpper d \<or> isDigit d) \<or> isPunct d)"
    by blast
  also have "\<dots> = (d \<in> set (''abcdefghijklmnopqrstuvwxyzABCDEFGHIJKLMNOPQRSTUVWXYZ0123456789'' @ ''._-''))"
    unfolding versionHead_set punct_set by (rule set_append_mem)
  finally show ?thesis unfolding b .
qed

lemma validateProduct_iff:
  "validateProduct n \<longleftrightarrow>
     n \<noteq> [] \<and> hd n \<in> set ''abcdefghijklmnopqrstuvwxyz0123456789''
     \<and> set n \<subseteq> set ''abcdefghijklmnopqrstuvwxyz0123456789._-''"
proof (cases n)
  case Nil
  then show ?thesis by (simp add: validateProduct_def)
next
  case (Cons c cs)
  have "validateProduct (c # cs)
          = (c \<in> set ''abcdefghijklmnopqrstuvwxyz0123456789''
             \<and> (\<forall>d\<in>set cs. d \<in> set ''abcdefghijklmnopqrstuvwxyz0123456789._-''))"
    unfolding validateProduct_def PRODUCT_PATTERN.simps list_all_iff
      productHead_set productTail_set ..
  also note pattern_shape[OF product_sets]
  finally show ?thesis unfolding Cons .
qed

lemma VERSION_PATTERN_latest: "VERSION_PATTERN ''latest''"
  by (simp add: isLower_def less_eq_char_def)

lemma validateVersion_pattern: "validateVersion w = VERSION_PATTERN w"
proof
  assume "validateVersion w"
  then consider "w = ''latest''" | "VERSION_PATTERN w"
    unfolding validateVersion_def by blast
  then show "VERSION_PATTERN w"
  proof cases
    case 1
    show ?thesis unfolding 1 by (rule VERSION_PATTERN_latest)
  next
    case 2
    then show ?thesis .
  qed
next
  assume "VERSION_PATTERN w"
  then show "validateVersion w" unfolding validateVersion_def by (rule disjI2)
qed

lemma validateVersion_iff:
  "validateVersion v \<longleftrightarrow>
     v \<noteq> []
     \<and> hd v \<in> set ''abcdefghijklmnopqrstuvwxyzABCDEFGHIJKLMNOPQRSTUVWXYZ0123456789''
     \<and> set v \<subseteq> set ''abcdefghijklmnopqrstuvwxyzABCDEFGHIJKLMNOPQRSTUVWXYZ0123456789._-''"
proof (cases v)
  case Nil
  then show ?thesis by (simp add: validateVersion_def)
next
  case (Cons c cs)
  have "validateVersion (c # cs)
          = (c \<in> set ''abcdefghijklmnopqrstuvwxyzABCDEFGHIJKLMNOPQRSTUVWXYZ0123456789''
             \<and> (\<forall>d\<in>set cs. d \<in> set ''abcdefghijklmnopqrstuvwxyzABCDEFGHIJKLMNOPQRSTUVWXYZ0123456789._-''))"
    unfolding validateVersion_pattern VERSION_PATTERN.simps list_all_iff
      versionHead_set versionTail_set ..
  also note pattern_shape[OF version_sets]
  finally show ?thesis unfolding Cons .
qed

text \<open>The white space of \<open>trim\<close> is the white space of the language, code point by code point.\<close>

lemma whiteSpace_utf8: "whiteSpace = map utf8 whiteSpaceCodePoints"
proof -
  have "map (map (of_char :: char \<Rightarrow> nat)) whiteSpace
          = map (map of_char) (map utf8 whiteSpaceCodePoints)"
    by (simp add: whiteSpace_def whiteSpaceCodePoints_def utf8_def)
  moreover have "inj (of_char :: char \<Rightarrow> nat)" by (simp add: inj_on_def)
  then have "inj (map (of_char :: char \<Rightarrow> nat))" by (rule inj_mapI)
  ultimately show ?thesis by (simp only: inj_map_eq_map)
qed

lemma utf8_no_newline:
  "cp \<in> set whiteSpaceCodePoints \<Longrightarrow> cp \<noteq> 10 \<Longrightarrow> CHR 0x0A \<notin> set (utf8 cp)"
proof
  assume a: "cp \<in> set whiteSpaceCodePoints" "cp \<noteq> 10" and b: "CHR 0x0A \<in> set (utf8 cp)"
  have "\<forall>n\<in>set whiteSpaceCodePoints. n \<noteq> 10 \<longrightarrow> (10::nat) \<notin> set (map of_char (utf8 n))"
    by (simp add: whiteSpaceCodePoints_def utf8_def)
  with a have "(10::nat) \<notin> set (map of_char (utf8 cp))" by blast
  moreover from b have "of_char (CHR 0x0A) \<in> (of_char :: char \<Rightarrow> nat) ` set (utf8 cp)"
    by (rule imageI)
  ultimately show False by simp
qed

text \<open>No white-space sequence begins or ends another one, so stripping is deterministic.\<close>

lemma prefixFree_leading:
  assumes pf: "\<forall>w\<in>set ws. \<forall>w'\<in>set ws. prefix w' w \<longrightarrow> w' = w"
    and w: "w \<in> set ws"
  shows "leading ws (w @ r) = Some w"
proof -
  have "take (length w) (w @ r) = w" by simp
  with w obtain w' where f: "find (\<lambda>x. take (length x) (w @ r) = x) ws = Some w'"
    by (cases "find (\<lambda>x. take (length x) (w @ r) = x) ws") (auto simp: find_None_iff)
  then have m: "w' \<in> set ws" and t: "take (length w') (w @ r) = w'"
    by (auto simp: find_Some_iff)
  from t have "prefix w' (w @ r)" by (metis take_is_prefix)
  moreover have "prefix w (w @ r)" by simp
  ultimately have "prefix w' w \<or> prefix w w'" by (rule prefix_same_cases)
  with pf w m have "w' = w" by blast
  with f show ?thesis by (simp add: leading_def)
qed

lemma whiteSpace_prefixFree:
  "list_all (\<lambda>w. list_all (\<lambda>w'. prefix w' w \<longrightarrow> w' = w) whiteSpace) whiteSpace"
  by code_simp

lemma whiteSpace_suffixFree:
  "list_all (\<lambda>w. list_all (\<lambda>w'. prefix w' w \<longrightarrow> w' = w) (map rev whiteSpace)) (map rev whiteSpace)"
  by code_simp

lemma leading_whiteSpace: "w \<in> set whiteSpace \<Longrightarrow> leading whiteSpace (w @ r) = Some w"
  using whiteSpace_prefixFree by (intro prefixFree_leading) (simp_all add: list_all_iff)

lemma leading_whiteSpace_rev:
  "w \<in> set (map rev whiteSpace) \<Longrightarrow> leading (map rev whiteSpace) (w @ r) = Some w"
  using whiteSpace_suffixFree by (intro prefixFree_leading) (simp_all add: list_all_iff)

lemma whiteSpace_nonempty: "w \<in> set whiteSpace \<Longrightarrow> w \<noteq> []"
  by (auto simp: whiteSpace_def)

lemma stripLeading_pad:
  assumes "\<And>w r. w \<in> set ws \<Longrightarrow> w \<noteq> [] \<and> leading ws (w @ r) = Some w"
    and "set xs \<subseteq> set ws"
  shows "stripLeading ws (concat xs @ s) = stripLeading ws s"
  using assms(2)
proof (induction xs)
  case Nil
  then show ?case by simp
next
  case (Cons x xs)
  then have x: "x \<in> set ws" and xs: "set xs \<subseteq> set ws" by auto
  from assms(1)[OF x] have ne: "x \<noteq> []" and l: "leading ws (x @ concat xs @ s) = Some x" by auto
  have "stripLeading ws (concat (x # xs) @ s) = stripLeading ws (concat xs @ s)"
    by (subst stripLeading.simps) (simp add: l ne)
  with Cons.IH[OF xs] show ?case by simp
qed

lemma leading_Nil: "\<forall>w\<in>set ws. w \<noteq> [] \<Longrightarrow> leading ws [] = None"
  by (auto simp: leading_def find_None_iff)

lemma trimStart_pad:
  assumes "set a \<subseteq> set whiteSpaceCodePoints"
  shows "trimStart (concat (map utf8 a) @ s) = trimStart s"
  unfolding trimStart_def
proof (rule stripLeading_pad)
  show "w \<noteq> [] \<and> leading whiteSpace (w @ r) = Some w" if "w \<in> set whiteSpace" for w r
    using that leading_whiteSpace whiteSpace_nonempty by blast
  show "set (map utf8 a) \<subseteq> set whiteSpace" using assms by (auto simp: whiteSpace_utf8)
qed

lemma trimEnd_pad:
  assumes "set b \<subseteq> set whiteSpaceCodePoints"
  shows "trimEnd (s @ concat (map utf8 b)) = trimEnd s"
proof -
  have r: "rev (s @ concat (map utf8 b)) = concat (map rev (rev (map utf8 b))) @ rev s"
    by (simp add: rev_concat)
  have "stripLeading (map rev whiteSpace) (concat (map rev (rev (map utf8 b))) @ rev s)
          = stripLeading (map rev whiteSpace) (rev s)"
  proof (rule stripLeading_pad)
    show "w \<noteq> [] \<and> leading (map rev whiteSpace) (w @ r) = Some w"
      if "w \<in> set (map rev whiteSpace)" for w r
      using that leading_whiteSpace_rev[OF that] whiteSpace_nonempty by auto
    show "set (map rev (rev (map utf8 b))) \<subseteq> set (map rev whiteSpace)"
      using assms by (auto simp: whiteSpace_utf8)
  qed
  then show ?thesis by (simp only: trimEnd_def r)
qed

lemma trim_Nil_line: "trim [] = []"
  by code_simp

text \<open>White space around a line is removed, and a line of white space alone becomes empty.\<close>

lemma trim_padded:
  assumes a: "set a \<subseteq> set whiteSpaceCodePoints" and b: "set b \<subseteq> set whiteSpaceCodePoints"
    and c: "c = [] \<or> (33 \<le> (of_char (hd c) :: nat) \<and> (of_char (hd c) :: nat) \<le> 126
                      \<and> 33 \<le> (of_char (last c) :: nat) \<and> (of_char (last c) :: nat) \<le> 126)"
  shows "trim (concat (map utf8 a) @ c @ concat (map utf8 b)) = c"
proof (cases "c = []")
  case True
  have "trimStart (concat (map utf8 a) @ concat (map utf8 b) @ []) = trimStart []"
    by (simp only: trimStart_pad[OF a] trimStart_pad[OF b])
  then have "trim (concat (map utf8 a) @ concat (map utf8 b)) = trim []"
    by (simp add: trim_def)
  with True show ?thesis by (simp add: trim_Nil_line)
next
  case False
  with c have v: "33 \<le> (of_char (hd c) :: nat)" "(of_char (hd c) :: nat) \<le> 126"
    "33 \<le> (of_char (last c) :: nat)" "(of_char (last c) :: nat) \<le> 126" by auto
  have ne: "c @ concat (map utf8 b) \<noteq> []" using False by simp
  have h: "hd (c @ concat (map utf8 b)) = hd c" using False by simp
  have "\<forall>w\<in>set whiteSpace. w \<noteq> [] \<and> hd w \<noteq> hd (c @ concat (map utf8 b))"
    unfolding h by (rule whiteSpace_heads[OF v(1,2)])
  then have "leading whiteSpace (c @ concat (map utf8 b)) = None"
    by (rule leading_None[OF ne])
  then have "trimStart (c @ concat (map utf8 b)) = c @ concat (map utf8 b)"
    by (simp add: trimStart_def stripLeading_id)
  then have "trimStart (concat (map utf8 a) @ c @ concat (map utf8 b)) = c @ concat (map utf8 b)"
    by (simp only: trimStart_pad[OF a])
  then have "trim (concat (map utf8 a) @ c @ concat (map utf8 b)) = trimEnd c"
    by (simp only: trim_def trimEnd_pad[OF b])
  also have "\<dots> = c"
  proof -
    have "leading whiteSpace c = None"
      by (rule leading_None[OF False]) (rule whiteSpace_heads[OF v(1,2)])
    then have "trimStart c = c" by (simp add: trimStart_def stripLeading_id)
    moreover have "trimEnd (trimStart c) = c" using trim_id[OF False v] by (simp add: trim_def)
    ultimately show ?thesis by simp
  qed
  finally show ?thesis .
qed

text \<open>The lines of an input whose lines are padded with white space, some of them blank.\<close>

lemma nonBlankLines_Nil: "nonBlankLines [] = []"
  by (simp add: nonBlankLines_def trim_Nil_line)

lemma nonBlankLines_padded:
  assumes "list_all (\<lambda>(a, c, b).
               set a \<subseteq> set whiteSpaceCodePoints - {10} \<and> set b \<subseteq> set whiteSpaceCodePoints - {10}
               \<and> CHR 0x0A \<notin> set c
               \<and> (c = [] \<or> (33 \<le> (of_char (hd c) :: nat) \<and> (of_char (hd c) :: nat) \<le> 126
                             \<and> 33 \<le> (of_char (last c) :: nat) \<and> (of_char (last c) :: nat) \<le> 126)))
             ls"
  shows "nonBlankLines (joinWith NL (map (\<lambda>(a, c, b). concat (map utf8 a) @ c @ concat (map utf8 b)) ls))
           = filter (\<lambda>c. c \<noteq> []) (map (\<lambda>(a, c, b). c) ls)"
proof (cases "ls = []")
  case True
  then show ?thesis by (simp add: nonBlankLines_Nil)
next
  case False
  define line :: "nat list \<times> string \<times> nat list \<Rightarrow> string"
    where "line = (\<lambda>(a, c, b). concat (map utf8 a) @ c @ concat (map utf8 b))"
  have each: "CHR 0x0A \<notin> set (line x) \<and> trim (line x) = fst (snd x)" if x: "x \<in> set ls" for x
  proof -
    obtain a c b where e: "x = (a, c, b)" by (cases x) auto
    from assms x e have a: "set a \<subseteq> set whiteSpaceCodePoints - {10}"
      and b: "set b \<subseteq> set whiteSpaceCodePoints - {10}"
      and n: "CHR 0x0A \<notin> set c"
      and c: "c = [] \<or> (33 \<le> (of_char (hd c) :: nat) \<and> (of_char (hd c) :: nat) \<le> 126
                        \<and> 33 \<le> (of_char (last c) :: nat) \<and> (of_char (last c) :: nat) \<le> 126)"
      by (auto simp: list_all_iff)
    from a have a': "set a \<subseteq> set whiteSpaceCodePoints" by blast
    from b have b': "set b \<subseteq> set whiteSpaceCodePoints" by blast
    have "CHR 0x0A \<notin> set (concat (map utf8 a))" using a utf8_no_newline by auto
    moreover have "CHR 0x0A \<notin> set (concat (map utf8 b))" using b utf8_no_newline by auto
    ultimately have "CHR 0x0A \<notin> set (line x)" using n by (simp add: line_def e)
    moreover have "trim (line x) = fst (snd x)"
      using trim_padded[OF a' b' c] by (simp add: line_def e)
    ultimately show ?thesis by simp
  qed
  have "splitOn (CHR 0x0A) (joinWith NL (map line ls)) = map line ls"
    using False each by (intro splitOn_joinWith) auto
  moreover have "map trim (map line ls) = map (\<lambda>(a, c, b). c) ls"
    using each by (auto simp: case_prod_beta)
  moreover have "(\<lambda>l::string. length l > 0) = (\<lambda>c. c \<noteq> [])" by (simp add: fun_eq_iff)
  ultimately have "nonBlankLines (joinWith NL (map line ls))
                     = filter (\<lambda>c. c \<noteq> []) (map (\<lambda>(a, c, b). c) ls)"
    by (simp only: nonBlankLines_def)
  then show ?thesis by (simp only: line_def)
qed

text \<open>One turn of the loop on any line: the line has no colon, or is cut at its first colon.\<close>

lemma validateLine_no_colon:
  assumes "CHR '':'' \<notin> set n"
  shows "validateLine n
           = (if validateProduct n
              then \<lparr>products = [\<lparr>product = n, version = None\<rparr>], warnings = []\<rparr>
              else \<lparr>products = [], warnings = [''Skipping invalid product name: \"'' @ n @ ''\"'']\<rparr>)"
proof -
  from assms have "indexOf n '':'' = None" by (rule indexOf_char_absent)
  then show ?thesis by (simp add: validateLine_def parseLine_def)
qed

lemma validateLine_colon:
  assumes "CHR '':'' \<notin> set n"
  shows "validateLine (n @ '':'' @ v)
           = (if \<not> validateProduct n
              then \<lparr>products = [], warnings = [''Skipping invalid product name: \"'' @ n @ ''\"'']\<rparr>
              else if v = []
              then \<lparr>products = [\<lparr>product = n, version = None\<rparr>], warnings = []\<rparr>
              else if validateVersion v
              then \<lparr>products = [\<lparr>product = n, version = Some v\<rparr>], warnings = []\<rparr>
              else \<lparr>products = [],
                    warnings = [''Skipping invalid version \"'' @ v @ ''\" for product \"'' @ n @ ''\"'']\<rparr>)"
proof -
  from assms have "indexOf (n @ '':'' @ v) '':'' = Some (length n)"
    using indexOf_char_first[of "CHR '':''" n v] by simp
  then show ?thesis
    by (simp add: validateLine_def parseLine_def substring_def substringFrom_def)
qed

lemma validateProduct_node: "validateProduct ''node''"
  by (simp add: validateProduct_def isLower_def isDigit_def isPunct_def less_eq_char_def)

lemma validateVersion_dot1: "\<not> validateVersion ''.1''"
  by (simp add: validateVersion_def isLower_def isUpper_def isDigit_def less_eq_char_def)

lemma validateProduct_UPPER: "\<not> validateProduct ''UPPER''"
  by (simp add: validateProduct_def isLower_def isDigit_def less_eq_char_def)


text \<open>
  Claim C9. \<open>parseProducts\<close> works on the trimmed, non-blank lines of its input. It keeps
  the first 50 of them and validates each retained line on its own, so at most 50 products
  result. When more than 50 lines remain, the warnings are one truncation warning followed
  by the warnings of the retained lines, and the truncation warning occurs exactly once;
  otherwise it does not occur. In particular, 51 lines \<open>name:version\<close> with valid names and
  versions give exactly the first 50 products and the truncation warning as the only
  warning.

  The three notions used above are fixed by what they compute. The truncation warning is
  the text \<open>Maximum of 50 products allowed. Only the first 50 will be processed.\<close> The
  trimmed, non-blank lines: when every line of the input is a text without a newline that
  is empty or begins and ends with a visible ASCII character, surrounded by any white space
  of the language other than the newline, they are exactly the non-empty inner texts, in
  order, so white space around a line is removed and a line of white space alone is
  dropped. The validation of a line: a line is cut at its first colon; an invalid name
  gives the warning \<open>Skipping invalid product name\<close> and no product, a valid name with a
  non-empty invalid version gives the warning \<open>Skipping invalid version\<close> and no product,
  and a valid name gives one product otherwise, without a version when there is no colon
  or nothing after it. A name is valid when it is not empty, begins with a lower-case
  letter or a digit and consists of lower-case letters, digits, dots, underscores and
  hyphens; a version likewise, with upper-case letters allowed as well.
\<close>

theorem parseProducts_cap:
  "products (parseProducts input)
     = concat (map (\<lambda>l. products (validateLine l)) (take 50 (nonBlankLines input)))
   \<and> length (products (parseProducts input)) \<le> 50
   \<and> (50 < length (nonBlankLines input) \<longrightarrow>
        warnings (parseProducts input)
          = truncationWarning
              # concat (map (\<lambda>l. warnings (validateLine l)) (take 50 (nonBlankLines input)))
        \<and> count_list (warnings (parseProducts input)) truncationWarning = 1)
   \<and> (length (nonBlankLines input) \<le> 50 \<longrightarrow>
        warnings (parseProducts input)
          = concat (map (\<lambda>l. warnings (validateLine l)) (nonBlankLines input))
        \<and> count_list (warnings (parseProducts input)) truncationWarning = 0)
   \<and> (length ps = 51 \<and> (\<forall>(n, v)\<in>set ps. validateProduct n \<and> validateVersion v) \<longrightarrow>
        parseProducts (joinWith NL (map (\<lambda>(n, v). n @ '':'' @ v) ps))
          = \<lparr>products = map (\<lambda>(n, v). \<lparr>product = n, version = Some v\<rparr>) (take 50 ps),
             warnings = [truncationWarning]\<rparr>
        \<and> length (products (parseProducts (joinWith NL (map (\<lambda>(n, v). n @ '':'' @ v) ps)))) = 50)
   \<and> truncationWarning = ''Maximum of 50 products allowed. Only the first 50 will be processed.''
   \<and> (list_all (\<lambda>(a, c, b).
           set a \<subseteq> set whiteSpaceCodePoints - {10} \<and> set b \<subseteq> set whiteSpaceCodePoints - {10}
           \<and> CHR 0x0A \<notin> set c
           \<and> (c = [] \<or> (33 \<le> (of_char (hd c) :: nat) \<and> (of_char (hd c) :: nat) \<le> 126
                         \<and> 33 \<le> (of_char (last c) :: nat) \<and> (of_char (last c) :: nat) \<le> 126)))
         ls \<longrightarrow>
        nonBlankLines (joinWith NL (map (\<lambda>(a, c, b). concat (map utf8 a) @ c @ concat (map utf8 b)) ls))
          = filter (\<lambda>c. c \<noteq> []) (map (\<lambda>(a, c, b). c) ls))
   \<and> (CHR '':'' \<notin> set n \<longrightarrow>
        validateLine n
          = (if validateProduct n
             then \<lparr>products = [\<lparr>product = n, version = None\<rparr>], warnings = []\<rparr>
             else \<lparr>products = [], warnings = [''Skipping invalid product name: \"'' @ n @ ''\"'']\<rparr>)
        \<and> validateLine (n @ '':'' @ v)
          = (if \<not> validateProduct n
             then \<lparr>products = [], warnings = [''Skipping invalid product name: \"'' @ n @ ''\"'']\<rparr>
             else if v = []
             then \<lparr>products = [\<lparr>product = n, version = None\<rparr>], warnings = []\<rparr>
             else if validateVersion v
             then \<lparr>products = [\<lparr>product = n, version = Some v\<rparr>], warnings = []\<rparr>
             else \<lparr>products = [],
                   warnings = [''Skipping invalid version \"'' @ v @ ''\" for product \"'' @ n
                                 @ ''\"'']\<rparr>))
   \<and> (validateProduct n \<longleftrightarrow>
        n \<noteq> [] \<and> hd n \<in> set ''abcdefghijklmnopqrstuvwxyz0123456789''
        \<and> set n \<subseteq> set ''abcdefghijklmnopqrstuvwxyz0123456789._-'')
   \<and> (validateVersion v \<longleftrightarrow>
        v \<noteq> []
        \<and> hd v \<in> set ''abcdefghijklmnopqrstuvwxyzABCDEFGHIJKLMNOPQRSTUVWXYZ0123456789''
        \<and> set v \<subseteq> set ''abcdefghijklmnopqrstuvwxyzABCDEFGHIJKLMNOPQRSTUVWXYZ0123456789._-'')"
proof -
  let ?ls = "nonBlankLines input"
  have p: "products (parseProducts input)
             = concat (map (\<lambda>l. products (validateLine l)) (take 50 ?ls))"
    by (simp add: parseProducts_lines MAX_PRODUCTS_def)
  have "length (concat (map (\<lambda>l. products (validateLine l)) (take 50 ?ls))) \<le> length (take 50 ?ls)"
    using validateLine_products_le by (intro length_concat_le) blast
  with p have l: "length (products (parseProducts input)) \<le> 50" by simp
  have c0: "count_list (concat (map (\<lambda>l. warnings (validateLine l)) ls)) truncationWarning = 0" for ls
    using validateLine_no_truncationWarning[of ls] by (simp add: count_list_0_iff)
  have big: "50 < length ?ls \<longrightarrow>
        warnings (parseProducts input)
          = truncationWarning # concat (map (\<lambda>l. warnings (validateLine l)) (take 50 ?ls))
        \<and> count_list (warnings (parseProducts input)) truncationWarning = 1"
    by (simp add: parseProducts_lines MAX_PRODUCTS_def c0)
  have small: "length ?ls \<le> 50 \<longrightarrow>
        warnings (parseProducts input) = concat (map (\<lambda>l. warnings (validateLine l)) ?ls)
        \<and> count_list (warnings (parseProducts input)) truncationWarning = 0"
    by (simp add: parseProducts_lines MAX_PRODUCTS_def c0)
  have many: "length ps = 51 \<and> (\<forall>(n, v)\<in>set ps. validateProduct n \<and> validateVersion v) \<longrightarrow>
        parseProducts (joinWith NL (map (\<lambda>(n, v). n @ '':'' @ v) ps))
          = \<lparr>products = map (\<lambda>(n, v). \<lparr>product = n, version = Some v\<rparr>) (take 50 ps),
             warnings = [truncationWarning]\<rparr>
        \<and> length (products (parseProducts (joinWith NL (map (\<lambda>(n, v). n @ '':'' @ v) ps)))) = 50"
  proof (intro impI, elim conjE)
    assume a: "length ps = 51" "\<forall>(n, v)\<in>set ps. validateProduct n \<and> validateVersion v"
    from parseProducts_many[OF a] a(1) show
      "parseProducts (joinWith NL (map (\<lambda>(n, v). n @ '':'' @ v) ps))
          = \<lparr>products = map (\<lambda>(n, v). \<lparr>product = n, version = Some v\<rparr>) (take 50 ps),
             warnings = [truncationWarning]\<rparr>
        \<and> length (products (parseProducts (joinWith NL (map (\<lambda>(n, v). n @ '':'' @ v) ps)))) = 50"
      by simp
  qed
  note tw = truncationWarning_text
  have line: "CHR '':'' \<notin> set n \<longrightarrow>
        validateLine n
          = (if validateProduct n
             then \<lparr>products = [\<lparr>product = n, version = None\<rparr>], warnings = []\<rparr>
             else \<lparr>products = [], warnings = [''Skipping invalid product name: \"'' @ n @ ''\"'']\<rparr>)
        \<and> validateLine (n @ '':'' @ v)
          = (if \<not> validateProduct n
             then \<lparr>products = [], warnings = [''Skipping invalid product name: \"'' @ n @ ''\"'']\<rparr>
             else if v = []
             then \<lparr>products = [\<lparr>product = n, version = None\<rparr>], warnings = []\<rparr>
             else if validateVersion v
             then \<lparr>products = [\<lparr>product = n, version = Some v\<rparr>], warnings = []\<rparr>
             else \<lparr>products = [],
                   warnings = [''Skipping invalid version \"'' @ v @ ''\" for product \"'' @ n
                                 @ ''\"'']\<rparr>)"
    using validateLine_no_colon[of n] validateLine_colon[of n v] by blast
  note vp = validateProduct_iff[of n]
  note vv = validateVersion_iff[of v]
  show ?thesis
    apply (intro conjI)
            apply (rule p)
           apply (rule l)
          apply (rule big)
         apply (rule small)
        apply (rule many)
       apply (rule tw)
      apply (rule impI, erule nonBlankLines_padded)
     apply (rule line)
    apply (rule vp)
    apply (rule vv)
    done
qed

theorem parseProducts_cap_witness:
  "length (map (\<lambda>k. (replicate (Suc k) (CHR ''a''), ''1'')) [0..<51]) = 51
   \<and> distinct (map (\<lambda>k. (replicate (Suc k) (CHR ''a''), ''1'')) [0..<51])
   \<and> list_all (\<lambda>(n, v). validateProduct n \<and> validateVersion v)
         (map (\<lambda>k. (replicate (Suc k) (CHR ''a''), ''1'')) [0..<51])
   \<and> length (products (parseProducts (joinWith NL (map (\<lambda>(n, v). n @ '':'' @ v)
         (map (\<lambda>k. (replicate (Suc k) (CHR ''a''), ''1'')) [0..<51]))))) = 50
   \<and> warnings (parseProducts (joinWith NL (map (\<lambda>(n, v). n @ '':'' @ v)
         (map (\<lambda>k. (replicate (Suc k) (CHR ''a''), ''1'')) [0..<51])))) = [truncationWarning]
   \<and> 50 < length (nonBlankLines (joinWith NL (map (\<lambda>(n, v). n @ '':'' @ v)
         (map (\<lambda>k. (replicate (Suc k) (CHR ''a''), ''1'')) [0..<51]))))
   \<and> count_list (warnings (parseProducts (joinWith NL (map (\<lambda>(n, v). n @ '':'' @ v)
         (map (\<lambda>k. (replicate (Suc k) (CHR ''a''), ''1'')) [0..<51]))))) truncationWarning = 1
   \<and> length (nonBlankLines ''python:3.12'') \<le> 50
   \<and> warnings (parseProducts ''python:3.12'') = []
   \<and> joinWith NL (map (\<lambda>(a, c, b). concat (map utf8 a) @ c @ concat (map utf8 b))
         [([0x20, 0x20], ''python:3.12'', [0x20, 0x0D]), ([], [], []),
          ([0x09], ''UPPER'', [0xA0]), ([], ''node:.1'', []),
          ([0x20, 0x3000], [], [0x09]), ([], ''postgres:'', [])])
       = ''  python:3.12 '' @ [CHR 0x0D, CHR 0x0A, CHR 0x0A, CHR 0x09] @ ''UPPER''
           @ [CHR 0xC2, CHR 0xA0, CHR 0x0A] @ ''node:.1''
           @ [CHR 0x0A, CHR 0x20, CHR 0xE3, CHR 0x80, CHR 0x80, CHR 0x09, CHR 0x0A] @ ''postgres:''
   \<and> nonBlankLines (''  python:3.12 '' @ [CHR 0x0D, CHR 0x0A, CHR 0x0A, CHR 0x09] @ ''UPPER''
           @ [CHR 0xC2, CHR 0xA0, CHR 0x0A] @ ''node:.1''
           @ [CHR 0x0A, CHR 0x20, CHR 0xE3, CHR 0x80, CHR 0x80, CHR 0x09, CHR 0x0A] @ ''postgres:'')
       = [''python:3.12'', ''UPPER'', ''node:.1'', ''postgres:'']
   \<and> validateLine ''UPPER''
       = \<lparr>products = [], warnings = [''Skipping invalid product name: \"UPPER\"'']\<rparr>
   \<and> validateLine ''node:.1''
       = \<lparr>products = [], warnings = [''Skipping invalid version \".1\" for product \"node\"'']\<rparr>
   \<and> parseProducts (''  python:3.12 '' @ [CHR 0x0D, CHR 0x0A, CHR 0x0A, CHR 0x09] @ ''UPPER''
           @ [CHR 0xC2, CHR 0xA0, CHR 0x0A] @ ''node:.1''
           @ [CHR 0x0A, CHR 0x20, CHR 0xE3, CHR 0x80, CHR 0x80, CHR 0x09, CHR 0x0A] @ ''postgres:'')
       = \<lparr>products = [\<lparr>product = ''python'', version = Some ''3.12''\<rparr>,
                       \<lparr>product = ''postgres'', version = None\<rparr>],
          warnings = [''Skipping invalid product name: \"UPPER\"'',
                      ''Skipping invalid version \".1\" for product \"node\"'']\<rparr>"
proof -
  define ps where "ps = map (\<lambda>k. (replicate (Suc k) (CHR ''a''), ''1'')) [0..<51]"
  define inp where "inp = joinWith NL (map (\<lambda>(n, v). n @ '':'' @ v) ps)"
  define mls :: "(nat list \<times> string \<times> nat list) list" where
    "mls = [([0x20, 0x20], ''python:3.12'', [0x20, 0x0D]), ([], [], []),
            ([0x09], ''UPPER'', [0xA0]), ([], ''node:.1'', []),
            ([0x20, 0x3000], [], [0x09]), ([], ''postgres:'', [])]"
  define messy where
    "messy = ''  python:3.12 '' @ [CHR 0x0D, CHR 0x0A, CHR 0x0A, CHR 0x09] @ ''UPPER''
           @ [CHR 0xC2, CHR 0xA0, CHR 0x0A] @ ''node:.1''
           @ [CHR 0x0A, CHR 0x20, CHR 0xE3, CHR 0x80, CHR 0x80, CHR 0x09, CHR 0x0A] @ ''postgres:''"
  have len: "length ps = 51" by (simp add: ps_def)
  have "inj_on (\<lambda>k. (replicate (Suc k) (CHR ''a''), ''1'')) (set [0..<51])"
    by (rule inj_onI) (metis Pair_inject length_replicate nat.inject)
  then have dist: "distinct ps" by (simp add: ps_def distinct_map)
  have ok: "\<forall>(n, v)\<in>set ps. validateProduct n \<and> validateVersion v"
    using validateProduct_replicate validateVersion_1 by (auto simp: ps_def)
  from len have ne: "ps \<noteq> []" by auto
  have nb: "nonBlankLines inp = map (\<lambda>(n, v). n @ '':'' @ v) ps"
    unfolding inp_def by (rule nonBlankLines_joined[OF ne ok])
  then have big: "50 < length (nonBlankLines inp)" by (simp add: len)
  from parseProducts_cap[where input = inp and ps = ps] len ok big
  have r: "length (products (parseProducts inp)) = 50"
    "warnings (parseProducts inp) = [truncationWarning]"
    "count_list (warnings (parseProducts inp)) truncationWarning = 1"
    unfolding inp_def by auto
  have e: "''python'' @ '':'' @ ''3.12'' = ''python:3.12''" by simp
  have one: "nonBlankLines ''python:3.12'' = [''python:3.12'']"
    using line_visible(1)[OF validateProduct_python validateVersion_312] unfolding e .
  then have small: "length (nonBlankLines ''python:3.12'') \<le> 50" by simp
  have "warnings (validateLine ''python:3.12'') = []"
    using validateLine_name_version[OF validateProduct_python validateVersion_312] unfolding e by simp
  with parseProducts_cap[where input = "''python:3.12''" and ps = "[]"] small one
  have w: "warnings (parseProducts ''python:3.12'') = []" by simp
  from ok have ok': "list_all (\<lambda>(n, v). validateProduct n \<and> validateVersion v) ps"
    by (simp add: list_all_iff)
  have h: "list_all (\<lambda>(a, c, b).
           set a \<subseteq> set whiteSpaceCodePoints - {10} \<and> set b \<subseteq> set whiteSpaceCodePoints - {10}
           \<and> CHR 0x0A \<notin> set c
           \<and> (c = [] \<or> (33 \<le> (of_char (hd c) :: nat) \<and> (of_char (hd c) :: nat) \<le> 126
                         \<and> 33 \<le> (of_char (last c) :: nat) \<and> (of_char (last c) :: nat) \<le> 126)))
         mls"
    by (simp add: mls_def whiteSpaceCodePoints_def)
  have j: "joinWith NL (map (\<lambda>(a, c, b). concat (map utf8 a) @ c @ concat (map utf8 b)) mls) = messy"
    by (simp add: mls_def messy_def utf8_def char_of_eq_iff)
  note T = parseProducts_cap[where input = messy and ps = "[]" and ls = mls
      and n = "''node''" and v = "''.1''"]
  from T h have "nonBlankLines (joinWith NL (map (\<lambda>(a, c, b). concat (map utf8 a) @ c @ concat (map utf8 b)) mls))
          = filter (\<lambda>c. c \<noteq> []) (map (\<lambda>(a, c, b). c) mls)"
    by blast
  then have nbm: "nonBlankLines messy = [''python:3.12'', ''UPPER'', ''node:.1'', ''postgres:'']"
    unfolding j by (simp add: mls_def)
  have cn: "CHR '':'' \<notin> set ''node''" by simp
  from T cn have "validateLine (''node'' @ '':'' @ ''.1'')
          = (if \<not> validateProduct ''node''
             then \<lparr>products = [], warnings = [''Skipping invalid product name: \"'' @ ''node'' @ ''\"'']\<rparr>
             else if ''.1'' = []
             then \<lparr>products = [\<lparr>product = ''node'', version = None\<rparr>], warnings = []\<rparr>
             else if validateVersion ''.1''
             then \<lparr>products = [\<lparr>product = ''node'', version = Some ''.1''\<rparr>], warnings = []\<rparr>
             else \<lparr>products = [],
                   warnings = [''Skipping invalid version \"'' @ ''.1'' @ ''\" for product \"'' @ ''node''
                                 @ ''\"'']\<rparr>)"
    by blast
  then have vn: "validateLine ''node:.1''
       = \<lparr>products = [], warnings = [''Skipping invalid version \".1\" for product \"node\"'']\<rparr>"
    using validateProduct_node validateVersion_dot1 by simp
  note U = parseProducts_cap[where input = messy and ps = "[]" and ls = mls
      and n = "''UPPER''" and v = "[]"]
  have cu: "CHR '':'' \<notin> set ''UPPER''" by simp
  from U cu have "validateLine ''UPPER''
          = (if validateProduct ''UPPER''
             then \<lparr>products = [\<lparr>product = ''UPPER'', version = None\<rparr>], warnings = []\<rparr>
             else \<lparr>products = [], warnings = [''Skipping invalid product name: \"'' @ ''UPPER'' @ ''\"'']\<rparr>)"
    by blast
  then have vu: "validateLine ''UPPER''
       = \<lparr>products = [], warnings = [''Skipping invalid product name: \"UPPER\"'']\<rparr>"
    using validateProduct_UPPER by simp
  have pm: "parseProducts messy
       = \<lparr>products = [\<lparr>product = ''python'', version = Some ''3.12''\<rparr>,
                       \<lparr>product = ''postgres'', version = None\<rparr>],
          warnings = [''Skipping invalid product name: \"UPPER\"'',
                      ''Skipping invalid version \".1\" for product \"node\"'']\<rparr>"
    unfolding messy_def by code_simp
  from len dist ok' r big small w j nbm vu vn pm show ?thesis
    unfolding inp_def ps_def mls_def messy_def by blast
qed

section \<open>The badge renderer\<close>

lemma validStyles_cases:
  "sty \<in> set validStyles \<Longrightarrow>
     sty = ''flat'' \<or> sty = ''flat-square'' \<or> sty = ''plastic'' \<or> sty = ''for-the-badge''"
  by (simp add: validStyles_def)

lemma encodeURIComponent_style:
  assumes "sty \<in> set validStyles"
  shows "encodeURIComponent sty = sty"
proof -
  have "encodeURIComponent ''flat'' = ''flat''"
       "encodeURIComponent ''flat-square'' = ''flat-square''"
       "encodeURIComponent ''plastic'' = ''plastic''"
       "encodeURIComponent ''for-the-badge'' = ''for-the-badge''"
    by (simp_all add: encodeURIComponent_def uriUnreserved_def isLower_def isUpper_def
          isDigit_def less_eq_char_def)
  with validStyles_cases[OF assms] show ?thesis by auto
qed

lemma style_truthy: "sty \<in> set validStyles \<Longrightarrow> sty \<noteq> []"
  by (auto dest: validStyles_cases)

lemma validProduct_version: "validProduct p \<Longrightarrow> version p \<noteq> Some []"
  by (auto simp: validProduct_def dest: validateVersion_chars split: option.splits)

lemma getBadgeUrl_spec:
  assumes "sty \<in> set validStyles" "validProduct p"
  shows "getBadgeUrl type (product p) (version p) (Some sty) baseUrl
           = spec_imageUrl baseUrl type p sty"
proof -
  have b: "(if truthy baseUrl then the baseUrl else ''https://img.releaserun.com/badge'')
             = spec_baseUrl baseUrl"
    by (cases baseUrl) (auto simp: spec_baseUrl_def)
  show ?thesis
  proof (cases "version p")
    case None
    then show ?thesis
      using assms(1) style_truthy[OF assms(1)]
      by (simp add: getBadgeUrl_def Let_def b spec_imageUrl_def encodeURIComponent_style)
  next
    case (Some v)
    with validProduct_version[OF assms(2)] have "v \<noteq> []" by auto
    with Some show ?thesis
      using assms(1) style_truthy[OF assms(1)]
      by (simp add: getBadgeUrl_def Let_def b spec_imageUrl_def encodeURIComponent_style)
  qed
qed

lemma generateBadgeMarkdown_spec:
  assumes "sty \<in> set validStyles" "validProduct p"
  shows "generateBadgeMarkdown p type sty lnk baseUrl = spec_badgeUnit baseUrl lnk sty p type"
  by (simp add: generateBadgeMarkdown_def Let_def getBadgeUrl_spec[OF assms] spec_badgeUnit_def)

lemma generateAllBadges_spec:
  assumes "sty \<in> set validStyles" "\<forall>p\<in>set ps. validProduct p"
  shows "generateAllBadges ps types sty lnk baseUrl
           = joinWith NL (map (\<lambda>p. joinWith '' '' (map (spec_badgeUnit baseUrl lnk sty p) types)) ps)"
proof -
  have "map (\<lambda>p. joinWith '' '' (map (\<lambda>type. generateBadgeMarkdown p type sty lnk baseUrl) types)) ps
          = map (\<lambda>p. joinWith '' '' (map (spec_badgeUnit baseUrl lnk sty p) types)) ps"
    using assms by (intro map_cong refl arg_cong[where f="joinWith '' ''"])
                   (simp add: generateBadgeMarkdown_spec)
  then show ?thesis by (simp only: generateAllBadges_def)
qed


lemma set_joinWith: "set (joinWith sep xs) \<subseteq> set sep \<union> (\<Union>x\<in>set xs. set x)"
  by (induction sep xs rule: joinWith.induct) auto

lemma badgeTypeString_no_newline: "CHR 0x0A \<notin> set (badgeTypeString t)"
  by (cases t) auto

lemma style_no_newline: "sty \<in> set validStyles \<Longrightarrow> CHR 0x0A \<notin> set sty"
  by (auto dest: validStyles_cases)

lemma validProduct_no_newline:
  assumes "validProduct p"
  shows "CHR 0x0A \<notin> set (product p)"
    and "CHR 0x0A \<notin> set (case version p of None \<Rightarrow> [] | Some v \<Rightarrow> ''/'' @ v)"
    and "CHR 0x0A \<notin> set (versionSuffix (version p))"
proof -
  from assms have "validateProduct (product p)" by (simp add: validProduct_def)
  from validateProduct_chars[OF this] show "CHR 0x0A \<notin> set (product p)"
    using wordChar_not_newline by blast
  have v: "CHR 0x0A \<notin> set v" if "version p = Some v" for v
  proof -
    from assms that have "validateVersion v" by (simp add: validProduct_def)
    from validateVersion_chars[OF this] show ?thesis using wordChar_not_newline by blast
  qed
  then show "CHR 0x0A \<notin> set (case version p of None \<Rightarrow> [] | Some v \<Rightarrow> ''/'' @ v)"
    by (cases "version p") auto
  from v show "CHR 0x0A \<notin> set (versionSuffix (version p))"
    by (cases "version p") (auto simp: versionSuffix_def)
qed

lemma spec_imageUrl_no_newline:
  assumes "sty \<in> set validStyles" "validProduct p" "CHR 0x0A \<notin> set (spec_baseUrl baseUrl)"
  shows "CHR 0x0A \<notin> set (spec_imageUrl baseUrl t p sty)"
  using assms(3) validProduct_no_newline(1,2)[OF assms(2)] style_no_newline[OF assms(1)]
    badgeTypeString_no_newline[of t]
  by (simp add: spec_imageUrl_def)

lemma getBadgeLabel_no_newline:
  assumes "validProduct p"
  shows "CHR 0x0A \<notin> set (getBadgeLabel t (product p) (version p))"
  using validProduct_no_newline(1,3)[OF assms] by (cases t) auto

lemma getLinkUrl_no_newline:
  assumes "CHR 0x0A \<notin> set pn" "CHR 0x0A \<notin> set u"
  shows "CHR 0x0A \<notin> set (getLinkUrl lnk pn u)"
  using assms by (cases lnk) auto

lemma spec_badgeUnit_no_newline:
  assumes "sty \<in> set validStyles" "validProduct p" "CHR 0x0A \<notin> set (spec_baseUrl baseUrl)"
  shows "CHR 0x0A \<notin> set (spec_badgeUnit baseUrl lnk sty p t)"
  using spec_imageUrl_no_newline[OF assms, of t] getBadgeLabel_no_newline[OF assms(2), of t]
    getLinkUrl_no_newline[OF validProduct_no_newline(1)[OF assms(2)] spec_imageUrl_no_newline[OF assms, of t], of lnk]
  by (simp add: spec_badgeUnit_def)

lemma badge_line_no_newline:
  assumes "sty \<in> set validStyles" "validProduct p" "CHR 0x0A \<notin> set (spec_baseUrl baseUrl)"
  shows "CHR 0x0A \<notin> set (joinWith '' '' (map (spec_badgeUnit baseUrl lnk sty p) types))"
proof
  assume "CHR 0x0A \<in> set (joinWith '' '' (map (spec_badgeUnit baseUrl lnk sty p) types))"
  with set_joinWith[of "'' ''" "map (spec_badgeUnit baseUrl lnk sty p) types"]
  obtain t where "CHR 0x0A \<in> set (spec_badgeUnit baseUrl lnk sty p t)" by auto
  with spec_badgeUnit_no_newline[OF assms] show False by simp
qed

lemma validProduct_python_312: "validProduct \<lparr>product = ''python'', version = Some ''3.12''\<rparr>"
  by (simp add: validProduct_def validateProduct_python validateVersion_312)

lemma validProduct_node: "validProduct \<lparr>product = ''node'', version = None\<rparr>"
  by (simp add: validProduct_def validateProduct_def isLower_def isDigit_def isPunct_def
        less_eq_char_def)

text \<open>
  Claim C8. For every validated product, every category, every style of the enumeration and
  every base URL, \<open>getBadgeUrl\<close> returns \<open>{baseUrl}/{category}/{product}[/{version}].svg\<close>,
  with \<open>?style={style}\<close> appended exactly when the style is not \<open>flat\<close> (an absent or
  empty base URL stands for the default one), and a badge unit is
  \<open>[![label](imageUrl)](linkUrl)\<close>. \<open>generateAllBadges\<close> joins the units of one product
  with a single space and the lines of the products with a newline, in the order of the
  products: when no newline occurs in the base URL, splitting the output at the newlines
  gives back one line for each product, in that order.
\<close>

theorem rendered_markup:
  "sty \<in> set validStyles \<and> validProduct p \<and> (\<forall>q\<in>set ps. validProduct q) \<longrightarrow>
     getBadgeUrl type (product p) (version p) (Some sty) baseUrl = spec_imageUrl baseUrl type p sty
     \<and> generateBadgeMarkdown p type sty lnk baseUrl = spec_badgeUnit baseUrl lnk sty p type
     \<and> generateAllBadges ps types sty lnk baseUrl
         = joinWith NL (map (\<lambda>q. joinWith '' '' (map (spec_badgeUnit baseUrl lnk sty q) types)) ps)
     \<and> (ps \<noteq> [] \<and> CHR 0x0A \<notin> set (spec_baseUrl baseUrl) \<longrightarrow>
          splitOn (CHR 0x0A) (generateAllBadges ps types sty lnk baseUrl)
            = map (\<lambda>q. joinWith '' '' (map (spec_badgeUnit baseUrl lnk sty q) types)) ps)"
proof (intro impI, elim conjE)
  assume a: "sty \<in> set validStyles" "validProduct p" "\<forall>q\<in>set ps. validProduct q"
  let ?ls = "map (\<lambda>q. joinWith '' '' (map (spec_badgeUnit baseUrl lnk sty q) types)) ps"
  have g: "generateAllBadges ps types sty lnk baseUrl = joinWith NL ?ls"
    by (rule generateAllBadges_spec[OF a(1,3)])
  have sp: "splitOn (CHR 0x0A) (generateAllBadges ps types sty lnk baseUrl) = ?ls"
    if "ps \<noteq> []" "CHR 0x0A \<notin> set (spec_baseUrl baseUrl)"
  proof -
    have "\<forall>l\<in>set ?ls. CHR 0x0A \<notin> set l"
      using badge_line_no_newline[OF a(1) _ that(2)] a(3) by auto
    moreover have "?ls \<noteq> []" using that(1) by simp
    ultimately have "splitOn (CHR 0x0A) (joinWith NL ?ls) = ?ls" by (intro splitOn_joinWith)
    then show ?thesis by (simp only: g)
  qed
  from getBadgeUrl_spec[OF a(1,2)] generateBadgeMarkdown_spec[OF a(1,2)] g sp
  show "getBadgeUrl type (product p) (version p) (Some sty) baseUrl = spec_imageUrl baseUrl type p sty
     \<and> generateBadgeMarkdown p type sty lnk baseUrl = spec_badgeUnit baseUrl lnk sty p type
     \<and> generateAllBadges ps types sty lnk baseUrl
         = joinWith NL (map (\<lambda>q. joinWith '' '' (map (spec_badgeUnit baseUrl lnk sty q) types)) ps)
     \<and> (ps \<noteq> [] \<and> CHR 0x0A \<notin> set (spec_baseUrl baseUrl) \<longrightarrow>
          splitOn (CHR 0x0A) (generateAllBadges ps types sty lnk baseUrl)
            = map (\<lambda>q. joinWith '' '' (map (spec_badgeUnit baseUrl lnk sty q) types)) ps)"
    by blast
qed

theorem rendered_markup_witness:
  "''for-the-badge'' \<in> set validStyles
   \<and> validProduct \<lparr>product = ''python'', version = Some ''3.12''\<rparr>
   \<and> validProduct \<lparr>product = ''node'', version = None\<rparr>
   \<and> getBadgeUrl eol ''python'' (Some ''3.12'') (Some ''for-the-badge'') None
       = ''https://img.releaserun.com/badge/eol/python/3.12.svg?style=for-the-badge''
   \<and> splitOn (CHR 0x0A)
         (generateAllBadges [\<lparr>product = ''python'', version = Some ''3.12''\<rparr>,
                             \<lparr>product = ''node'', version = None\<rparr>]
            [health, eol] ''for-the-badge'' badge_page None)
       = [''[![python 3.12 health](https://img.releaserun.com/badge/health/python/3.12.svg?style=for-the-badge)](https://releaserun.com/badges/python/) [![python 3.12 EOL](https://img.releaserun.com/badge/eol/python/3.12.svg?style=for-the-badge)](https://releaserun.com/badges/python/)'',
          ''[![node health](https://img.releaserun.com/badge/health/node.svg?style=for-the-badge)](https://releaserun.com/badges/node/) [![node EOL](https://img.releaserun.com/badge/eol/node.svg?style=for-the-badge)](https://releaserun.com/badges/node/)'']"
proof -
  let ?p = "\<lparr>product = ''python'', version = Some ''3.12''\<rparr>"
  let ?n = "\<lparr>product = ''node'', version = None\<rparr>"
  have s: "''for-the-badge'' \<in> set validStyles" by (simp add: validStyles_def)
  have v: "\<forall>q\<in>set [?p, ?n]. validProduct q"
    using validProduct_python_312 validProduct_node by simp
  have nl: "[?p, ?n] \<noteq> [] \<and> CHR 0x0A \<notin> set (spec_baseUrl None)"
    by (simp add: spec_baseUrl_def)
  from rendered_markup[of "''for-the-badge''" ?p "[?p, ?n]" eol None badge_page "[health, eol]"]
    s validProduct_python_312 v nl
  have u: "getBadgeUrl eol (product ?p) (version ?p) (Some ''for-the-badge'') None
             = spec_imageUrl None eol ?p ''for-the-badge''"
    and l: "splitOn (CHR 0x0A) (generateAllBadges [?p, ?n] [health, eol] ''for-the-badge'' badge_page None)
             = map (\<lambda>q. joinWith '' '' (map (spec_badgeUnit None badge_page ''for-the-badge'' q) [health, eol])) [?p, ?n]"
    by blast+
  from u have u': "getBadgeUrl eol ''python'' (Some ''3.12'') (Some ''for-the-badge'') None
       = ''https://img.releaserun.com/badge/eol/python/3.12.svg?style=for-the-badge''"
    by (simp add: spec_imageUrl_def spec_baseUrl_def)
  have l': "map (\<lambda>q. joinWith '' '' (map (spec_badgeUnit None badge_page ''for-the-badge'' q) [health, eol])) [?p, ?n]
       = [''[![python 3.12 health](https://img.releaserun.com/badge/health/python/3.12.svg?style=for-the-badge)](https://releaserun.com/badges/python/) [![python 3.12 EOL](https://img.releaserun.com/badge/eol/python/3.12.svg?style=for-the-badge)](https://releaserun.com/badges/python/)'',
          ''[![node health](https://img.releaserun.com/badge/health/node.svg?style=for-the-badge)](https://releaserun.com/badges/node/) [![node EOL](https://img.releaserun.com/badge/eol/node.svg?style=for-the-badge)](https://releaserun.com/badges/node/)'']"
    by (simp add: spec_badgeUnit_def spec_imageUrl_def spec_baseUrl_def versionSuffix_def)
  from s validProduct_python_312 validProduct_node u' l l' show ?thesis by (simp only:)
qed

section \<open>The badge-service URL check\<close>

text \<open>The matcher of the IPv4 pattern accepts exactly the dotted quads of short digit groups.\<close>

lemma joinWith_splitOn: "joinWith [sep] (splitOn sep s) = s"
proof (induction s)
  case Nil show ?case by simp
next
  case (Cons c s)
  show ?case
  proof (cases "c = sep")
    case True
    obtain p ps where "splitOn sep s = p # ps" by (cases "splitOn sep s") (cases s, auto split: if_splits list.splits)
    with True Cons show ?thesis by simp
  next
    case False
    obtain p ps where sp: "splitOn sep s = p # ps" by (cases "splitOn sep s") (cases s, auto split: if_splits list.splits)
    with Cons have "joinWith [sep] (p # ps) = s" by simp
    then have "joinWith [sep] ((c # p) # ps) = c # s" by (cases ps) auto
    with False sp show ?thesis by simp
  qed
qed

lemma digit_not_dot: "isDigit c \<Longrightarrow> c \<noteq> CHR ''.''"
  by (auto simp: isDigit_def less_eq_char_def)

lemma digits_no_dot: "list_all isDigit a \<Longrightarrow> CHR ''.'' \<notin> set a"
  using digit_not_dot by (auto simp: list_all_iff)

lemma matchOctet_Some:
  "matchOctet s = Some r \<Longrightarrow> \<exists>a. s = a @ r \<and> octet a \<and> (r = [] \<or> \<not> isDigit (hd r))"
proof -
  assume m: "matchOctet s = Some r"
  let ?a = "takeWhile isDigit s"
  from m have l: "1 \<le> length ?a" "length ?a \<le> 3" and r: "r = dropWhile isDigit s"
    by (auto simp: matchOctet_def Let_def split: if_splits)
  have "s = ?a @ r" using r by simp
  moreover have "list_all isDigit ?a" by (simp add: list_all_iff) (meson set_takeWhileD)
  moreover have "r = [] \<or> \<not> isDigit (hd r)" using r hd_dropWhile[of isDigit s] by blast
  ultimately show ?thesis using l unfolding octet_def by blast
qed

lemma matchOctet_digits:
  assumes "octet a" "r = [] \<or> \<not> isDigit (hd r)"
  shows "matchOctet (a @ r) = Some r"
proof -
  from assms(1) have d: "\<forall>c\<in>set a. isDigit c" by (simp add: octet_def list_all_iff)
  have t: "takeWhile isDigit (a @ r) = a" and dr: "dropWhile isDigit (a @ r) = r"
    using d assms(2) by (cases r; simp add: takeWhile_append2 dropWhile_append2)+
  with assms(1) show ?thesis by (simp add: matchOctet_def Let_def octet_def)
qed

lemma matchDotOctet_Some:
  "matchDotOctet s = Some r \<Longrightarrow> \<exists>a. s = CHR ''.'' # a @ r \<and> octet a \<and> (r = [] \<or> \<not> isDigit (hd r))"
  by (cases s) (auto simp: matchDotOctet_def dest: matchOctet_Some split: if_splits)

lemma matchDotOctet_digits:
  assumes "octet a" "r = [] \<or> \<not> isDigit (hd r)"
  shows "matchDotOctet (CHR ''.'' # a @ r) = Some r"
  by (simp add: matchDotOctet_def matchOctet_digits[OF assms])

lemma dot_not_digit: "\<not> isDigit (CHR ''.'')"
  by (simp add: isDigit_def less_eq_char_def)

lemma matchIPv4_quad:
  assumes "octet a" "octet b" "octet c" "octet d"
  shows "matchIPv4 (a @ CHR ''.'' # b @ CHR ''.'' # c @ CHR ''.'' # d)"
proof -
  have 1: "matchOctet (a @ CHR ''.'' # b @ CHR ''.'' # c @ CHR ''.'' # d)
             = Some (CHR ''.'' # b @ CHR ''.'' # c @ CHR ''.'' # d)"
    by (rule matchOctet_digits[OF assms(1)]) (simp add: dot_not_digit)
  have 2: "matchDotOctet (CHR ''.'' # b @ CHR ''.'' # c @ CHR ''.'' # d)
             = Some (CHR ''.'' # c @ CHR ''.'' # d)"
    by (rule matchDotOctet_digits[OF assms(2)]) (simp add: dot_not_digit)
  have 3: "matchDotOctet (CHR ''.'' # c @ CHR ''.'' # d) = Some (CHR ''.'' # d)"
    by (rule matchDotOctet_digits[OF assms(3)]) (simp add: dot_not_digit)
  have 4: "matchDotOctet (CHR ''.'' # d) = Some []"
    using matchDotOctet_digits[OF assms(4), of "[]"] by simp
  show ?thesis by (simp add: matchIPv4_def 1 2 3 4)
qed

lemma splitOn_quad:
  assumes "octet a" "octet b" "octet c" "octet d"
  shows "splitOn (CHR ''.'') (a @ CHR ''.'' # b @ CHR ''.'' # c @ CHR ''.'' # d) = [a, b, c, d]"
proof -
  from assms have "CHR ''.'' \<notin> set a" "CHR ''.'' \<notin> set b" "CHR ''.'' \<notin> set c" "CHR ''.'' \<notin> set d"
    by (simp_all add: octet_def digits_no_dot)
  then show ?thesis by (simp add: splitOn_first splitOn_absent)
qed

lemma matchIPv4_iff: "matchIPv4 h \<longleftrightarrow> ipv4Literal h"
proof
  assume "matchIPv4 h"
  then obtain r1 r2 r3 where 1: "matchOctet h = Some r1" and 2: "matchDotOctet r1 = Some r2"
    and 3: "matchDotOctet r2 = Some r3" and 4: "matchDotOctet r3 = Some []"
    by (auto simp: matchIPv4_def split: option.splits)
  from matchOctet_Some[OF 1] obtain a where a: "h = a @ r1" "octet a" by blast
  from matchDotOctet_Some[OF 2] obtain b where b: "r1 = CHR ''.'' # b @ r2" "octet b" by blast
  from matchDotOctet_Some[OF 3] obtain c where c: "r2 = CHR ''.'' # c @ r3" "octet c" by blast
  from matchDotOctet_Some[OF 4] obtain d where d: "r3 = CHR ''.'' # d @ []" "octet d" by blast
  from a b c d have "h = a @ CHR ''.'' # b @ CHR ''.'' # c @ CHR ''.'' # d" by simp
  with splitOn_quad[OF a(2) b(2) c(2) d(2)] a(2) b(2) c(2) d(2)
  show "ipv4Literal h" by (simp add: ipv4Literal_def)
next
  assume "ipv4Literal h"
  then obtain a b c d where s: "splitOn (CHR ''.'') h = [a, b, c, d]"
    and o: "octet a" "octet b" "octet c" "octet d"
    by (auto simp: ipv4Literal_def split: list.splits)
  from joinWith_splitOn[of "CHR ''.''" h] s have "h = a @ CHR ''.'' # b @ CHR ''.'' # c @ CHR ''.'' # d"
    by simp
  with matchIPv4_quad[OF o] show "matchIPv4 h" by simp
qed

lemma endsWith_suffix: "endsWith s pat \<longleftrightarrow> suffix pat s"
proof
  assume "endsWith s pat"
  then have "s = take (length s - length pat) s @ pat"
    by (metis append_take_drop_id endsWith_def)
  then show "suffix pat s" by (metis suffixI)
next
  assume "suffix pat s"
  then obtain z where "s = z @ pat" by (auto simp: suffix_def)
  then show "endsWith s pat" by (simp add: endsWith_def)
qed

lemma startsWith_prefix: "startsWith s pat \<longleftrightarrow> prefix pat s"
proof
  assume "startsWith s pat"
  then have "s = pat @ drop (length pat) s"
    by (metis append_take_drop_id startsWith_def)
  then show "prefix pat s" by (metis prefixI)
next
  assume "prefix pat s"
  then obtain z where "s = pat @ z" by (auto simp: prefix_def)
  then show "startsWith s pat" by (simp add: startsWith_def)
qed

text \<open>An invalid badge-service URL ends the run in \<open>run_inputs\<close>.\<close>

lemma andThen_Return: "m log = (Return, l) \<Longrightarrow> andThen m f log = (Return, l)"
  by (simp add: andThen_def)

lemma andThen_Throw: "m log = (Throw t, l) \<Longrightarrow> andThen m f log = (Throw t, l)"
  by (simp add: andThen_def)

lemma andThen_Next: "m log = (Next a, l) \<Longrightarrow> andThen m f log = f a l"
  by (simp add: andThen_def)

lemma run_inputs_rejected:
  assumes "getInput env ''badge-service-url'' \<noteq> []"
    and "\<not> isValidBadgeServiceUrl (parseURL env) (getInput env ''badge-service-url'')"
  shows "(\<exists>m. run_inputs env [] = (Return, [SetFailed m]))
         \<or> (\<exists>m. run_inputs env [] = (Throw (Error m), []))"
  using assms
  by (simp add: run_inputs_def andThen_def getRequiredInput_def failWith_def Let_def
        split: option.splits)

lemma run_of_inputs_Return:
  "run_inputs env [] = (Return, l) \<Longrightarrow> run env = l"
  by (simp add: run_def run_body_def run_setup_def andThen_Return)

lemma run_of_inputs_Throw:
  "run_inputs env [] = (Throw t, l) \<Longrightarrow> run env = l @ [SetFailed (unexpected t)]"
  by (simp add: run_def run_body_def run_setup_def andThen_Throw)

lemma run_rejected_url:
  assumes "getInput env ''badge-service-url'' \<noteq> []"
    and "\<not> isValidBadgeServiceUrl (parseURL env) (getInput env ''badge-service-url'')"
  shows "\<exists>m. run env = [SetFailed m]"
  using run_inputs_rejected[OF assms] run_of_inputs_Return[of env] run_of_inputs_Throw[of env]
  by fastforce

lemma run_rejected_url_message:
  assumes "getInput env ''badge-service-url'' \<noteq> []"
    and "\<not> isValidBadgeServiceUrl (parseURL env) (getInput env ''badge-service-url'')"
    and "rawInput env ''products'' \<noteq> []"
    and "\<not> invalidBranch (orElse (getInput env ''pr-branch'') ''releaserun/badges-update'')"
    and "orElse (getInput env ''style'') ''flat'' \<in> set validStyles"
    and "linkToOfString (orElse (getInput env ''link-to'') ''badge-page'') \<noteq> None"
  shows "run env = [SetFailed (''Invalid badge-service-url: \"'' @ getInput env ''badge-service-url''
           @ ''\". URL must use HTTPS and match *.releaserun.com (no IP addresses or localhost).'')]"
proof -
  have "run_inputs env [] = (Return, [SetFailed (''Invalid badge-service-url: \"'' @ getInput env ''badge-service-url''
           @ ''\". URL must use HTTPS and match *.releaserun.com (no IP addresses or localhost).'')])"
    using assms
    by (auto simp add: run_inputs_def andThen_def getRequiredInput_def failWith_def Let_def
        split: option.splits)
  then show ?thesis by (rule run_of_inputs_Return)
qed

lemma ipv4Literal_loopback: "ipv4Literal ''127.0.0.1''"
  by (simp add: ipv4Literal_def octet_def isDigit_def less_eq_char_def)

lemma ipv4Literal_private: "ipv4Literal ''192.168.1.1''"
  by (simp add: ipv4Literal_def octet_def isDigit_def less_eq_char_def)

lemma isValidBadgeServiceUrl_iff:
  "isValidBadgeServiceUrl parse url \<longleftrightarrow>
     (\<exists>p. parse url = Some p \<and> protocol p = ''https:''
        \<and> (hostname p = ''releaserun.com'' \<or> suffix ''.releaserun.com'' (hostname p))
        \<and> \<not> ipv4Literal (hostname p) \<and> \<not> prefix ''['' (hostname p)
        \<and> hostname p \<noteq> ''::1'' \<and> hostname p \<noteq> ''localhost'')"
proof (cases "parse url")
  case None
  then show ?thesis by (simp add: isValidBadgeServiceUrl_def)
next
  case (Some p)
  have "\<not> ipv4Literal (hostname p) \<Longrightarrow> hostname p \<noteq> ''127.0.0.1''"
    using ipv4Literal_loopback by auto
  with Some show ?thesis
    by (auto simp add: isValidBadgeServiceUrl_def matchIPv4_iff endsWith_suffix startsWith_prefix)
qed

text \<open>
  Claim C5. \<open>isValidBadgeServiceUrl\<close> accepts a URL exactly when it parses, its scheme
  is \<open>https:\<close>, its host is \<open>releaserun.com\<close> or ends with \<open>.releaserun.com\<close>, and its
  host is not an IPv4 literal, does not begin with a bracket, and is neither \<open>::1\<close> nor
  \<open>localhost\<close>. A URL parsed as \<open>https\<close> with host \<open>releaserun.com\<close> or
  \<open>sub.releaserun.com\<close> is accepted; the hosts \<open>releaserun.com.evil.com\<close>,
  \<open>192.168.1.1\<close> and \<open>localhost\<close>, any other scheme, and a string that does not parse are
  rejected. When the input \<open>badge-service-url\<close> is given and rejected, the run consists of
  one \<open>setFailed\<close> call and nothing else.
\<close>

theorem isValidBadgeServiceUrl_spec:
  "(isValidBadgeServiceUrl parse url \<longleftrightarrow>
     (\<exists>p. parse url = Some p \<and> protocol p = ''https:''
        \<and> (hostname p = ''releaserun.com'' \<or> suffix ''.releaserun.com'' (hostname p))
        \<and> \<not> ipv4Literal (hostname p) \<and> \<not> prefix ''['' (hostname p)
        \<and> hostname p \<noteq> ''::1'' \<and> hostname p \<noteq> ''localhost''))
   \<and> (parse url = Some \<lparr>protocol = ''https:'', hostname = ''releaserun.com''\<rparr>
        \<longrightarrow> isValidBadgeServiceUrl parse url)
   \<and> (parse url = Some \<lparr>protocol = ''https:'', hostname = ''sub.releaserun.com''\<rparr>
        \<longrightarrow> isValidBadgeServiceUrl parse url)
   \<and> (parse url = Some q
        \<and> hostname q \<in> {''releaserun.com.evil.com'', ''192.168.1.1'', ''localhost''}
        \<longrightarrow> \<not> isValidBadgeServiceUrl parse url)
   \<and> (parse url = Some q \<and> protocol q \<noteq> ''https:'' \<longrightarrow> \<not> isValidBadgeServiceUrl parse url)
   \<and> (parse url = None \<longrightarrow> \<not> isValidBadgeServiceUrl parse url)
   \<and> (getInput env ''badge-service-url'' \<noteq> []
        \<and> \<not> isValidBadgeServiceUrl (parseURL env) (getInput env ''badge-service-url'')
        \<longrightarrow> (\<exists>m. run env = [SetFailed m]))"
proof -
  have a: "parse url = Some \<lparr>protocol = ''https:'', hostname = ''releaserun.com''\<rparr>
        \<longrightarrow> isValidBadgeServiceUrl parse url"
    by (simp add: isValidBadgeServiceUrl_def matchIPv4_iff ipv4Literal_def startsWith_def)
  have b: "parse url = Some \<lparr>protocol = ''https:'', hostname = ''sub.releaserun.com''\<rparr>
        \<longrightarrow> isValidBadgeServiceUrl parse url"
    by (simp add: isValidBadgeServiceUrl_def matchIPv4_iff ipv4Literal_def startsWith_def
          endsWith_def)
  have c: "parse url = Some q
        \<and> hostname q \<in> {''releaserun.com.evil.com'', ''192.168.1.1'', ''localhost''}
        \<longrightarrow> \<not> isValidBadgeServiceUrl parse url"
    by (auto simp add: isValidBadgeServiceUrl_def endsWith_def matchIPv4_iff ipv4Literal_private)
  have d: "parse url = Some q \<and> protocol q \<noteq> ''https:'' \<longrightarrow> \<not> isValidBadgeServiceUrl parse url"
    by (simp add: isValidBadgeServiceUrl_def)
  have e: "parse url = None \<longrightarrow> \<not> isValidBadgeServiceUrl parse url"
    by (simp add: isValidBadgeServiceUrl_def)
  have f: "getInput env ''badge-service-url'' \<noteq> []
        \<and> \<not> isValidBadgeServiceUrl (parseURL env) (getInput env ''badge-service-url'')
        \<longrightarrow> (\<exists>m. run env = [SetFailed m])"
    using run_rejected_url[of env] by blast
  from isValidBadgeServiceUrl_iff[of parse url] a b c d e f show ?thesis by blast
qed

theorem isValidBadgeServiceUrl_spec_witness:
  "isValidBadgeServiceUrl testParseURL ''https://releaserun.com''
   \<and> isValidBadgeServiceUrl testParseURL ''https://sub.releaserun.com''
   \<and> \<not> isValidBadgeServiceUrl testParseURL ''https://releaserun.com.evil.com''
   \<and> \<not> isValidBadgeServiceUrl testParseURL ''https://192.168.1.1''
   \<and> \<not> isValidBadgeServiceUrl testParseURL ''https://localhost''
   \<and> \<not> isValidBadgeServiceUrl testParseURL ''http://img.releaserun.com''
   \<and> \<not> isValidBadgeServiceUrl testParseURL ''not-a-url''
   \<and> getInput (testEnv ((''badge-service-url'', ''https://192.168.1.1'') # testInputs)
         README_WITH_MARKERS testRemote) ''badge-service-url'' \<noteq> []
   \<and> (\<exists>m. run (testEnv ((''badge-service-url'', ''https://192.168.1.1'') # testInputs)
         README_WITH_MARKERS testRemote) = [SetFailed m])"
proof -
  let ?env = "testEnv ((''badge-service-url'', ''https://192.168.1.1'') # testInputs)
         README_WITH_MARKERS testRemote"
  let ?ip = "\<lparr>protocol = ''https:'', hostname = ''192.168.1.1''\<rparr>"
  note t = isValidBadgeServiceUrl_spec
  have p1: "testParseURL ''https://releaserun.com''
              = Some \<lparr>protocol = ''https:'', hostname = ''releaserun.com''\<rparr>"
    and p2: "testParseURL ''https://sub.releaserun.com''
              = Some \<lparr>protocol = ''https:'', hostname = ''sub.releaserun.com''\<rparr>"
    and p3: "testParseURL ''https://releaserun.com.evil.com''
              = Some \<lparr>protocol = ''https:'', hostname = ''releaserun.com.evil.com''\<rparr>"
    and p4: "testParseURL ''https://192.168.1.1'' = Some ?ip"
    and p5: "testParseURL ''https://localhost''
              = Some \<lparr>protocol = ''https:'', hostname = ''localhost''\<rparr>"
    and p6: "testParseURL ''http://img.releaserun.com''
              = Some \<lparr>protocol = ''http:'', hostname = ''img.releaserun.com''\<rparr>"
    and p7: "testParseURL ''not-a-url'' = None"
    by (simp_all add: testParseURL_def)
  have 1: "isValidBadgeServiceUrl testParseURL ''https://releaserun.com''"
    using t[of testParseURL "''https://releaserun.com''"] p1 by blast
  have 2: "isValidBadgeServiceUrl testParseURL ''https://sub.releaserun.com''"
    using t[of testParseURL "''https://sub.releaserun.com''"] p2 by blast
  have h3: "hostname \<lparr>protocol = ''https:'', hostname = ''releaserun.com.evil.com''\<rparr>
              \<in> {''releaserun.com.evil.com'', ''192.168.1.1'', ''localhost''}"
    and h4: "hostname ?ip \<in> {''releaserun.com.evil.com'', ''192.168.1.1'', ''localhost''}"
    and h5: "hostname \<lparr>protocol = ''https:'', hostname = ''localhost''\<rparr>
              \<in> {''releaserun.com.evil.com'', ''192.168.1.1'', ''localhost''}"
    and h6: "protocol \<lparr>protocol = ''http:'', hostname = ''img.releaserun.com''\<rparr> \<noteq> ''https:''"
    by simp_all
  have 3: "\<not> isValidBadgeServiceUrl testParseURL ''https://releaserun.com.evil.com''"
    using t[of testParseURL "''https://releaserun.com.evil.com''"
            "\<lparr>protocol = ''https:'', hostname = ''releaserun.com.evil.com''\<rparr>"] p3 h3 by blast
  have 4: "\<not> isValidBadgeServiceUrl testParseURL ''https://192.168.1.1''"
    using t[of testParseURL "''https://192.168.1.1''" ?ip] p4 h4 by blast
  have 5: "\<not> isValidBadgeServiceUrl testParseURL ''https://localhost''"
    using t[of testParseURL "''https://localhost''"
            "\<lparr>protocol = ''https:'', hostname = ''localhost''\<rparr>"] p5 h5 by blast
  have 6: "\<not> isValidBadgeServiceUrl testParseURL ''http://img.releaserun.com''"
    using t[of testParseURL "''http://img.releaserun.com''"
            "\<lparr>protocol = ''http:'', hostname = ''img.releaserun.com''\<rparr>"] p6 h6 by blast
  have 7: "\<not> isValidBadgeServiceUrl testParseURL ''not-a-url''"
    using t[of testParseURL "''not-a-url''"] p7 by blast
  have g: "getInput ?env ''badge-service-url'' = ''https://192.168.1.1''"
    by code_simp
  have pu: "parseURL ?env = testParseURL" by (simp add: testEnv_def)
  have ne: "getInput ?env ''badge-service-url'' \<noteq> []" by (simp add: g)
  have bad: "\<not> isValidBadgeServiceUrl (parseURL ?env) (getInput ?env ''badge-service-url'')"
    using 4 by (simp add: g pu)
  have 8: "\<exists>m. run ?env = [SetFailed m]"
    using t[of testParseURL "''https://192.168.1.1''" ?ip ?env] ne bad by blast
  from 1 2 3 4 5 6 7 ne 8 show ?thesis by blast
qed

section \<open>The reconciliation driver\<close>

text \<open>
  The events of a step: rules that carry a property of the appended events through the
  combinators, and then through each step of \<open>run\<close>.
\<close>

lemma apiCalls_Nil [simp]: "apiCalls [] = []"
  by (simp add: apiCalls_def map_filter_simps)

lemma apiCalls_append [simp]: "apiCalls (xs @ ys) = apiCalls xs @ apiCalls ys"
  by (simp add: apiCalls_def map_filter_def)

lemma apiCalls_Cons_Api [simp]: "apiCalls (Api c # xs) = c # apiCalls xs"
  by (simp add: apiCalls_def map_filter_simps)

lemma apiCalls_Cons_other [simp]: "apiCallOf e = None \<Longrightarrow> apiCalls (e # xs) = apiCalls xs"
  by (simp add: apiCalls_def map_filter_simps)

lemma apiCalls_none: "list_all (\<lambda>e. apiCallOf e = None) es \<Longrightarrow> apiCalls es = []"
  by (induction es) auto

lemma apiCalls_all:
  "list_all (\<lambda>e. \<forall>c. e = Api c \<longrightarrow> Q c) es \<Longrightarrow> list_all Q (apiCalls es)"
proof (induction es)
  case Nil then show ?case by simp
next
  case (Cons e es)
  then show ?case by (cases e) auto
qed

lemma adds_pure: "adds P (pure a)"
  by (simp add: adds_def pure_def)

lemma adds_leave: "adds P leave"
  by (simp add: adds_def leave_def)

lemma adds_emit: "P e \<Longrightarrow> adds P (emit e)"
  by (simp add: adds_def emit_def)

lemma adds_emitAll: "list_all P es \<Longrightarrow> adds P (emitAll es)"
  by (auto simp add: adds_def)

lemma adds_failWith: "P (SetFailed m) \<Longrightarrow> adds P (failWith m)"
  by (simp add: adds_def failWith_def)

lemma adds_call: "P (Api c) \<Longrightarrow> adds P (call operation c)"
  by (auto simp add: adds_def call_def Let_def split: sum.splits)

lemma adds_andThen:
  assumes "adds P m" "\<And>a. adds P (f a)"
  shows "adds P (andThen m f)"
  unfolding adds_def
proof
  fix log
  from assms(1) obtain es where m: "snd (m log) = log @ es" "list_all P es"
    unfolding adds_def by blast
  show "\<exists>es. snd (andThen m f log) = log @ es \<and> list_all P es"
  proof (cases "m log")
    case (Pair fl l)
    with m have l: "l = log @ es" by simp
    show ?thesis
    proof (cases fl)
      case (Next a)
      from assms(2)[of a] obtain es' where "snd (f a l) = l @ es'" "list_all P es'"
        unfolding adds_def by blast
      with Pair Next l m(2) show ?thesis by (auto simp: andThen_def)
    next
      case Return
      with Pair l m(2) show ?thesis by (auto simp: andThen_def)
    next
      case (Throw t)
      with Pair l m(2) show ?thesis by (auto simp: andThen_def)
    qed
  qed
qed

lemma adds_tryCatch:
  assumes "adds P m" "\<And>t. adds P (h t)"
  shows "adds P (tryCatch m h)"
  unfolding adds_def
proof
  fix log
  from assms(1) obtain es where m: "snd (m log) = log @ es" "list_all P es"
    unfolding adds_def by blast
  show "\<exists>es. snd (tryCatch m h log) = log @ es \<and> list_all P es"
  proof (cases "m log")
    case (Pair fl l)
    with m have l: "l = log @ es" by simp
    show ?thesis
    proof (cases fl)
      case (Throw t)
      from assms(2)[of t] obtain es' where "snd (h t l) = l @ es'" "list_all P es'"
        unfolding adds_def by blast
      with Pair Throw l m(2) show ?thesis by (auto simp: tryCatch_def)
    next
      case Return
      with Pair l m(2) show ?thesis by (auto simp: tryCatch_def)
    next
      case (Next a)
      with Pair l m(2) show ?thesis by (auto simp: tryCatch_def)
    qed
  qed
qed

lemma adds_getRequiredInput: "adds P (getRequiredInput env name)"
  by (simp add: adds_def getRequiredInput_def)

lemmas adds_intros = adds_pure adds_leave adds_emit adds_emitAll adds_failWith adds_call
  adds_andThen adds_tryCatch adds_getRequiredInput

lemma adds_if: "adds P a \<Longrightarrow> adds P b \<Longrightarrow> adds P (if c then a else b)"
  by simp

lemma adds_run_render:
  assumes "\<And>m. P (Warning m)" "\<And>m. P (Info m)" "\<And>m. P (Debug m)" "\<And>k v. P (SetOutput k v)"
  shows "adds P (run_render env i)"
  unfolding run_render_def Let_def
  apply (rule adds_andThen)
   apply (rule adds_emitAll)
   apply (simp add: list_all_iff assms)
  apply (rule adds_if)
   apply (rule adds_andThen)
    apply (rule adds_emit)
    apply (rule assms)
   apply (rule adds_leave)
  apply (rule adds_andThen)
   apply (rule adds_emitAll)
   apply (simp add: assms)
  apply (rule adds_pure)
  done

lemma adds_run_fileSha:
  "(\<And>a b c d. P (Api (ReposGetContent a b c d))) \<Longrightarrow> adds P (run_fileSha env ctx)"
  unfolding run_fileSha_def getContentCall_def
  by (auto intro!: adds_intros)

lemma adds_run_commit:
  assumes "\<And>m. P (Warning m)" "\<And>m. P (Info m)"
   "\<And>a b c d. P (Api (ReposGetContent a b c d))"
   "\<And>a b c d e f g. P (Api (ReposCreateOrUpdateFileContents a b c d e f g))"
  shows "adds P (run_commit env ctx sha)"
  unfolding run_commit_def commitCall_def
  apply (rule adds_andThen)
   apply (rule adds_tryCatch)
    apply (rule adds_call)
    apply (rule assms)
   apply (rule adds_andThen)
    apply (rule adds_emit)
    apply (rule assms)
   apply (rule adds_andThen)
    apply (rule adds_run_fileSha)
    apply (rule assms)
   apply (rule adds_call)
   apply (rule assms)
  apply (rule adds_emit)
  apply (rule assms)
  done

lemma adds_list_case:
  "adds P a \<Longrightarrow> (\<And>x xs. adds P (b x xs)) \<Longrightarrow> adds P (case l of [] \<Rightarrow> a | x # xs \<Rightarrow> b x xs)"
  by (cases l) auto

lemma adds_run_pr:
  assumes "\<And>m. P (Info m)" "\<And>m. P (SetFailed m)" "\<And>k v. P (SetOutput k v)"
   "\<And>a b c d. P (Api (PullsList a b c d))"
   "\<And>a b c d e. P (Api (PullsUpdate a b c d e))"
   "\<And>a b c d e f. P (Api (PullsCreate a b c d e f))"
  shows "adds P (run_pr env ctx)"
  unfolding run_pr_def
  apply (rule adds_tryCatch)
   apply (rule adds_andThen)
    apply (rule adds_call)
    apply (rule assms)
   apply (rule adds_list_case)
    apply (rule adds_andThen)
     apply (rule adds_call)
     apply (rule assms)
    apply (rule adds_emitAll)
    apply (simp add: assms)
   apply (rule adds_andThen)
    apply (rule adds_call)
    apply (rule assms)
   apply (rule adds_emitAll)
   apply (simp add: assms)
  apply (rule adds_failWith)
  apply (rule assms)
  done

lemma adds_run_inputs: "(\<And>m. P (SetFailed m)) \<Longrightarrow> adds P (run_inputs env)"
  unfolding run_inputs_def
  by (auto intro!: adds_intros simp: Let_def split: option.splits)

lemma adds_run_document:
  "(\<And>m. P (Warning m)) \<Longrightarrow> (\<And>m. P (Info m)) \<Longrightarrow> (\<And>m. P (SetFailed m)) \<Longrightarrow>
   (\<And>p. P (ReadFile p)) \<Longrightarrow> (\<And>p c. P (WriteFile p c)) \<Longrightarrow> adds P (run_document env i r)"
  unfolding run_document_def
  by (auto intro!: adds_intros simp: Let_def split: sum.splits)

lemma adds_run_token:
  "(\<And>m. P (SetFailed m)) \<Longrightarrow> (\<And>m. P (SetSecret m)) \<Longrightarrow> adds P (run_token env)"
  unfolding run_token_def
  by (auto intro!: adds_intros simp: Let_def)

lemma adds_run_defaultBranch:
  "(\<And>m. P (Warning m)) \<Longrightarrow> (\<And>a b. P (Api (ReposGet a b))) \<Longrightarrow> adds P (run_defaultBranch env)"
  unfolding run_defaultBranch_def
  by (auto intro!: adds_intros)

lemma adds_run_getRef:
  "(\<And>a b c. P (Api (GitGetRef a b c))) \<Longrightarrow> adds P (run_getRef env d)"
  unfolding run_getRef_def
  by (auto intro!: adds_intros)

lemma adds_run_branch:
  "(\<And>m. P (Warning m)) \<Longrightarrow> (\<And>m. P (Info m)) \<Longrightarrow> (\<And>m. P (SetFailed m)) \<Longrightarrow>
   (\<And>a b c d. P (Api (GitCreateRef a b c d))) \<Longrightarrow> (\<And>a b c d. P (Api (GitUpdateRef a b c d False))) \<Longrightarrow>
   (\<And>a b c. P (Api (GitDeleteRef a b c))) \<Longrightarrow> adds P (run_branch env ctx)"
  unfolding run_branch_def createRefCall_def updateRefCall_def deleteRefCall_def
    divergedWarnings_def
  by (auto intro!: adds_intros)

lemma adds_run_setup:
  assumes "\<And>e. apiCallOf e = None \<Longrightarrow> P e"
    "\<And>a b. P (Api (ReposGet a b))" "\<And>a b c. P (Api (GitGetRef a b c))"
  shows "adds P (run_setup env)"
  unfolding run_setup_def
  apply (rule adds_andThen)
   apply (rule adds_run_inputs, simp add: assms)
  apply (rule adds_andThen)
   apply (rule adds_run_render; simp add: assms)
  apply (rule adds_andThen)
   apply (rule adds_run_document; simp add: assms)
  apply (rule adds_andThen)
   apply (rule adds_run_token; simp add: assms)
  apply (rule adds_andThen)
   apply (rule adds_run_defaultBranch; simp add: assms)
  apply (rule adds_andThen)
   apply (rule adds_run_getRef; simp add: assms)
  apply (rule adds_pure)
  done

lemma adds_run_body:
  assumes "\<And>e. (\<forall>a b c d. e \<noteq> Api (GitUpdateRef a b c d True)) \<Longrightarrow> P e"
  shows "adds P (run_body env)"
  unfolding run_body_def
  apply (rule adds_andThen)
   apply (rule adds_run_setup; rule assms; auto)
  apply (rule adds_andThen)
   apply (rule adds_run_branch; rule assms; simp)
  apply (rule adds_andThen)
   apply (rule adds_run_fileSha; rule assms; simp)
  apply (rule adds_andThen)
   apply (rule adds_run_commit; rule assms; simp)
  apply (rule adds_run_pr; rule assms; simp)
  done

lemma run_events:
  assumes "\<And>e. (\<forall>a b c d. e \<noteq> Api (GitUpdateRef a b c d True)) \<Longrightarrow> P e"
  shows "list_all P (run env)"
proof -
  from adds_run_body[of P env, OF assms] obtain es
    where es: "snd (run_body env []) = es" "list_all P es"
    unfolding adds_def by (metis append_Nil)
  have f: "P (SetFailed m)" for m by (rule assms) simp
  show ?thesis
  proof (cases "run_body env []")
    case (Pair fl l)
    with es show ?thesis by (cases fl) (auto simp: run_def f)
  qed
qed

lemma adds_prefix: "adds P m \<Longrightarrow> prefix log (snd (m log))"
  unfolding adds_def by (metis prefixI)

lemma adds_all: "adds P m \<Longrightarrow> list_all P log \<Longrightarrow> list_all P (snd (m log))"
  unfolding adds_def by (metis list_all_append)

lemma andThen_NextD:
  "andThen m f l = (Next b, l'') \<Longrightarrow> \<exists>a l'. m l = (Next a, l') \<and> f a l' = (Next b, l'')"
  by (cases "m l") (auto simp: andThen_def split: flow.splits)

text \<open>The branch step, outcome by outcome.\<close>

lemma run_branch_created:
  assumes "git_createRef (remote env) (apiCalls log @ [createRefCall env ctx]) = Inr ()"
  shows "run_branch env ctx log
           = (Next (), log @ [Api (createRefCall env ctx),
                              Info (''Created branch '' @ prBranch (inputs ctx))])"
  using assms by (simp add: run_branch_def tryCatch_def andThen_def call_def emit_def Let_def)

lemma run_branch_updated:
  assumes "git_createRef (remote env) (apiCalls log @ [createRefCall env ctx]) = Inl e1"
    and "git_updateRef (remote env) (apiCalls log @ [createRefCall env ctx, updateRefCall env ctx])
           = Inr ()"
  shows "run_branch env ctx log
           = (Next (), log @ [Api (createRefCall env ctx), Api (updateRefCall env ctx),
                              Info (''Updated branch '' @ prBranch (inputs ctx))])"
  using assms by (simp add: run_branch_def tryCatch_def andThen_def call_def emit_def Let_def)

lemma run_branch_recreated:
  assumes "git_createRef (remote env) (apiCalls log @ [createRefCall env ctx]) = Inl e1"
    and "git_updateRef (remote env) (apiCalls log @ [createRefCall env ctx, updateRefCall env ctx])
           = Inl e2"
    and "git_deleteRef (remote env)
           (apiCalls log @ [createRefCall env ctx, updateRefCall env ctx, deleteRefCall env ctx])
           = Inr ()"
    and "git_createRef (remote env)
           (apiCalls log @ [createRefCall env ctx, updateRefCall env ctx, deleteRefCall env ctx,
                            createRefCall env ctx])
           = Inr ()"
  shows "run_branch env ctx log
           = (Next (), log @ [Api (createRefCall env ctx), Api (updateRefCall env ctx)]
                @ divergedWarnings ctx e2
                @ [Api (deleteRefCall env ctx), Api (createRefCall env ctx),
                   Info (''Recreated branch '' @ prBranch (inputs ctx) @ '' from ''
                           @ defaultBranch ctx)])"
  using assms
  by (simp add: run_branch_def tryCatch_def andThen_def call_def emit_def Let_def
        divergedWarnings_def)

lemma run_branch_delete_failed:
  assumes "git_createRef (remote env) (apiCalls log @ [createRefCall env ctx]) = Inl e1"
    and "git_updateRef (remote env) (apiCalls log @ [createRefCall env ctx, updateRefCall env ctx])
           = Inl e2"
    and "git_deleteRef (remote env)
           (apiCalls log @ [createRefCall env ctx, updateRefCall env ctx, deleteRefCall env ctx])
           = Inl e3"
  shows "run_branch env ctx log
           = (Return, log @ [Api (createRefCall env ctx), Api (updateRefCall env ctx)]
                @ divergedWarnings ctx e2
                @ [Api (deleteRefCall env ctx), SetFailed (recreateFailure ctx e3)])"
  using assms
  by (simp add: run_branch_def tryCatch_def andThen_def call_def emit_def Let_def
        divergedWarnings_def failWith_def)

lemma run_branch_recreate_failed:
  assumes "git_createRef (remote env) (apiCalls log @ [createRefCall env ctx]) = Inl e1"
    and "git_updateRef (remote env) (apiCalls log @ [createRefCall env ctx, updateRefCall env ctx])
           = Inl e2"
    and "git_deleteRef (remote env)
           (apiCalls log @ [createRefCall env ctx, updateRefCall env ctx, deleteRefCall env ctx])
           = Inr ()"
    and "git_createRef (remote env)
           (apiCalls log @ [createRefCall env ctx, updateRefCall env ctx, deleteRefCall env ctx,
                            createRefCall env ctx])
           = Inl e3"
  shows "run_branch env ctx log
           = (Return, log @ [Api (createRefCall env ctx), Api (updateRefCall env ctx)]
                @ divergedWarnings ctx e2
                @ [Api (deleteRefCall env ctx), Api (createRefCall env ctx),
                   SetFailed (recreateFailure ctx e3)])"
  using assms
  by (simp add: run_branch_def tryCatch_def andThen_def call_def emit_def Let_def
        divergedWarnings_def failWith_def)

text \<open>How the run continues from the end of a step.\<close>

lemma run_branch_Return:
  assumes "run_setup env [] = (Next ctx, log0)" "run_branch env ctx log0 = (Return, log1)"
  shows "run env = log1"
  using assms by (simp add: run_def run_body_def andThen_def)

lemma adds_after_branch:
  "adds (\<lambda>_. True) (andThen (run_fileSha env ctx) (\<lambda>fileSha.
     andThen (run_commit env ctx fileSha) (\<lambda>_. run_pr env ctx)))"
  by (intro adds_andThen adds_run_fileSha adds_run_commit adds_run_pr) simp_all

lemma run_branch_Next:
  assumes "run_setup env [] = (Next ctx, log0)" "run_branch env ctx log0 = (Next u, log1)"
  shows "prefix log1 (run env)"
proof -
  let ?rest = "andThen (run_fileSha env ctx) (\<lambda>fileSha.
     andThen (run_commit env ctx fileSha) (\<lambda>_. run_pr env ctx))"
  have b: "run_body env [] = ?rest log1"
    using assms by (simp add: run_body_def andThen_def)
  have p: "prefix log1 (snd (?rest log1))" by (rule adds_prefix[OF adds_after_branch])
  show ?thesis
  proof (cases "?rest log1")
    case (Pair fl l)
    with p have "prefix log1 l" by simp
    then have "prefix log1 (l @ [SetFailed m])" for m by (rule prefix_prefix)
    with Pair b \<open>prefix log1 l\<close> show ?thesis by (cases fl) (auto simp: run_def)
  qed
qed

text \<open>What the steps before the branch step leave in the log when the run goes on.\<close>

lemma adds_silent:
  assumes "adds (\<lambda>e. apiCallOf e = None) m" "m l = (fl, l')"
  shows "\<exists>es. l' = l @ es \<and> apiCalls es = []"
proof -
  from assms(1) obtain es where "snd (m l) = l @ es" "list_all (\<lambda>e. apiCallOf e = None) es"
    unfolding adds_def by blast
  with assms(2) apiCalls_none[of es] show ?thesis by auto
qed

lemma run_inputs_Next: "run_inputs env l = (Next i, l') \<Longrightarrow> l' = l"
  by (auto simp: run_inputs_def andThen_def getRequiredInput_def failWith_def pure_def Let_def
        split: option.splits if_splits)

lemma run_inputs_fields:
  "run_inputs env l = (Next i, l') \<Longrightarrow>
     prBranch i = orElse (getInput env ''pr-branch'') ''releaserun/badges-update''
     \<and> fullPath i = pathResolve env (readmePath i)
     \<and> readmePath i = orElse (getInput env ''readme-path'') ''README.md''"
  by (auto simp: run_inputs_def andThen_def getRequiredInput_def failWith_def pure_def Let_def
        split: option.splits if_splits)

lemma run_render_Next:
  assumes "run_render env i l = (Next r, l')"
  shows "\<exists>es. l' = l @ es \<and> apiCalls es = []
           \<and> SetOutput ''badges-markdown'' (badgesMarkdown r) \<in> set es
           \<and> SetOutput ''badges-count''
                (showNat (length (parsedProducts r) * length (badgeTypes r))) \<in> set es
           \<and> SetOutput ''pr-branch'' (prBranch i) \<in> set es"
proof -
  define parsed where "parsed = parseProducts (productsInput i)"
  define ps where "ps = products parsed"
  define types where "types = parseBadgeTypes (badgeTypesInput i)"
  define md where "md = generateAllBadges ps types (style i) (linkTo i) (badgeBaseUrl i)"
  define ws where "ws = map Warning (warnings parsed)"
  define evs where "evs =
                [Info (''Parsed '' @ showNat (length ps) @ '' product(s)''),
                 Info (''Badge types: '' @ joinWith '', '' (map badgeTypeString types)),
                 Info (''Generated badges for '' @ showNat (length ps) @ '' product(s) x ''
                         @ showNat (length types) @ '' type(s)''),
                 Debug (''Generated badge markdown:'' @ NL @ md),
                 SetOutput ''badges-markdown'' md,
                 SetOutput ''badges-count'' (showNat (length ps * length types)),
                 SetOutput ''pr-branch'' (prBranch i)]"
  have w: "apiCalls ws = []"
    unfolding ws_def by (rule apiCalls_none) (auto simp: list_all_iff)
  have ev: "apiCalls evs = []" by (simp add: evs_def)
  have unf: "run_render env i l =
     (if length ps = 0
      then (Return, l @ ws @ [Warning ''No valid products found in input. Nothing to do.''])
      else (Next \<lparr>parsedProducts = ps, badgeTypes = types, badgesMarkdown = md\<rparr>, l @ ws @ evs))"
    unfolding run_render_def Let_def parsed_def[symmetric] ps_def[symmetric] types_def[symmetric]
      md_def[symmetric] ws_def[symmetric] evs_def[symmetric]
    by (simp add: andThen_def emit_def leave_def pure_def)
  from assms have ne: "length ps \<noteq> 0" unfolding unf by (auto split: if_splits)
  from assms ne have r: "r = \<lparr>parsedProducts = ps, badgeTypes = types, badgesMarkdown = md\<rparr>"
    and l': "l' = l @ ws @ evs" unfolding unf by simp_all
  have m1: "SetOutput ''badges-markdown'' md \<in> set (ws @ evs)"
    and m2: "SetOutput ''badges-count'' (showNat (length ps * length types)) \<in> set (ws @ evs)"
    and m3: "SetOutput ''pr-branch'' (prBranch i) \<in> set (ws @ evs)"
    by (simp_all add: evs_def)
  show ?thesis
    apply (rule exI[where x="ws @ evs"])
    using m1 m2 m3 by (simp add: l' r w ev)
qed

lemma run_document_Next:
  "run_document env i r l = (fl, l') \<Longrightarrow> \<exists>es. l' = l @ es \<and> apiCalls es = []"
  by (rule adds_silent[OF adds_run_document]) simp_all

lemma run_token_Next:
  "run_token env l = (fl, l') \<Longrightarrow> \<exists>es. l' = l @ es \<and> apiCalls es = []"
  by (rule adds_silent[OF adds_run_token]) simp_all

lemma run_defaultBranch_Next:
  "run_defaultBranch env l = (fl, l') \<Longrightarrow>
     \<exists>es. l' = l @ es \<and> apiCalls es = [ReposGet (context_owner env) (context_repo env)]"
  by (auto simp: run_defaultBranch_def tryCatch_def call_def andThen_def emit_def pure_def Let_def
        split: sum.splits)

lemma run_getRef_Next:
  "run_getRef env d l = (fl, l') \<Longrightarrow>
     l' = l @ [Api (GitGetRef (context_owner env) (context_repo env) (''heads/'' @ d))]"
  by (auto simp: run_getRef_def call_def Let_def split: sum.splits)

lemma run_setup_Next:
  assumes "run_setup env [] = (Next ctx, log)"
  shows "apiCalls log = [ReposGet (context_owner env) (context_repo env),
                         GitGetRef (context_owner env) (context_repo env)
                           (''heads/'' @ defaultBranch ctx)]"
    and "SetOutput ''badges-markdown'' (badgesMarkdown (rendered ctx)) \<in> set log"
    and "SetOutput ''badges-count''
           (showNat (length (parsedProducts (rendered ctx)) * length (badgeTypes (rendered ctx))))
           \<in> set log"
    and "SetOutput ''pr-branch'' (prBranch (inputs ctx)) \<in> set log"
    and "prBranch (inputs ctx) = orElse (getInput env ''pr-branch'') ''releaserun/badges-update''"
proof -
  from assms[unfolded run_setup_def] obtain i l1 where
    1: "run_inputs env [] = (Next i, l1)" and
    r1: "andThen (run_render env i) (\<lambda>r.
     andThen (run_document env i r) (\<lambda>c.
     andThen (run_token env) (\<lambda>_.
     andThen (run_defaultBranch env) (\<lambda>d.
     andThen (run_getRef env d) (\<lambda>sha.
       pure \<lparr>inputs = i, rendered = r, newContent = c, defaultBranch = d, tipSha = sha\<rparr>))))) l1
       = (Next ctx, log)"
    by (blast dest: andThen_NextD)
  from r1 obtain r l2 where
    2: "run_render env i l1 = (Next r, l2)" and
    r2: "andThen (run_document env i r) (\<lambda>c.
     andThen (run_token env) (\<lambda>_.
     andThen (run_defaultBranch env) (\<lambda>d.
     andThen (run_getRef env d) (\<lambda>sha.
       pure \<lparr>inputs = i, rendered = r, newContent = c, defaultBranch = d, tipSha = sha\<rparr>)))) l2
       = (Next ctx, log)"
    by (blast dest: andThen_NextD)
  from r2 obtain c l3 where
    3: "run_document env i r l2 = (Next c, l3)" and
    r3: "andThen (run_token env) (\<lambda>_.
     andThen (run_defaultBranch env) (\<lambda>d.
     andThen (run_getRef env d) (\<lambda>sha.
       pure \<lparr>inputs = i, rendered = r, newContent = c, defaultBranch = d, tipSha = sha\<rparr>))) l3
       = (Next ctx, log)"
    by (blast dest: andThen_NextD)
  from r3 obtain tok l4 where
    4: "run_token env l3 = (Next tok, l4)" and
    r4: "andThen (run_defaultBranch env) (\<lambda>d.
     andThen (run_getRef env d) (\<lambda>sha.
       pure \<lparr>inputs = i, rendered = r, newContent = c, defaultBranch = d, tipSha = sha\<rparr>)) l4
       = (Next ctx, log)"
    by (blast dest: andThen_NextD)
  from r4 obtain d l5 where
    5: "run_defaultBranch env l4 = (Next d, l5)" and
    r5: "andThen (run_getRef env d) (\<lambda>sha.
       pure \<lparr>inputs = i, rendered = r, newContent = c, defaultBranch = d, tipSha = sha\<rparr>) l5
       = (Next ctx, log)"
    by (blast dest: andThen_NextD)
  from r5 obtain sha l6 where
    6: "run_getRef env d l5 = (Next sha, l6)" and
    r6: "pure \<lparr>inputs = i, rendered = r, newContent = c, defaultBranch = d, tipSha = sha\<rparr> l6
       = (Next ctx, log)"
    by (blast dest: andThen_NextD)
  from r6 have ctx: "ctx = \<lparr>inputs = i, rendered = r, newContent = c, defaultBranch = d, tipSha = sha\<rparr>"
    and l6: "log = l6" by (simp_all add: pure_def)
  from run_inputs_Next[OF 1] have l1: "l1 = []" .
  from run_render_Next[OF 2] obtain e2 where e2: "l2 = l1 @ e2" "apiCalls e2 = []"
    "SetOutput ''badges-markdown'' (badgesMarkdown r) \<in> set e2"
    "SetOutput ''badges-count'' (showNat (length (parsedProducts r) * length (badgeTypes r))) \<in> set e2"
    "SetOutput ''pr-branch'' (prBranch i) \<in> set e2" by blast
  from run_document_Next[OF 3] obtain e3 where e3: "l3 = l2 @ e3" "apiCalls e3 = []" by blast
  from run_token_Next[OF 4] obtain e4 where e4: "l4 = l3 @ e4" "apiCalls e4 = []" by blast
  from run_defaultBranch_Next[OF 5] obtain e5 where e5: "l5 = l4 @ e5"
    "apiCalls e5 = [ReposGet (context_owner env) (context_repo env)]" by blast
  note e6 = run_getRef_Next[OF 6]
  have lg: "log = e2 @ e3 @ e4 @ e5 @ [Api (GitGetRef (context_owner env) (context_repo env) (''heads/'' @ d))]"
    using l6 e6 e5(1) e4(1) e3(1) e2(1) l1 by simp
  show "apiCalls log = [ReposGet (context_owner env) (context_repo env),
                         GitGetRef (context_owner env) (context_repo env)
                           (''heads/'' @ defaultBranch ctx)]"
    by (simp add: lg e2(2) e3(2) e4(2) e5(2) ctx)
  show "SetOutput ''badges-markdown'' (badgesMarkdown (rendered ctx)) \<in> set log"
    using e2(3) by (simp add: lg ctx)
  show "SetOutput ''badges-count''
           (showNat (length (parsedProducts (rendered ctx)) * length (badgeTypes (rendered ctx))))
           \<in> set log"
    using e2(4) by (simp add: lg ctx)
  show "SetOutput ''pr-branch'' (prBranch (inputs ctx)) \<in> set log"
    using e2(5) by (simp add: lg ctx)
  show "prBranch (inputs ctx) = orElse (getInput env ''pr-branch'') ''releaserun/badges-update''"
    using run_inputs_fields[OF 1] by (simp add: ctx)
qed

lemma diverged_setup:
  "isNext (fst (run_setup (testEnv testInputs README_WITH_MARKERS divergedRemote) []))"
  by code_simp

lemma isNextE: "isNext (fst x) \<Longrightarrow> \<exists>a l. x = (Next a, l)"
  by (cases x; cases "fst x") auto

text \<open>
  Claim C1. In every run, no API call is an \<open>updateRef\<close> with \<open>force = true\<close>. The branch
  step creates the ref at the tip commit; when that is rejected it updates the ref to the
  tip commit with \<open>force = false\<close>; when that is rejected too it deletes the ref and creates
  it again at the tip commit. In each of the three cases the step goes on, and a run that has
  reached the branch step continues from the log the step leaves.
\<close>

theorem no_force_push:
  "(\<forall>c\<in>set (apiCalls (run env)). \<forall>ow rp rf sh. c \<noteq> GitUpdateRef ow rp rf sh True)
   \<and> createRefCall env ctx
       = GitCreateRef (context_owner env) (context_repo env)
           (''refs/heads/'' @ prBranch (inputs ctx)) (tipSha ctx)
   \<and> updateRefCall env ctx
       = GitUpdateRef (context_owner env) (context_repo env)
           (''heads/'' @ prBranch (inputs ctx)) (tipSha ctx) False
   \<and> deleteRefCall env ctx
       = GitDeleteRef (context_owner env) (context_repo env) (''heads/'' @ prBranch (inputs ctx))
   \<and> (git_createRef (remote env) (apiCalls log @ [createRefCall env ctx]) = Inr ()
        \<longrightarrow> run_branch env ctx log
              = (Next (), log @ [Api (createRefCall env ctx),
                                 Info (''Created branch '' @ prBranch (inputs ctx))]))
   \<and> (git_createRef (remote env) (apiCalls log @ [createRefCall env ctx]) = Inl e1
        \<and> git_updateRef (remote env)
              (apiCalls log @ [createRefCall env ctx, updateRefCall env ctx]) = Inr ()
        \<longrightarrow> run_branch env ctx log
              = (Next (), log @ [Api (createRefCall env ctx), Api (updateRefCall env ctx),
                                 Info (''Updated branch '' @ prBranch (inputs ctx))]))
   \<and> (git_createRef (remote env) (apiCalls log @ [createRefCall env ctx]) = Inl e1
        \<and> git_updateRef (remote env)
              (apiCalls log @ [createRefCall env ctx, updateRefCall env ctx]) = Inl e2
        \<and> git_deleteRef (remote env)
              (apiCalls log @ [createRefCall env ctx, updateRefCall env ctx,
                               deleteRefCall env ctx]) = Inr ()
        \<and> git_createRef (remote env)
              (apiCalls log @ [createRefCall env ctx, updateRefCall env ctx,
                               deleteRefCall env ctx, createRefCall env ctx]) = Inr ()
        \<longrightarrow> run_branch env ctx log
              = (Next (), log @ [Api (createRefCall env ctx), Api (updateRefCall env ctx)]
                   @ divergedWarnings ctx e2
                   @ [Api (deleteRefCall env ctx), Api (createRefCall env ctx),
                      Info (''Recreated branch '' @ prBranch (inputs ctx) @ '' from ''
                              @ defaultBranch ctx)]))
   \<and> (run_setup env [] = (Next ctx, log) \<and> run_branch env ctx log = (Next (), log')
        \<longrightarrow> prefix log' (run env))"
proof -
  have "list_all (\<lambda>e. \<forall>c. e = Api c \<longrightarrow> (\<forall>ow rp rf sh. c \<noteq> GitUpdateRef ow rp rf sh True)) (run env)"
    by (rule run_events) blast
  from apiCalls_all[OF this]
  have a: "\<forall>c\<in>set (apiCalls (run env)). \<forall>ow rp rf sh. c \<noteq> GitUpdateRef ow rp rf sh True"
    by (simp add: list_all_iff)
  note b = createRefCall_def[of env ctx] updateRefCall_def[of env ctx] deleteRefCall_def[of env ctx]
  note c = run_branch_created[of env log ctx] run_branch_updated[of env log ctx e1]
    run_branch_recreated[of env log ctx e1 e2] run_branch_Next[of env ctx log "()" log']
  from a b c show ?thesis by blast
qed

theorem no_force_push_witness:
  "GitUpdateRef ''test-owner'' ''test-repo'' ''heads/releaserun/badges-update'' ''abc123'' False
     \<in> set (apiCalls (run (testEnv testInputs README_WITH_MARKERS divergedRemote)))
   \<and> GitUpdateRef ''test-owner'' ''test-repo'' ''heads/releaserun/badges-update'' ''abc123'' True
     \<notin> set (apiCalls (run (testEnv testInputs README_WITH_MARKERS divergedRemote)))
   \<and> (\<exists>ctx log.
        run_setup (testEnv testInputs README_WITH_MARKERS divergedRemote) [] = (Next ctx, log)
        \<and> prefix (log @ [Api (createRefCall (testEnv testInputs README_WITH_MARKERS divergedRemote) ctx),
                          Api (updateRefCall (testEnv testInputs README_WITH_MARKERS divergedRemote) ctx)]
                    @ divergedWarnings ctx (Error ''Update is not a fast forward'')
                    @ [Api (deleteRefCall (testEnv testInputs README_WITH_MARKERS divergedRemote) ctx),
                       Api (createRefCall (testEnv testInputs README_WITH_MARKERS divergedRemote) ctx),
                       Info (''Recreated branch '' @ prBranch (inputs ctx) @ '' from ''
                               @ defaultBranch ctx)])
             (run (testEnv testInputs README_WITH_MARKERS divergedRemote)))"
proof -
  let ?E = "testEnv testInputs README_WITH_MARKERS divergedRemote"
  have m: "GitUpdateRef ''test-owner'' ''test-repo'' ''heads/releaserun/badges-update'' ''abc123'' False
     \<in> set (apiCalls (run ?E))"
    by code_simp
  from isNextE[OF diverged_setup] obtain ctx log where s: "run_setup ?E [] = (Next ctx, log)"
    by blast
  from run_setup_Next(1)[OF s] have len: "length (apiCalls log) = 2" by simp
  note t = no_force_push[of ?E ctx log "Error ''Reference already exists''"
             "Error ''Update is not a fast forward''"]
  have n: "GitUpdateRef ''test-owner'' ''test-repo'' ''heads/releaserun/badges-update'' ''abc123'' True
     \<notin> set (apiCalls (run ?E))"
    using t by blast
  have r: "remote ?E = divergedRemote" by (simp add: testEnv_def)
  have c: "git_createRef divergedRemote h
             = (if length h = 3 then Inl (Error ''Reference already exists'') else Inr ())"
    and u: "git_updateRef divergedRemote h = Inl (Error ''Update is not a fast forward'')"
    and d: "git_deleteRef divergedRemote h = Inr ()" for h
    by (simp_all add: divergedRemote_def testRemote_def)
  have h1: "git_createRef (remote ?E) (apiCalls log @ [createRefCall ?E ctx])
              = Inl (Error ''Reference already exists'')"
    unfolding r c using len by simp
  have h2: "git_updateRef (remote ?E) (apiCalls log @ [createRefCall ?E ctx, updateRefCall ?E ctx])
              = Inl (Error ''Update is not a fast forward'')"
    unfolding r u ..
  have h3: "git_deleteRef (remote ?E)
              (apiCalls log @ [createRefCall ?E ctx, updateRefCall ?E ctx, deleteRefCall ?E ctx])
              = Inr ()"
    unfolding r d ..
  have h4: "git_createRef (remote ?E)
              (apiCalls log @ [createRefCall ?E ctx, updateRefCall ?E ctx, deleteRefCall ?E ctx,
                               createRefCall ?E ctx]) = Inr ()"
    unfolding r c using len by simp
  from t h1 h2 h3 h4
  have b: "run_branch ?E ctx log
              = (Next (), log @ [Api (createRefCall ?E ctx), Api (updateRefCall ?E ctx)]
                   @ divergedWarnings ctx (Error ''Update is not a fast forward'')
                   @ [Api (deleteRefCall ?E ctx), Api (createRefCall ?E ctx),
                      Info (''Recreated branch '' @ prBranch (inputs ctx) @ '' from ''
                              @ defaultBranch ctx)])"
    by blast
  from no_force_push[of ?E ctx log _ _ "log @ [Api (createRefCall ?E ctx), Api (updateRefCall ?E ctx)]
                   @ divergedWarnings ctx (Error ''Update is not a fast forward'')
                   @ [Api (deleteRefCall ?E ctx), Api (createRefCall ?E ctx),
                      Info (''Recreated branch '' @ prBranch (inputs ctx) @ '' from ''
                              @ defaultBranch ctx)]"] s b
  have p: "prefix (log @ [Api (createRefCall ?E ctx), Api (updateRefCall ?E ctx)]
                   @ divergedWarnings ctx (Error ''Update is not a fast forward'')
                   @ [Api (deleteRefCall ?E ctx), Api (createRefCall ?E ctx),
                      Info (''Recreated branch '' @ prBranch (inputs ctx) @ '' from ''
                              @ defaultBranch ctx)]) (run ?E)"
    by blast
  from m n s p show ?thesis by blast
qed

lemma protected_setup:
  "isNext (fst (run_setup (testEnv testInputs README_WITH_MARKERS protectedRemote) []))"
  by code_simp

lemma recreateFail_setup:
  "isNext (fst (run_setup (testEnv testInputs README_WITH_MARKERS recreateFailRemote) []))"
  by code_simp

lemma trim_Nil: "trim [] = []"
  by code_simp

lemma testEnv_branch:
  "orElse (getInput (testEnv testInputs doc r) ''pr-branch'') ''releaserun/badges-update''
     = ''releaserun/badges-update''"
  by (simp add: getInput_def testEnv_def testInputs_def orElse_def trim_Nil)

text \<open>
  Claim C2. Take a run that has reached the branch step, in which the creation of the ref and
  its update are both rejected. When the deletion of the ref is rejected, or the deletion
  succeeds and the second creation is rejected, the run ends with a \<open>setFailed\<close> whose
  message names the working branch and asks to delete it by hand. The log of the whole run
  is given: after the rejected call there is only this \<open>setFailed\<close>, and no API call of the
  run commits file content or creates or updates a pull request.
\<close>

theorem recreate_failure_aborts:
  "run_setup env [] = (Next ctx, log)
   \<and> git_createRef (remote env) (apiCalls log @ [createRefCall env ctx]) = Inl e1
   \<and> git_updateRef (remote env)
         (apiCalls log @ [createRefCall env ctx, updateRefCall env ctx]) = Inl e2
   \<longrightarrow>
     (git_deleteRef (remote env)
         (apiCalls log @ [createRefCall env ctx, updateRefCall env ctx, deleteRefCall env ctx])
         = Inl e3
      \<longrightarrow> run env
            = log @ [Api (createRefCall env ctx), Api (updateRefCall env ctx)]
                @ divergedWarnings ctx e2
                @ [Api (deleteRefCall env ctx),
                   SetFailed (''Branch '' @ prBranch (inputs ctx)
                     @ '' has diverged and could not be recreated: '' @ errorMessage e3
                     @ ''. Please manually delete the branch and re-run the action.'')]
          \<and> apiCalls (run env)
            = [ReposGet (context_owner env) (context_repo env),
               GitGetRef (context_owner env) (context_repo env) (''heads/'' @ defaultBranch ctx),
               createRefCall env ctx, updateRefCall env ctx, deleteRefCall env ctx]
          \<and> list_all (\<lambda>c. \<not> commitOf c \<and> \<not> pullRequestWrite c) (apiCalls (run env)))
     \<and> (git_deleteRef (remote env)
         (apiCalls log @ [createRefCall env ctx, updateRefCall env ctx, deleteRefCall env ctx])
         = Inr ()
        \<and> git_createRef (remote env)
         (apiCalls log @ [createRefCall env ctx, updateRefCall env ctx, deleteRefCall env ctx,
                          createRefCall env ctx]) = Inl e3
      \<longrightarrow> run env
            = log @ [Api (createRefCall env ctx), Api (updateRefCall env ctx)]
                @ divergedWarnings ctx e2
                @ [Api (deleteRefCall env ctx), Api (createRefCall env ctx),
                   SetFailed (''Branch '' @ prBranch (inputs ctx)
                     @ '' has diverged and could not be recreated: '' @ errorMessage e3
                     @ ''. Please manually delete the branch and re-run the action.'')]
          \<and> apiCalls (run env)
            = [ReposGet (context_owner env) (context_repo env),
               GitGetRef (context_owner env) (context_repo env) (''heads/'' @ defaultBranch ctx),
               createRefCall env ctx, updateRefCall env ctx, deleteRefCall env ctx,
               createRefCall env ctx]
          \<and> list_all (\<lambda>c. \<not> commitOf c \<and> \<not> pullRequestWrite c) (apiCalls (run env)))"
proof (intro impI, elim conjE)
  assume s: "run_setup env [] = (Next ctx, log)"
    and c: "git_createRef (remote env) (apiCalls log @ [createRefCall env ctx]) = Inl e1"
    and u: "git_updateRef (remote env)
         (apiCalls log @ [createRefCall env ctx, updateRefCall env ctx]) = Inl e2"
  note calls = run_setup_Next(1)[OF s]
  have w: "apiCalls (divergedWarnings ctx e2) = []" by (simp add: divergedWarnings_def)
  have m: "recreateFailure ctx e3 = ''Branch '' @ prBranch (inputs ctx)
                     @ '' has diverged and could not be recreated: '' @ errorMessage e3
                     @ ''. Please manually delete the branch and re-run the action.''"
    by (simp add: recreateFailure_def)
  have k: "\<not> commitOf (createRefCall env ctx) \<and> \<not> pullRequestWrite (createRefCall env ctx)
      \<and> \<not> commitOf (updateRefCall env ctx) \<and> \<not> pullRequestWrite (updateRefCall env ctx)
      \<and> \<not> commitOf (deleteRefCall env ctx) \<and> \<not> pullRequestWrite (deleteRefCall env ctx)"
    by (simp add: createRefCall_def updateRefCall_def deleteRefCall_def)
  have A: "run env
            = log @ [Api (createRefCall env ctx), Api (updateRefCall env ctx)]
                @ divergedWarnings ctx e2
                @ [Api (deleteRefCall env ctx),
                   SetFailed (''Branch '' @ prBranch (inputs ctx)
                     @ '' has diverged and could not be recreated: '' @ errorMessage e3
                     @ ''. Please manually delete the branch and re-run the action.'')]
          \<and> apiCalls (run env)
            = [ReposGet (context_owner env) (context_repo env),
               GitGetRef (context_owner env) (context_repo env) (''heads/'' @ defaultBranch ctx),
               createRefCall env ctx, updateRefCall env ctx, deleteRefCall env ctx]
          \<and> list_all (\<lambda>c. \<not> commitOf c \<and> \<not> pullRequestWrite c) (apiCalls (run env))"
    if d: "git_deleteRef (remote env)
         (apiCalls log @ [createRefCall env ctx, updateRefCall env ctx, deleteRefCall env ctx])
         = Inl e3"
  proof -
    from run_branch_Return[OF s run_branch_delete_failed[OF c u d]]
    have r: "run env = log @ [Api (createRefCall env ctx), Api (updateRefCall env ctx)]
                @ divergedWarnings ctx e2
                @ [Api (deleteRefCall env ctx), SetFailed (recreateFailure ctx e3)]" .
    then have a: "apiCalls (run env)
            = [ReposGet (context_owner env) (context_repo env),
               GitGetRef (context_owner env) (context_repo env) (''heads/'' @ defaultBranch ctx),
               createRefCall env ctx, updateRefCall env ctx, deleteRefCall env ctx]"
      by (simp add: calls w)
    have la: "list_all (\<lambda>c. \<not> commitOf c \<and> \<not> pullRequestWrite c) (apiCalls (run env))"
      unfolding a using k by simp
    from r[unfolded m] a la show ?thesis by blast
  qed
  have B: "run env
            = log @ [Api (createRefCall env ctx), Api (updateRefCall env ctx)]
                @ divergedWarnings ctx e2
                @ [Api (deleteRefCall env ctx), Api (createRefCall env ctx),
                   SetFailed (''Branch '' @ prBranch (inputs ctx)
                     @ '' has diverged and could not be recreated: '' @ errorMessage e3
                     @ ''. Please manually delete the branch and re-run the action.'')]
          \<and> apiCalls (run env)
            = [ReposGet (context_owner env) (context_repo env),
               GitGetRef (context_owner env) (context_repo env) (''heads/'' @ defaultBranch ctx),
               createRefCall env ctx, updateRefCall env ctx, deleteRefCall env ctx,
               createRefCall env ctx]
          \<and> list_all (\<lambda>c. \<not> commitOf c \<and> \<not> pullRequestWrite c) (apiCalls (run env))"
    if d: "git_deleteRef (remote env)
         (apiCalls log @ [createRefCall env ctx, updateRefCall env ctx, deleteRefCall env ctx])
         = Inr ()"
      and c2: "git_createRef (remote env)
         (apiCalls log @ [createRefCall env ctx, updateRefCall env ctx, deleteRefCall env ctx,
                          createRefCall env ctx]) = Inl e3"
  proof -
    from run_branch_Return[OF s run_branch_recreate_failed[OF c u d c2]]
    have r: "run env = log @ [Api (createRefCall env ctx), Api (updateRefCall env ctx)]
                @ divergedWarnings ctx e2
                @ [Api (deleteRefCall env ctx), Api (createRefCall env ctx),
                   SetFailed (recreateFailure ctx e3)]" .
    then have a: "apiCalls (run env)
            = [ReposGet (context_owner env) (context_repo env),
               GitGetRef (context_owner env) (context_repo env) (''heads/'' @ defaultBranch ctx),
               createRefCall env ctx, updateRefCall env ctx, deleteRefCall env ctx,
               createRefCall env ctx]"
      by (simp add: calls w)
    have la: "list_all (\<lambda>c. \<not> commitOf c \<and> \<not> pullRequestWrite c) (apiCalls (run env))"
      unfolding a using k by simp
    from r[unfolded m] a la show ?thesis by blast
  qed
  from A B show "(git_deleteRef (remote env)
         (apiCalls log @ [createRefCall env ctx, updateRefCall env ctx, deleteRefCall env ctx])
         = Inl e3
      \<longrightarrow> run env
            = log @ [Api (createRefCall env ctx), Api (updateRefCall env ctx)]
                @ divergedWarnings ctx e2
                @ [Api (deleteRefCall env ctx),
                   SetFailed (''Branch '' @ prBranch (inputs ctx)
                     @ '' has diverged and could not be recreated: '' @ errorMessage e3
                     @ ''. Please manually delete the branch and re-run the action.'')]
          \<and> apiCalls (run env)
            = [ReposGet (context_owner env) (context_repo env),
               GitGetRef (context_owner env) (context_repo env) (''heads/'' @ defaultBranch ctx),
               createRefCall env ctx, updateRefCall env ctx, deleteRefCall env ctx]
          \<and> list_all (\<lambda>c. \<not> commitOf c \<and> \<not> pullRequestWrite c) (apiCalls (run env)))
     \<and> (git_deleteRef (remote env)
         (apiCalls log @ [createRefCall env ctx, updateRefCall env ctx, deleteRefCall env ctx])
         = Inr ()
        \<and> git_createRef (remote env)
         (apiCalls log @ [createRefCall env ctx, updateRefCall env ctx, deleteRefCall env ctx,
                          createRefCall env ctx]) = Inl e3
      \<longrightarrow> run env
            = log @ [Api (createRefCall env ctx), Api (updateRefCall env ctx)]
                @ divergedWarnings ctx e2
                @ [Api (deleteRefCall env ctx), Api (createRefCall env ctx),
                   SetFailed (''Branch '' @ prBranch (inputs ctx)
                     @ '' has diverged and could not be recreated: '' @ errorMessage e3
                     @ ''. Please manually delete the branch and re-run the action.'')]
          \<and> apiCalls (run env)
            = [ReposGet (context_owner env) (context_repo env),
               GitGetRef (context_owner env) (context_repo env) (''heads/'' @ defaultBranch ctx),
               createRefCall env ctx, updateRefCall env ctx, deleteRefCall env ctx,
               createRefCall env ctx]
          \<and> list_all (\<lambda>c. \<not> commitOf c \<and> \<not> pullRequestWrite c) (apiCalls (run env)))"
    by blast
qed

theorem recreate_failure_aborts_witness:
  "(\<exists>ctx log.
      run_setup (testEnv testInputs README_WITH_MARKERS protectedRemote) [] = (Next ctx, log)
      \<and> git_deleteRef (remote (testEnv testInputs README_WITH_MARKERS protectedRemote))
            (apiCalls log @ [createRefCall (testEnv testInputs README_WITH_MARKERS protectedRemote) ctx,
                             updateRefCall (testEnv testInputs README_WITH_MARKERS protectedRemote) ctx,
                             deleteRefCall (testEnv testInputs README_WITH_MARKERS protectedRemote) ctx])
          = Inl (Error ''Protected branch'')
      \<and> last (run (testEnv testInputs README_WITH_MARKERS protectedRemote))
          = SetFailed ''Branch releaserun/badges-update has diverged and could not be recreated: Protected branch. Please manually delete the branch and re-run the action.''
      \<and> length (apiCalls (run (testEnv testInputs README_WITH_MARKERS protectedRemote))) = 5)
   \<and> (\<exists>ctx log.
      run_setup (testEnv testInputs README_WITH_MARKERS recreateFailRemote) [] = (Next ctx, log)
      \<and> git_createRef (remote (testEnv testInputs README_WITH_MARKERS recreateFailRemote))
            (apiCalls log @ [createRefCall (testEnv testInputs README_WITH_MARKERS recreateFailRemote) ctx,
                             updateRefCall (testEnv testInputs README_WITH_MARKERS recreateFailRemote) ctx,
                             deleteRefCall (testEnv testInputs README_WITH_MARKERS recreateFailRemote) ctx,
                             createRefCall (testEnv testInputs README_WITH_MARKERS recreateFailRemote) ctx])
          = Inl (Error ''Reference already exists'')
      \<and> last (run (testEnv testInputs README_WITH_MARKERS recreateFailRemote))
          = SetFailed ''Branch releaserun/badges-update has diverged and could not be recreated: Reference already exists. Please manually delete the branch and re-run the action.''
      \<and> length (apiCalls (run (testEnv testInputs README_WITH_MARKERS recreateFailRemote))) = 6)"
proof -
  let ?P = "testEnv testInputs README_WITH_MARKERS protectedRemote"
  let ?R = "testEnv testInputs README_WITH_MARKERS recreateFailRemote"
  have rp: "remote ?P = protectedRemote" and rr: "remote ?R = recreateFailRemote"
    by (simp_all add: testEnv_def)
  have pc: "git_createRef protectedRemote h = Inl (Error ''Reference already exists'')"
    and pu: "git_updateRef protectedRemote h = Inl (Error ''Not fast forward'')"
    and pd: "git_deleteRef protectedRemote h = Inl (Error ''Protected branch'')" for h
    by (simp_all add: protectedRemote_def testRemote_def)
  have rc: "git_createRef recreateFailRemote h = Inl (Error ''Reference already exists'')"
    and ru: "git_updateRef recreateFailRemote h = Inl (Error ''Not fast forward'')"
    and rd: "git_deleteRef recreateFailRemote h = Inr ()" for h
    by (simp_all add: recreateFailRemote_def testRemote_def)
  from isNextE[OF protected_setup] obtain ctx log where s: "run_setup ?P [] = (Next ctx, log)"
    by blast
  have b: "prBranch (inputs ctx) = ''releaserun/badges-update''"
    using run_setup_Next(5)[OF s] by (simp only: testEnv_branch)
  from recreate_failure_aborts[of ?P ctx log "Error ''Reference already exists''"
         "Error ''Not fast forward''" "Error ''Protected branch''"] s
  have p1: "run ?P
            = log @ [Api (createRefCall ?P ctx), Api (updateRefCall ?P ctx)]
                @ divergedWarnings ctx (Error ''Not fast forward'')
                @ [Api (deleteRefCall ?P ctx),
                   SetFailed (''Branch '' @ prBranch (inputs ctx)
                     @ '' has diverged and could not be recreated: ''
                     @ errorMessage (Error ''Protected branch'')
                     @ ''. Please manually delete the branch and re-run the action.'')]"
    and p2: "apiCalls (run ?P)
            = [ReposGet (context_owner ?P) (context_repo ?P),
               GitGetRef (context_owner ?P) (context_repo ?P) (''heads/'' @ defaultBranch ctx),
               createRefCall ?P ctx, updateRefCall ?P ctx, deleteRefCall ?P ctx]"
    unfolding rp pc pu pd by blast+
  have P: "\<exists>ctx log.
      run_setup ?P [] = (Next ctx, log)
      \<and> git_deleteRef (remote ?P)
            (apiCalls log @ [createRefCall ?P ctx, updateRefCall ?P ctx, deleteRefCall ?P ctx])
          = Inl (Error ''Protected branch'')
      \<and> last (run ?P)
          = SetFailed ''Branch releaserun/badges-update has diverged and could not be recreated: Protected branch. Please manually delete the branch and re-run the action.''
      \<and> length (apiCalls (run ?P)) = 5"
    apply (rule exI[where x=ctx], rule exI[where x=log])
    apply (simp only: s rp pd p2 simp_thms)
    apply (simp add: p1 b)
    done
  from isNextE[OF recreateFail_setup] obtain ctx' log' where s': "run_setup ?R [] = (Next ctx', log')"
    by blast
  have b': "prBranch (inputs ctx') = ''releaserun/badges-update''"
    using run_setup_Next(5)[OF s'] by (simp only: testEnv_branch)
  from recreate_failure_aborts[of ?R ctx' log' "Error ''Reference already exists''"
         "Error ''Not fast forward''" "Error ''Reference already exists''"] s'
  have q1: "run ?R
            = log' @ [Api (createRefCall ?R ctx'), Api (updateRefCall ?R ctx')]
                @ divergedWarnings ctx' (Error ''Not fast forward'')
                @ [Api (deleteRefCall ?R ctx'), Api (createRefCall ?R ctx'),
                   SetFailed (''Branch '' @ prBranch (inputs ctx')
                     @ '' has diverged and could not be recreated: ''
                     @ errorMessage (Error ''Reference already exists'')
                     @ ''. Please manually delete the branch and re-run the action.'')]"
    and q2: "apiCalls (run ?R)
            = [ReposGet (context_owner ?R) (context_repo ?R),
               GitGetRef (context_owner ?R) (context_repo ?R) (''heads/'' @ defaultBranch ctx'),
               createRefCall ?R ctx', updateRefCall ?R ctx', deleteRefCall ?R ctx',
               createRefCall ?R ctx']"
    unfolding rr rc ru rd by blast+
  have R: "\<exists>ctx log.
      run_setup ?R [] = (Next ctx, log)
      \<and> git_createRef (remote ?R)
            (apiCalls log @ [createRefCall ?R ctx, updateRefCall ?R ctx, deleteRefCall ?R ctx,
                             createRefCall ?R ctx])
          = Inl (Error ''Reference already exists'')
      \<and> last (run ?R)
          = SetFailed ''Branch releaserun/badges-update has diverged and could not be recreated: Reference already exists. Please manually delete the branch and re-run the action.''
      \<and> length (apiCalls (run ?R)) = 6"
    apply (rule exI[where x=ctx'], rule exI[where x=log'])
    apply (simp only: s' rr rc q2 simp_thms)
    apply (simp add: q1 b')
    done
  from P R show ?thesis by (rule conjI)
qed

text \<open>The commit step and what follows it.\<close>

lemma filter_apiCalls_none:
  "list_all (\<lambda>e. \<forall>c. e = Api c \<longrightarrow> \<not> Q c) es \<Longrightarrow> filter Q (apiCalls es) = []"
proof (induction es)
  case Nil then show ?case by simp
next
  case (Cons e es)
  then show ?case by (cases e) auto
qed

lemma run_fileSha_eq:
  "run_fileSha env ctx l
     = (Next (fetchedSha env (apiCalls l @ [getContentCall env ctx])),
        l @ [Api (getContentCall env ctx)])"
  by (simp add: run_fileSha_def tryCatch_def andThen_def call_def pure_def fetchedSha_def Let_def
        split: sum.splits)

lemma run_commit_second_failed:
  assumes "repos_createOrUpdateFileContents (remote env) (apiCalls l @ [commitCall env ctx fileSha])
             = Inl e1"
    and "repos_createOrUpdateFileContents (remote env)
           (apiCalls l @ [commitCall env ctx fileSha, getContentCall env ctx,
              commitCall env ctx
                (fetchedSha env (apiCalls l @ [commitCall env ctx fileSha, getContentCall env ctx]))])
             = Inl e2"
  shows "run_commit env ctx fileSha l
           = (Throw e2,
              l @ [Api (commitCall env ctx fileSha),
                   Warning (''File content update failed, retrying once: '' @ errorMessage e1),
                   Api (getContentCall env ctx),
                   Api (commitCall env ctx
                     (fetchedSha env (apiCalls l @ [commitCall env ctx fileSha, getContentCall env ctx])))])"
  using assms
  by (simp add: run_commit_def tryCatch_def andThen_def call_def emit_def Let_def run_fileSha_eq)

lemma run_commit_second_ok:
  assumes "repos_createOrUpdateFileContents (remote env) (apiCalls l @ [commitCall env ctx fileSha])
             = Inl e1"
    and "repos_createOrUpdateFileContents (remote env)
           (apiCalls l @ [commitCall env ctx fileSha, getContentCall env ctx,
              commitCall env ctx
                (fetchedSha env (apiCalls l @ [commitCall env ctx fileSha, getContentCall env ctx]))])
             = Inr v"
  shows "run_commit env ctx fileSha l
           = (Next (),
              l @ [Api (commitCall env ctx fileSha),
                   Warning (''File content update failed, retrying once: '' @ errorMessage e1),
                   Api (getContentCall env ctx),
                   Api (commitCall env ctx
                     (fetchedSha env (apiCalls l @ [commitCall env ctx fileSha, getContentCall env ctx]))),
                   Info ''Committed badge updates.''])"
  using assms
  by (simp add: run_commit_def tryCatch_def andThen_def call_def emit_def Let_def run_fileSha_eq)

lemma run_commit_Throw:
  assumes "run_setup env [] = (Next ctx, log0)" "run_branch env ctx log0 = (Next u, log1)"
    "run_fileSha env ctx log1 = (Next fileSha, log2)"
    "run_commit env ctx fileSha log2 = (Throw t, log3)"
  shows "run env = log3 @ [SetFailed (unexpected t)]"
  using assms by (simp add: run_def run_body_def andThen_def)

lemma run_commit_Next:
  assumes "run_setup env [] = (Next ctx, log0)" "run_branch env ctx log0 = (Next u, log1)"
    "run_fileSha env ctx log1 = (Next fileSha, log2)"
    "run_commit env ctx fileSha log2 = (Next v, log3)"
  shows "\<exists>es. run env = log3 @ es \<and> filter commitOf (apiCalls es) = []"
proof -
  let ?P = "\<lambda>e. \<forall>c. e = Api c \<longrightarrow> \<not> commitOf c"
  have b: "run_body env [] = run_pr env ctx log3"
    using assms by (simp add: run_body_def andThen_def)
  have "adds ?P (run_pr env ctx)" by (rule adds_run_pr) simp_all
  then obtain es where es: "snd (run_pr env ctx log3) = log3 @ es" "list_all ?P es"
    unfolding adds_def by blast
  have f: "filter commitOf (apiCalls es) = []" by (rule filter_apiCalls_none[OF es(2)])
  show ?thesis
  proof (cases "run_pr env ctx log3")
    case (Pair fl l)
    with es(1) have l: "l = log3 @ es" by simp
    show ?thesis
    proof (cases fl)
      case (Throw t)
      with Pair b l have "run env = log3 @ (es @ [SetFailed (unexpected t)])" by (simp add: run_def)
      moreover have "filter commitOf (apiCalls (es @ [SetFailed (unexpected t)])) = []"
        using f by simp
      ultimately show ?thesis by blast
    next
      case Return
      with Pair b l f show ?thesis by (auto simp: run_def)
    next
      case (Next a)
      with Pair b l f show ?thesis by (auto simp: run_def)
    qed
  qed
qed

lemma no_commit_before:
  assumes "run_setup env [] = (Next ctx, log0)" "run_branch env ctx log0 = (fl, log1)"
    "run_fileSha env ctx log1 = (fl', log2)"
  shows "filter commitOf (apiCalls log2) = []" and "set log0 \<subseteq> set log2"
proof -
  let ?P = "\<lambda>e. \<forall>c. e = Api c \<longrightarrow> \<not> commitOf c"
  have "adds ?P (run_branch env ctx)" by (rule adds_run_branch) simp_all
  then obtain es where es: "snd (run_branch env ctx log0) = log0 @ es" "list_all ?P es"
    unfolding adds_def by blast
  with assms(2) have l1: "log1 = log0 @ es" by simp
  from assms(3) have l2: "log2 = log1 @ [Api (getContentCall env ctx)]"
    by (simp add: run_fileSha_eq)
  have "filter commitOf (apiCalls log0) = []"
    by (simp add: run_setup_Next(1)[OF assms(1)])
  moreover have "filter commitOf (apiCalls es) = []" by (rule filter_apiCalls_none[OF es(2)])
  ultimately show "filter commitOf (apiCalls log2) = []"
    by (simp add: l1 l2 getContentCall_def)
  show "set log0 \<subseteq> set log2" by (auto simp: l1 l2)
qed

lemma failingCommit_setup:
  "isNext (fst (run_setup (testEnv testInputs README_WITH_MARKERS failingCommitRemote) []))"
  by code_simp

text \<open>
  Claim C3. Take a run that has reached the commit step and whose first commit of the file
  content is rejected. Then the run goes on with a warning, a new \<open>getContent\<close> call and a
  second commit whose revision marker is the one read from the answer to that new call; the
  whole run contains these two commits and no other, so there is exactly one retry. When
  the second commit is rejected too, \<open>run_commit\<close> throws, the handler at the end of \<open>run\<close>
  reports it by \<open>setFailed\<close> and nothing follows, and the outputs \<open>badges-markdown\<close>,
  \<open>badges-count\<close> and \<open>pr-branch\<close> set earlier are in the log of the run.
\<close>

theorem commit_retry:
  "run_setup env [] = (Next ctx, log0) \<and> run_branch env ctx log0 = (Next (), log1)
   \<and> run_fileSha env ctx log1 = (Next fileSha, log2)
   \<and> repos_createOrUpdateFileContents (remote env) (apiCalls log2 @ [commitCall env ctx fileSha])
       = Inl e1
   \<longrightarrow>
   (let retrySha = fetchedSha env
          (apiCalls log2 @ [commitCall env ctx fileSha, getContentCall env ctx]);
        attempts =
          [Api (commitCall env ctx fileSha),
           Warning (''File content update failed, retrying once: '' @ errorMessage e1),
           Api (getContentCall env ctx),
           Api (commitCall env ctx retrySha)]
    in prefix (log2 @ attempts) (run env)
       \<and> filter commitOf (apiCalls (run env))
           = [commitCall env ctx fileSha, commitCall env ctx retrySha]
       \<and> (repos_createOrUpdateFileContents (remote env)
             (apiCalls log2 @ [commitCall env ctx fileSha, getContentCall env ctx,
                               commitCall env ctx retrySha]) = Inl e2
           \<longrightarrow> run_commit env ctx fileSha log2 = (Throw e2, log2 @ attempts)
               \<and> run env = log2 @ attempts @ [SetFailed (unexpected e2)]
               \<and> SetOutput ''badges-markdown'' (badgesMarkdown (rendered ctx)) \<in> set (run env)
               \<and> SetOutput ''badges-count''
                    (showNat (length (parsedProducts (rendered ctx))
                                * length (badgeTypes (rendered ctx)))) \<in> set (run env)
               \<and> SetOutput ''pr-branch'' (prBranch (inputs ctx)) \<in> set (run env)))"
proof (intro impI, elim conjE)
  assume s: "run_setup env [] = (Next ctx, log0)"
    and b: "run_branch env ctx log0 = (Next (), log1)"
    and f: "run_fileSha env ctx log1 = (Next fileSha, log2)"
    and c1: "repos_createOrUpdateFileContents (remote env)
               (apiCalls log2 @ [commitCall env ctx fileSha]) = Inl e1"
  define retrySha where "retrySha = fetchedSha env
          (apiCalls log2 @ [commitCall env ctx fileSha, getContentCall env ctx])"
  define attempts where "attempts =
          [Api (commitCall env ctx fileSha),
           Warning (''File content update failed, retrying once: '' @ errorMessage e1),
           Api (getContentCall env ctx),
           Api (commitCall env ctx retrySha)]"
  note before = no_commit_before[OF s b f]
  have ca: "filter commitOf (apiCalls attempts)
              = [commitCall env ctx fileSha, commitCall env ctx retrySha]"
    by (simp add: attempts_def commitCall_def getContentCall_def)
  have outs: "SetOutput ''badges-markdown'' (badgesMarkdown (rendered ctx)) \<in> set log2"
    "SetOutput ''badges-count''
       (showNat (length (parsedProducts (rendered ctx)) * length (badgeTypes (rendered ctx))))
       \<in> set log2"
    "SetOutput ''pr-branch'' (prBranch (inputs ctx)) \<in> set log2"
    using run_setup_Next(2,3,4)[OF s] before(2) by blast+
  have main: "prefix (log2 @ attempts) (run env)
       \<and> filter commitOf (apiCalls (run env))
           = [commitCall env ctx fileSha, commitCall env ctx retrySha]
       \<and> (repos_createOrUpdateFileContents (remote env)
             (apiCalls log2 @ [commitCall env ctx fileSha, getContentCall env ctx,
                               commitCall env ctx retrySha]) = Inl e2
           \<longrightarrow> run_commit env ctx fileSha log2 = (Throw e2, log2 @ attempts)
               \<and> run env = log2 @ attempts @ [SetFailed (unexpected e2)]
               \<and> SetOutput ''badges-markdown'' (badgesMarkdown (rendered ctx)) \<in> set (run env)
               \<and> SetOutput ''badges-count''
                    (showNat (length (parsedProducts (rendered ctx))
                                * length (badgeTypes (rendered ctx)))) \<in> set (run env)
               \<and> SetOutput ''pr-branch'' (prBranch (inputs ctx)) \<in> set (run env))"
  proof (cases "repos_createOrUpdateFileContents (remote env)
             (apiCalls log2 @ [commitCall env ctx fileSha, getContentCall env ctx,
                               commitCall env ctx retrySha])")
    case (Inl t)
    from run_commit_second_failed[OF c1 Inl[unfolded retrySha_def]]
    have rc: "run_commit env ctx fileSha log2 = (Throw t, log2 @ attempts)"
      by (simp add: attempts_def retrySha_def)
    from run_commit_Throw[OF s b f rc]
    have r: "run env = log2 @ attempts @ [SetFailed (unexpected t)]" by simp
    have p: "prefix (log2 @ attempts) (run env)" unfolding r by (simp add: prefix_def)
    have fc: "filter commitOf (apiCalls (run env))
           = [commitCall env ctx fileSha, commitCall env ctx retrySha]"
      by (simp add: r before(1) ca)
    have o: "set log2 \<subseteq> set (run env)" unfolding r by auto
    from p fc rc r o outs Inl show ?thesis by auto
  next
    case (Inr v)
    from run_commit_second_ok[OF c1 Inr[unfolded retrySha_def]]
    have rc: "run_commit env ctx fileSha log2
                = (Next (), log2 @ attempts @ [Info ''Committed badge updates.''])"
      by (simp add: attempts_def retrySha_def)
    from run_commit_Next[OF s b f rc] obtain es where
      r: "run env = (log2 @ attempts @ [Info ''Committed badge updates.'']) @ es"
      and es: "filter commitOf (apiCalls es) = []" by blast
    have p: "prefix (log2 @ attempts) (run env)" unfolding r by (simp add: prefix_def)
    have fc: "filter commitOf (apiCalls (run env))
           = [commitCall env ctx fileSha, commitCall env ctx retrySha]"
      by (simp add: r before(1) ca es)
    from p fc Inr show ?thesis by simp
  qed
  show "(let retrySha = fetchedSha env
          (apiCalls log2 @ [commitCall env ctx fileSha, getContentCall env ctx]);
        attempts =
          [Api (commitCall env ctx fileSha),
           Warning (''File content update failed, retrying once: '' @ errorMessage e1),
           Api (getContentCall env ctx),
           Api (commitCall env ctx retrySha)]
    in prefix (log2 @ attempts) (run env)
       \<and> filter commitOf (apiCalls (run env))
           = [commitCall env ctx fileSha, commitCall env ctx retrySha]
       \<and> (repos_createOrUpdateFileContents (remote env)
             (apiCalls log2 @ [commitCall env ctx fileSha, getContentCall env ctx,
                               commitCall env ctx retrySha]) = Inl e2
           \<longrightarrow> run_commit env ctx fileSha log2 = (Throw e2, log2 @ attempts)
               \<and> run env = log2 @ attempts @ [SetFailed (unexpected e2)]
               \<and> SetOutput ''badges-markdown'' (badgesMarkdown (rendered ctx)) \<in> set (run env)
               \<and> SetOutput ''badges-count''
                    (showNat (length (parsedProducts (rendered ctx))
                                * length (badgeTypes (rendered ctx)))) \<in> set (run env)
               \<and> SetOutput ''pr-branch'' (prBranch (inputs ctx)) \<in> set (run env)))"
    unfolding Let_def retrySha_def[symmetric] attempts_def[symmetric] by (rule main)
qed

theorem commit_retry_witness:
  "\<exists>ctx log0 log1 fileSha log2.
     run_setup (testEnv testInputs README_WITH_MARKERS failingCommitRemote) [] = (Next ctx, log0)
     \<and> run_branch (testEnv testInputs README_WITH_MARKERS failingCommitRemote) ctx log0
         = (Next (), log1)
     \<and> run_fileSha (testEnv testInputs README_WITH_MARKERS failingCommitRemote) ctx log1
         = (Next fileSha, log2)
     \<and> repos_createOrUpdateFileContents
           (remote (testEnv testInputs README_WITH_MARKERS failingCommitRemote))
           (apiCalls log2
              @ [commitCall (testEnv testInputs README_WITH_MARKERS failingCommitRemote) ctx fileSha])
         = Inl (Error ''Server Error'')
     \<and> fileSha = Some ''file-sha-123''
     \<and> run (testEnv testInputs README_WITH_MARKERS failingCommitRemote)
         = log2
           @ [Api (commitCall (testEnv testInputs README_WITH_MARKERS failingCommitRemote) ctx fileSha),
              Warning ''File content update failed, retrying once: Server Error'',
              Api (getContentCall (testEnv testInputs README_WITH_MARKERS failingCommitRemote) ctx),
              Api (commitCall (testEnv testInputs README_WITH_MARKERS failingCommitRemote) ctx
                     (Some ''file-sha-123''))]
           @ [SetFailed ''Server Error'']
     \<and> length (filter commitOf
                 (apiCalls (run (testEnv testInputs README_WITH_MARKERS failingCommitRemote)))) = 2
     \<and> SetOutput ''badges-markdown'' (badgesMarkdown (rendered ctx))
         \<in> set (run (testEnv testInputs README_WITH_MARKERS failingCommitRemote))
     \<and> SetOutput ''pr-branch'' (prBranch (inputs ctx))
         \<in> set (run (testEnv testInputs README_WITH_MARKERS failingCommitRemote))"
proof -
  let ?E = "testEnv testInputs README_WITH_MARKERS failingCommitRemote"
  have r: "remote ?E = failingCommitRemote" by (simp add: testEnv_def)
  have cr: "git_createRef failingCommitRemote h = Inr ()"
    and gc: "repos_getContent failingCommitRemote h = Inr (Entry ''file'' ''file-sha-123'')"
    and cm: "repos_createOrUpdateFileContents failingCommitRemote h = Inl (Error ''Server Error'')"
    for h
    by (simp_all add: failingCommitRemote_def testRemote_def)
  have fs: "fetchedSha ?E h = Some ''file-sha-123''" for h
    by (simp add: fetchedSha_def r gc)
  from isNextE[OF failingCommit_setup] obtain ctx log0 where s: "run_setup ?E [] = (Next ctx, log0)"
    by blast
  define log1 where "log1 = log0 @ [Api (createRefCall ?E ctx),
                                    Info (''Created branch '' @ prBranch (inputs ctx))]"
  define log2 where "log2 = log1 @ [Api (getContentCall ?E ctx)]"
  have b: "run_branch ?E ctx log0 = (Next (), log1)"
    unfolding log1_def by (rule run_branch_created) (simp add: r cr)
  have f: "run_fileSha ?E ctx log1 = (Next (Some ''file-sha-123''), log2)"
    by (simp add: run_fileSha_eq fs log2_def)
  have c1: "repos_createOrUpdateFileContents (remote ?E)
              (apiCalls log2 @ [commitCall ?E ctx (Some ''file-sha-123'')])
            = Inl (Error ''Server Error'')"
    by (simp add: r cm)
  have c2: "repos_createOrUpdateFileContents (remote ?E)
              (apiCalls log2 @ [commitCall ?E ctx (Some ''file-sha-123''), getContentCall ?E ctx,
                 commitCall ?E ctx (Some ''file-sha-123'')])
            = Inl (Error ''Server Error'')"
    by (simp add: r cm)
  note t = commit_retry[of ?E ctx log0 log1 "Some ''file-sha-123''" log2 "Error ''Server Error''"
         "Error ''Server Error''", unfolded Let_def fs]
  from t s b f c1 c2
  have run0: "run ?E = log2
           @ [Api (commitCall ?E ctx (Some ''file-sha-123'')),
              Warning (''File content update failed, retrying once: ''
                         @ errorMessage (Error ''Server Error'')),
              Api (getContentCall ?E ctx),
              Api (commitCall ?E ctx (Some ''file-sha-123''))]
           @ [SetFailed (unexpected (Error ''Server Error''))]"
    and two: "filter commitOf (apiCalls (run ?E))
                = [commitCall ?E ctx (Some ''file-sha-123''), commitCall ?E ctx (Some ''file-sha-123'')]"
    and o1: "SetOutput ''badges-markdown'' (badgesMarkdown (rendered ctx)) \<in> set (run ?E)"
    and o2: "SetOutput ''pr-branch'' (prBranch (inputs ctx)) \<in> set (run ?E)"
    by blast+
  from run0 have run: "run ?E = log2
           @ [Api (commitCall ?E ctx (Some ''file-sha-123'')),
              Warning ''File content update failed, retrying once: Server Error'',
              Api (getContentCall ?E ctx),
              Api (commitCall ?E ctx (Some ''file-sha-123''))]
           @ [SetFailed ''Server Error'']"
    by simp
  from two have len: "length (filter commitOf (apiCalls (run ?E))) = 2" by simp
  show ?thesis
    apply (rule exI[where x=ctx], rule exI[where x=log0], rule exI[where x=log1],
           rule exI[where x="Some ''file-sha-123''"], rule exI[where x=log2])
    using s b f c1 run len o1 o2 by blast
qed

text \<open>A document that is already up to date.\<close>

lemma substring_middle: "substring (a @ b @ c) (length a) (length a + length b) = b"
  by (simp add: substring_def Let_def)

lemma splice_fixed_point:
  assumes s: "indexOf doc START_MARKER = Some s" and e: "indexOf doc END_MARKER = Some e"
    and lt: "s < e"
    and mid: "substring doc (s + length START_MARKER) e = NL @ m @ NL"
  shows "content (updateReadmeContent doc m) = doc"
    and "markersFound (updateReadmeContent doc m)"
    and "\<not> updated (updateReadmeContent doc m)"
proof -
  from updateReadmeContent_present[OF s e lt, of m] obtain pre md post where
    d: "doc = pre @ START_MARKER @ md @ END_MARKER @ post"
    and lp: "length pre = s" and le: "length (pre @ START_MARKER @ md) = e"
    and c: "content (updateReadmeContent doc m) = pre @ START_MARKER @ NL @ m @ NL @ END_MARKER @ post"
    and mf: "markersFound (updateReadmeContent doc m)"
    and u: "updated (updateReadmeContent doc m) = (content (updateReadmeContent doc m) \<noteq> doc)"
    by blast
  from le lp have e': "e = s + length START_MARKER + length md" by simp
  have "substring ((pre @ START_MARKER) @ md @ (END_MARKER @ post)) (length (pre @ START_MARKER))
          (length (pre @ START_MARKER) + length md) = md"
    by (rule substring_middle)
  then have "substring doc (s + length START_MARKER) e = md"
    using d lp e' by simp
  with mid have "md = NL @ m @ NL" by simp
  with c d show "content (updateReadmeContent doc m) = doc" by simp
  with u show "\<not> updated (updateReadmeContent doc m)" by simp
  from mf show "markersFound (updateReadmeContent doc m)" .
qed

lemma run_document_unchanged:
  assumes "readFileSync env (fullPath i) = Inr doc"
    and "markersFound (updateReadmeContent doc (badgesMarkdown r))"
    and "\<not> updated (updateReadmeContent doc (badgesMarkdown r))"
  shows "run_document env i r l
           = (Return, l @ [ReadFile (fullPath i),
                           Info ''No changes detected. Badges are up to date.''])"
  using assms by (simp add: run_document_def andThen_def emit_def leave_def Let_def)

lemma run_document_Return:
  assumes "run_inputs env [] = (Next i, l0)" "run_render env i l0 = (Next r, l1)"
    "run_document env i r l1 = (Return, l2)"
  shows "run env = l2"
  using assms by (simp add: run_def run_body_def run_setup_def andThen_def)

lemma run_up_to_date:
  "run (testEnv testInputs README_UP_TO_DATE testRemote)
     = [Info ''Parsed 1 product(s)'', Info ''Badge types: health'',
        Info ''Generated badges for 1 product(s) x 1 type(s)'',
        Debug (''Generated badge markdown:'' @ NL @ ''[![python 3.12 health](https://img.releaserun.com/badge/health/python/3.12.svg)](https://releaserun.com/badges/python/)''),
        SetOutput ''badges-markdown''
          ''[![python 3.12 health](https://img.releaserun.com/badge/health/python/3.12.svg)](https://releaserun.com/badges/python/)'',
        SetOutput ''badges-count'' ''1'',
        SetOutput ''pr-branch'' ''releaserun/badges-update'',
        ReadFile ''/workspace/README.md'',
        Info ''No changes detected. Badges are up to date.'']"
  by code_simp

text \<open>
  Claim C4, as the specification states it, fails: with the document of the test-suite that
  already holds the rendered markup between the markers, the splice reports no change, and
  the run then makes no commit of file content and no creation or update of a pull request.
\<close>

theorem up_to_date_counterexample:
  "README_UP_TO_DATE
     = ''# Project'' @ NL @ START_MARKER @ NL
         @ ''[![python 3.12 health](https://img.releaserun.com/badge/health/python/3.12.svg)](https://releaserun.com/badges/python/)''
         @ NL @ END_MARKER
   \<and> SetOutput ''badges-markdown''
         ''[![python 3.12 health](https://img.releaserun.com/badge/health/python/3.12.svg)](https://releaserun.com/badges/python/)''
       \<in> set (run (testEnv testInputs README_UP_TO_DATE testRemote))
   \<and> \<not> updated (updateReadmeContent README_UP_TO_DATE
         ''[![python 3.12 health](https://img.releaserun.com/badge/health/python/3.12.svg)](https://releaserun.com/badges/python/)'')
   \<and> filter commitOf (apiCalls (run (testEnv testInputs README_UP_TO_DATE testRemote))) = []
   \<and> filter pullRequestWrite (apiCalls (run (testEnv testInputs README_UP_TO_DATE testRemote))) = []"
proof -
  have a: "README_UP_TO_DATE
     = ''# Project'' @ NL @ START_MARKER @ NL
         @ ''[![python 3.12 health](https://img.releaserun.com/badge/health/python/3.12.svg)](https://releaserun.com/badges/python/)''
         @ NL @ END_MARKER"
    by (simp add: README_UP_TO_DATE_def START_MARKER_def END_MARKER_def)
  have b: "\<not> updated (updateReadmeContent README_UP_TO_DATE
         ''[![python 3.12 health](https://img.releaserun.com/badge/health/python/3.12.svg)](https://releaserun.com/badges/python/)'')"
    by code_simp
  have c: "apiCalls (run (testEnv testInputs README_UP_TO_DATE testRemote)) = []"
    unfolding run_up_to_date by (simp add: apiCalls_def map_filter_simps)
  have d: "SetOutput ''badges-markdown''
         ''[![python 3.12 health](https://img.releaserun.com/badge/health/python/3.12.svg)](https://releaserun.com/badges/python/)''
       \<in> set (run (testEnv testInputs README_UP_TO_DATE testRemote))"
    unfolding run_up_to_date by simp
  from a b d show ?thesis unfolding c by simp
qed

text \<open>
  Claim C4, amended. When the text between the markers of the document is already a newline,
  the rendered markup and a newline, the splice finds the markers, reports no change and
  returns the document itself; the run then ends after the information message
  \<open>No changes detected\<close>, and it makes no API call at all: the commit step is not invoked
  and no pull request is created or updated.
\<close>

theorem up_to_date_stops:
  "run_inputs env [] = (Next i, log0) \<and> run_render env i log0 = (Next r, log1)
   \<and> readFileSync env (fullPath i) = Inr doc
   \<and> indexOf doc START_MARKER = Some s \<and> indexOf doc END_MARKER = Some e \<and> s < e
   \<and> substring doc (s + length START_MARKER) e = NL @ badgesMarkdown r @ NL
   \<longrightarrow> markersFound (updateReadmeContent doc (badgesMarkdown r))
     \<and> \<not> updated (updateReadmeContent doc (badgesMarkdown r))
     \<and> content (updateReadmeContent doc (badgesMarkdown r)) = doc
     \<and> run env = log1 @ [ReadFile (fullPath i),
                           Info ''No changes detected. Badges are up to date.'']
     \<and> apiCalls (run env) = []"
proof (intro impI, elim conjE)
  assume i: "run_inputs env [] = (Next i, log0)" and r: "run_render env i log0 = (Next r, log1)"
    and rd: "readFileSync env (fullPath i) = Inr doc"
    and s: "indexOf doc START_MARKER = Some s" and e: "indexOf doc END_MARKER = Some e"
    and lt: "s < e"
    and mid: "substring doc (s + length START_MARKER) e = NL @ badgesMarkdown r @ NL"
  note fp = splice_fixed_point[OF s e lt mid]
  from run_document_Return[OF i r run_document_unchanged[OF rd fp(2,3)]]
  have run: "run env = log1 @ [ReadFile (fullPath i),
                           Info ''No changes detected. Badges are up to date.'']" .
  from run_inputs_Next[OF i] have "log0 = []" .
  moreover from run_render_Next[OF r] obtain es where "log1 = log0 @ es" "apiCalls es = []"
    by blast
  ultimately have "apiCalls log1 = []" by simp
  with run have "apiCalls (run env) = []" by simp
  with fp run show "markersFound (updateReadmeContent doc (badgesMarkdown r))
     \<and> \<not> updated (updateReadmeContent doc (badgesMarkdown r))
     \<and> content (updateReadmeContent doc (badgesMarkdown r)) = doc
     \<and> run env = log1 @ [ReadFile (fullPath i),
                           Info ''No changes detected. Badges are up to date.'']
     \<and> apiCalls (run env) = []"
    by blast
qed

theorem up_to_date_stops_witness:
  "run_inputs (testEnv testInputs README_UP_TO_DATE testRemote) []
     = (Next \<lparr>productsInput = ''python:3.12'', badgeTypesInput = ''health'',
               readmePath = ''/workspace/README.md'', linkTo = badge_page,
               prTitle = ''chore: update version health badges'',
               prBranch = ''releaserun/badges-update'', style = ''flat'',
               badgeBaseUrl = None, fullPath = ''/workspace/README.md''\<rparr>, [])
   \<and> fst (run_render (testEnv testInputs README_UP_TO_DATE testRemote)
         \<lparr>productsInput = ''python:3.12'', badgeTypesInput = ''health'',
               readmePath = ''/workspace/README.md'', linkTo = badge_page,
               prTitle = ''chore: update version health badges'',
               prBranch = ''releaserun/badges-update'', style = ''flat'',
               badgeBaseUrl = None, fullPath = ''/workspace/README.md''\<rparr> [])
       = Next \<lparr>parsedProducts = [\<lparr>product = ''python'', version = Some ''3.12''\<rparr>],
                badgeTypes = [health],
                badgesMarkdown = ''[![python 3.12 health](https://img.releaserun.com/badge/health/python/3.12.svg)](https://releaserun.com/badges/python/)''\<rparr>
   \<and> indexOf README_UP_TO_DATE START_MARKER = Some 10
   \<and> indexOf README_UP_TO_DATE END_MARKER = Some 163
   \<and> substring README_UP_TO_DATE (10 + length START_MARKER) 163
       = NL @ ''[![python 3.12 health](https://img.releaserun.com/badge/health/python/3.12.svg)](https://releaserun.com/badges/python/)'' @ NL
   \<and> \<not> updated (updateReadmeContent README_UP_TO_DATE
         ''[![python 3.12 health](https://img.releaserun.com/badge/health/python/3.12.svg)](https://releaserun.com/badges/python/)'')
   \<and> last (run (testEnv testInputs README_UP_TO_DATE testRemote))
       = Info ''No changes detected. Badges are up to date.''
   \<and> apiCalls (run (testEnv testInputs README_UP_TO_DATE testRemote)) = []"
proof -
  let ?E = "testEnv testInputs README_UP_TO_DATE testRemote"
  let ?I = "\<lparr>productsInput = ''python:3.12'', badgeTypesInput = ''health'',
               readmePath = ''/workspace/README.md'', linkTo = badge_page,
               prTitle = ''chore: update version health badges'',
               prBranch = ''releaserun/badges-update'', style = ''flat'',
               badgeBaseUrl = None, fullPath = ''/workspace/README.md''\<rparr>"
  let ?M = "''[![python 3.12 health](https://img.releaserun.com/badge/health/python/3.12.svg)](https://releaserun.com/badges/python/)''"
  let ?R = "\<lparr>parsedProducts = [\<lparr>product = ''python'', version = Some ''3.12''\<rparr>],
                badgeTypes = [health], badgesMarkdown = ?M\<rparr>"
  have i: "run_inputs ?E [] = (Next ?I, [])" by code_simp
  have r: "fst (run_render ?E ?I []) = Next ?R" by code_simp
  then have r': "run_render ?E ?I [] = (Next ?R, snd (run_render ?E ?I []))"
    by (metis prod.collapse)
  have rd: "readFileSync ?E (fullPath ?I) = Inr README_UP_TO_DATE" by (simp add: testEnv_def)
  have s: "indexOf README_UP_TO_DATE START_MARKER = Some 10" by code_simp
  have e: "indexOf README_UP_TO_DATE END_MARKER = Some 163" by code_simp
  have lt: "(10::nat) < 163" by simp
  have mid: "substring README_UP_TO_DATE (10 + length START_MARKER) 163 = NL @ ?M @ NL"
    by code_simp
  have mid': "substring README_UP_TO_DATE (10 + length START_MARKER) 163 = NL @ badgesMarkdown ?R @ NL"
    using mid by simp
  from up_to_date_stops[of ?E ?I "[]" ?R "snd (run_render ?E ?I [])" README_UP_TO_DATE 10 163]
    i r' rd s e lt mid'
  have u: "\<not> updated (updateReadmeContent README_UP_TO_DATE (badgesMarkdown ?R))"
    and run: "run ?E = snd (run_render ?E ?I []) @ [ReadFile (fullPath ?I),
                           Info ''No changes detected. Badges are up to date.'']"
    and a: "apiCalls (run ?E) = []"
    by blast+
  from run have l: "last (run ?E) = Info ''No changes detected. Badges are up to date.''"
    by simp
  from u have u': "\<not> updated (updateReadmeContent README_UP_TO_DATE ?M)" by simp
  from i r s e mid u' l a show ?thesis by blast
qed

text \<open>
  Claim C6 fails on a path beside the workspace whose name continues the name of the
  workspace. With the workspace \<open>/workspace\<close> and the input
  \<open>../workspace-evil/README.md\<close>, the path resolves to \<open>/workspace-evil/README.md\<close>,
  which is not inside \<open>/workspace\<close> but begins with the same characters; the check of
  line 91 passes, and the run reads that file, writes it, and goes on to the remote calls.
\<close>

theorem readme_path_sibling_escapes:
  "pathResolve (testEnv [(''products'', ''python:3.12''),
                         (''readme-path'', ''../workspace-evil/README.md''),
                         (''github-token'', ''fake-token'')] README_WITH_MARKERS testRemote)
       ''../workspace-evil/README.md'' = ''/workspace-evil/README.md''
   \<and> \<not> insideDirectory ''/workspace'' ''/workspace-evil/README.md''
   \<and> startsWith ''/workspace-evil/README.md'' ''/workspace''
   \<and> take 11 (drop 7 (run (testEnv [(''products'', ''python:3.12''),
                         (''readme-path'', ''../workspace-evil/README.md''),
                         (''github-token'', ''fake-token'')] README_WITH_MARKERS testRemote)))
       = [ReadFile ''/workspace-evil/README.md'',
          WriteFile ''/workspace-evil/README.md''
            (''# Project'' @ NL @ ''<!-- releaserun-badges-start -->'' @ NL
               @ ''[![python 3.12 health](https://img.releaserun.com/badge/health/python/3.12.svg)](https://releaserun.com/badges/python/)''
               @ NL @ ''<!-- releaserun-badges-end -->'' @ NL @ ''Footer''),
          Info ''README updated with new badges.'',
          SetSecret ''fake-token'',
          Api (ReposGet ''test-owner'' ''test-repo''),
          Api (GitGetRef ''test-owner'' ''test-repo'' ''heads/main''),
          Api (GitCreateRef ''test-owner'' ''test-repo''
                 ''refs/heads/releaserun/badges-update'' ''abc123''),
          Info ''Created branch releaserun/badges-update'',
          Api (ReposGetContent ''test-owner'' ''test-repo'' ''../workspace-evil/README.md''
                 ''releaserun/badges-update''),
          Api (ReposCreateOrUpdateFileContents ''test-owner'' ''test-repo''
                 ''../workspace-evil/README.md'' ''chore: update version health badges''
                 (toBase64 (''# Project'' @ NL @ ''<!-- releaserun-badges-start -->'' @ NL
               @ ''[![python 3.12 health](https://img.releaserun.com/badge/health/python/3.12.svg)](https://releaserun.com/badges/python/)''
               @ NL @ ''<!-- releaserun-badges-end -->'' @ NL @ ''Footer''))
                 (Some ''file-sha-123'') ''releaserun/badges-update''),
          Info ''Committed badge updates.'']"
  by code_simp

end
